(* ===== verification/Go_Prelude.thy ===== *)
theory Go_Prelude
  imports Main "HOL-Library.Word" "HOL-Library.Signed_Division" "HOL-Library.Sublist"
    "HOL-Library.Char_ord" "HOL-Library.List_Lexorder"
begin

text \<open>
  Shared vocabulary of the development: Go's \<open>error\<close> values and the outcome of a call
  (a value, an error or a panic), the association lists that stand for a Go map in the order in
  which \<open>range\<close> visits it, the \<open>strings\<close> and \<open>strconv\<close> functions the sources use, and the
  signed reading of 64-bit words. The named collections \<open>go_errors\<close> and \<open>go_maps\<close> gather the
  facts that the component proofs pass to the simplifier.
\<close>

named_theorems go_errors \<open>facts about Go error values\<close>
named_theorems go_maps \<open>facts about association lists that stand for Go maps\<close>

section \<open>Errors and outcomes\<close>

text \<open>The gRPC status codes that the CSI services return (\<open>google.golang.org/grpc/codes\<close>).\<close>

datatype code =
    InvalidArgument | NotFound | AlreadyExists | Aborted | Internal | Unimplemented | Unavailable

text \<open>The \<open>errno\<close> values that the operating system returns to the file-system calls.\<close>

datatype errno = ENOENT | EACCES | EPERM | ENOTDIR | EEXIST | ENOTEMPTY | EIO | ENOSPC | EBUSY | EINVAL

primrec strerror :: "errno \<Rightarrow> string" where
  "strerror ENOENT = ''no such file or directory''"
| "strerror EACCES = ''permission denied''"
| "strerror EPERM = ''operation not permitted''"
| "strerror ENOTDIR = ''not a directory''"
| "strerror EEXIST = ''file exists''"
| "strerror ENOTEMPTY = ''directory not empty''"
| "strerror EIO = ''input/output error''"
| "strerror ENOSPC = ''no space left on device''"
| "strerror EBUSY = ''device or resource busy''"
| "strerror EINVAL = ''invalid argument''"

primrec code_string :: "code \<Rightarrow> string" where
  "code_string InvalidArgument = ''InvalidArgument''"
| "code_string NotFound = ''NotFound''"
| "code_string AlreadyExists = ''AlreadyExists''"
| "code_string Aborted = ''Aborted''"
| "code_string Internal = ''Internal''"
| "code_string Unimplemented = ''Unimplemented''"
| "code_string Unavailable = ''Unavailable''"

text \<open>The reasons in the status of a failed request to the Kubernetes API that the controller looks at.\<close>

datatype api_reason = StatusReasonNotFound | StatusReasonAlreadyExists | StatusReasonOther

text \<open>
  A Go \<open>error\<close>: a gRPC status, an \<open>*fs.PathError\<close>, the result of \<open>errors.New\<close> or of
  \<open>fmt.Errorf\<close> without \<open>%w\<close>, and the result of \<open>fmt.Errorf\<close> with \<open>%w\<close> (prefix and wrapped
  error; every use in the sources has \<open>%w\<close> at the end), a status of the Kubernetes API, and the
  \<open>IgnoredError\<close> of the provision controller.
\<close>

datatype go_error =
    StatusError code string
  | PathError string string errno
  | ErrorString string
  | WrapError string go_error
  | APIError api_reason string
  | IgnoredError string

primrec error_msg :: "go_error \<Rightarrow> string" where
  "error_msg (StatusError c m) = ''rpc error: code = '' @ code_string c @ '' desc = '' @ m"
| "error_msg (PathError op p e) = op @ '' '' @ p @ '': '' @ strerror e"
| "error_msg (ErrorString m) = m"
| "error_msg (WrapError m e) = m @ error_msg e"
| "error_msg (APIError r m) = m"
| "error_msg (IgnoredError reason) = ''ignored because '' @ reason"

text \<open>\<open>os.IsNotExist\<close> and \<open>os.IsPermission\<close> look at the error itself and do not unwrap.\<close>

fun IsNotExist :: "go_error \<Rightarrow> bool" where
  "IsNotExist (PathError _ _ e) = (e = ENOENT)"
| "IsNotExist _ = False"

fun IsPermission :: "go_error \<Rightarrow> bool" where
  "IsPermission (PathError _ _ e) = (e = EACCES \<or> e = EPERM)"
| "IsPermission _ = False"

text \<open>\<open>errors.Is(err, os.ErrNotExist)\<close> follows the chain of wrapped errors.\<close>

fun errors_Is_NotExist :: "go_error \<Rightarrow> bool" where
  "errors_Is_NotExist (PathError _ _ e) = (e = ENOENT)"
| "errors_Is_NotExist (WrapError _ e) = errors_Is_NotExist e"
| "errors_Is_NotExist _ = False"

text \<open>\<open>IsNotFound\<close> and \<open>IsAlreadyExists\<close> of \<open>k8s.io/apimachinery/pkg/api/errors\<close>, which unwrap.\<close>

fun ReasonForError :: "go_error \<Rightarrow> api_reason" where
  "ReasonForError (APIError r _) = r"
| "ReasonForError (WrapError _ e) = ReasonForError e"
| "ReasonForError _ = StatusReasonOther"

definition apierrs_IsNotFound :: "go_error \<Rightarrow> bool" where
  "apierrs_IsNotFound e \<longleftrightarrow> ReasonForError e = StatusReasonNotFound"

definition apierrs_IsAlreadyExists :: "go_error \<Rightarrow> bool" where
  "apierrs_IsAlreadyExists e \<longleftrightarrow> ReasonForError e = StatusReasonAlreadyExists"

text \<open>What a call gives back: a value with a nil error, an error, or a run-time panic.\<close>

datatype 'a outcome = Ok 'a | Err go_error | Panic string

definition nil_deref :: string where
  "nil_deref = ''invalid memory address or nil pointer dereference''"

primrec is_ok :: "'a outcome \<Rightarrow> bool" where
  "is_ok (Ok _) = True"
| "is_ok (Err _) = False"
| "is_ok (Panic _) = False"

lemma is_ok_iff: "is_ok r \<longleftrightarrow> (\<exists>x. r = Ok x)"
  by (cases r) auto

section \<open>Go maps\<close>

text \<open>
  A Go map is an association list with distinct keys; its order is the (unspecified) order in
  which one \<open>range\<close> statement visits it. Statements about a map quantify over the list, so they
  hold for every iteration order.
\<close>

type_synonym ('k, 'v) gomap = "('k \<times> 'v) list"

definition gomap_wf :: "('k, 'v) gomap \<Rightarrow> bool" where
  "gomap_wf m \<longleftrightarrow> distinct (map fst m)"

definition gomap_get :: "'v \<Rightarrow> ('k, 'v) gomap \<Rightarrow> 'k \<Rightarrow> 'v" where
  \<comment> \<open>\<open>m[k]\<close>: the zero value for a missing key\<close>
  "gomap_get zero m k = (case map_of m k of None \<Rightarrow> zero | Some v \<Rightarrow> v)"

fun gomap_put :: "('k, 'v) gomap \<Rightarrow> 'k \<Rightarrow> 'v \<Rightarrow> ('k, 'v) gomap" where
  "gomap_put [] k v = [(k, v)]"
| "gomap_put ((k', v') # m) k v = (if k' = k then (k, v) # m else (k', v') # gomap_put m k v)"

definition gomap_del :: "('k, 'v) gomap \<Rightarrow> 'k \<Rightarrow> ('k, 'v) gomap" where
  "gomap_del m k = filter (\<lambda>e. fst e \<noteq> k) m"

lemma map_of_gomap_put [simp, go_maps]: "map_of (gomap_put m k v) = (map_of m)(k \<mapsto> v)"
  by (induction m) auto

lemma map_of_gomap_del [simp, go_maps]: "map_of (gomap_del m k) = (map_of m)(k := None)"
  by (induction m) (auto simp: gomap_del_def)

lemma gomap_put_keys [go_maps]: "fst ` set (gomap_put m k v) = insert k (fst ` set m)"
proof (induction m)
  case (Cons e m)
  then show ?case by (cases e) auto
qed simp

lemma gomap_wf_put [go_maps]: "gomap_wf m \<Longrightarrow> gomap_wf (gomap_put m k v)"
proof (induction m)
  case (Cons e m)
  then show ?case
    using gomap_put_keys [of m k v] by (cases e) (auto simp: gomap_wf_def)
qed (simp add: gomap_wf_def)

lemma gomap_wf_del [go_maps]: "gomap_wf m \<Longrightarrow> gomap_wf (gomap_del m k)"
  by (auto simp: gomap_wf_def gomap_del_def distinct_map intro: inj_on_subset)

lemma gomap_get_put [simp, go_maps]: "gomap_get z (gomap_put m k v) k = v"
  by (simp add: gomap_get_def)

section \<open>Strings\<close>

fun split_on :: "char \<Rightarrow> string \<Rightarrow> string list" where
  \<comment> \<open>\<open>strings.Split(s, sep)\<close> for a separator of one byte\<close>
  "split_on c [] = [[]]"
| "split_on c (x # xs) =
     (if x = c then [] # split_on c xs
      else (case split_on c xs of [] \<Rightarrow> [[x]] | y # ys \<Rightarrow> (x # y) # ys))"

fun join_with :: "string \<Rightarrow> string list \<Rightarrow> string" where
  \<comment> \<open>\<open>strings.Join(elems, sep)\<close>\<close>
  "join_with sep [] = []"
| "join_with sep [s] = s"
| "join_with sep (s # t # ss) = s @ sep @ join_with sep (t # ss)"

lemma split_on_neq_Nil [simp]: "split_on c s \<noteq> []"
  by (induction s) (auto split: list.splits)

lemma split_on_no_sep: "c \<notin> set s \<Longrightarrow> split_on c s = [s]"
  by (induction s) auto

lemma split_on_append_sep: "split_on c (s @ c # t) = split_on c s @ split_on c t"
proof (induction s)
  case (Cons x s)
  show ?case
  proof (cases "split_on c s")
    case Nil
    then show ?thesis by simp
  next
    case (Cons y ys)
    with Cons.IH show ?thesis by simp
  qed
qed simp

lemma split_on_elems: "p \<in> set (split_on c s) \<Longrightarrow> c \<notin> set p"
proof (induction s arbitrary: p)
  case (Cons x s)
  then show ?case
    by (cases "split_on c s") (auto split: if_splits)
qed simp

lemma split_on_join_with:
  assumes "ss \<noteq> []" and "\<forall>s \<in> set ss. c \<notin> set s"
  shows "split_on c (join_with [c] ss) = ss"
  using assms
proof (induction "[c]" ss rule: join_with.induct)
  case (3 s t ss)
  then show ?case by (simp add: split_on_append_sep split_on_no_sep)
qed (simp_all add: split_on_no_sep)

definition to_lower_char :: "char \<Rightarrow> char" where
  "to_lower_char c =
     (if 65 \<le> (of_char c :: nat) \<and> (of_char c :: nat) \<le> 90 then char_of ((of_char c :: nat) + 32) else c)"

definition ToLower :: "string \<Rightarrow> string" where
  \<comment> \<open>\<open>strings.ToLower\<close> on ASCII\<close>
  "ToLower s = map to_lower_char s"

definition ReplaceAll :: "char \<Rightarrow> char \<Rightarrow> string \<Rightarrow> string" where
  \<comment> \<open>\<open>strings.ReplaceAll(s, old, new)\<close> for single bytes\<close>
  "ReplaceAll old new s = map (\<lambda>c. if c = old then new else c) s"

definition quote_char :: "char \<Rightarrow> string" where
  "quote_char c =
     (if c = CHR 0x22 \<or> c = CHR 0x5C then [CHR 0x5C, c]
      else if c = CHR 0x07 then [CHR 0x5C, CHR ''a'']
      else if c = CHR 0x08 then [CHR 0x5C, CHR ''b'']
      else if c = CHR 0x09 then [CHR 0x5C, CHR ''t'']
      else if c = CHR 0x0A then [CHR 0x5C, CHR ''n'']
      else if c = CHR 0x0B then [CHR 0x5C, CHR ''v'']
      else if c = CHR 0x0C then [CHR 0x5C, CHR ''f'']
      else if c = CHR 0x0D then [CHR 0x5C, CHR ''r'']
      else if (of_char c :: nat) < 32 \<or> (of_char c :: nat) = 127
      then (let hex = (\<lambda>n. ''0123456789abcdef'' ! n)
            in [CHR 0x5C, CHR ''x'', hex ((of_char c :: nat) div 16), hex ((of_char c :: nat) mod 16)])
      else [c])"

definition quote :: "string \<Rightarrow> string" where
  \<comment> \<open>the verb \<open>%q\<close> on ASCII\<close>
  "quote s = [CHR 0x22] @ concat (map quote_char s) @ [CHR 0x22]"

section \<open>Decimal numbers\<close>

definition digit_value :: "char \<Rightarrow> nat option" where
  "digit_value c =
     (let n = (of_char c :: nat) in if 48 \<le> n \<and> n \<le> 57 then Some (n - 48) else None)"

fun decimal_value :: "string \<Rightarrow> nat \<Rightarrow> nat option" where
  "decimal_value [] acc = Some acc"
| "decimal_value (c # cs) acc =
     (case digit_value c of None \<Rightarrow> None | Some d \<Rightarrow> decimal_value cs (10 * acc + d))"

definition ParseUint32 :: "string \<Rightarrow> nat option" where
  \<comment> \<open>\<open>strconv.ParseUint(s, 10, 32)\<close>: \<open>None\<close> stands for the syntax and the range error\<close>
  "ParseUint32 s =
     (if s = [] then None
      else (case decimal_value s 0 of
              None \<Rightarrow> None
            | Some n \<Rightarrow> if n < 2 ^ 32 then Some n else None))"

fun format_nat :: "nat \<Rightarrow> string" where
  "format_nat n =
     (if n < 10 then [char_of (48 + n)] else format_nat (n div 10) @ [char_of (48 + n mod 10)])"

declare format_nat.simps [simp del]

definition FormatInt :: "int \<Rightarrow> string" where
  \<comment> \<open>\<open>strconv.FormatInt(i, 10)\<close>\<close>
  "FormatInt i = (if i < 0 then ''-'' @ format_nat (nat (- i)) else format_nat (nat i))"

lemma digit_value_char_of [simp]: "d < 10 \<Longrightarrow> digit_value (char_of (48 + d)) = Some d"
  by (simp add: digit_value_def)

lemma decimal_value_append:
  "decimal_value (s @ t) acc =
     (case decimal_value s acc of None \<Rightarrow> None | Some n \<Rightarrow> decimal_value t n)"
  by (induction s arbitrary: acc) (auto split: option.splits)

lemma decimal_value_format_nat: "decimal_value (format_nat n) 0 = Some n"
proof (induction n rule: format_nat.induct)
  case (1 n)
  show ?case
  proof (cases "n < 10")
    case True
    then show ?thesis by (simp add: format_nat.simps [of n])
  next
    case False
    with 1 have "decimal_value (format_nat (n div 10)) 0 = Some (n div 10)" by simp
    with False show ?thesis
      by (simp add: format_nat.simps [of n] decimal_value_append)
  qed
qed

lemma format_nat_neq_Nil [simp]: "format_nat n \<noteq> []"
  by (subst format_nat.simps) simp

lemma ParseUint32_FormatInt: "n < 2 ^ 32 \<Longrightarrow> ParseUint32 (FormatInt (int n)) = Some n"
  by (simp add: ParseUint32_def FormatInt_def decimal_value_format_nat)

section \<open>Signed 64-bit integers\<close>

type_synonym int64 = "64 word"
type_synonym uint64 = "64 word"

definition int64_of_int :: "int \<Rightarrow> int64" where
  "int64_of_int i = word_of_int i"

lemma sint_int64: "- (2 ^ 63) \<le> i \<Longrightarrow> i < 2 ^ 63 \<Longrightarrow> sint (word_of_int i :: int64) = i"
  by (simp add: sint_sbintrunc' signed_take_bit_int_eq_self)

lemma sint_int64_bounds: "- (2 ^ 63) \<le> sint (w :: int64)" "sint (w :: int64) < 2 ^ 63"
  using sint_ge [of w] sint_lt [of w] by simp_all

end
