(* ===== verification/Go_Filepath.thy ===== *)
theory Go_Filepath
  imports Go_Prelude
begin

text \<open>
  The lexical path functions of Go's \<open>path/filepath\<close> on Unix (\<open>Clean\<close>, \<open>Join\<close>, \<open>Base\<close>,
  \<open>Dir\<close>), on strings as the sources use them, and \<open>path_key\<close>, the list of components that the
  kernel resolves a path string to. The processes run with the working directory \<open>/\<close> and the
  storage pools hold no symbolic links, so resolution is lexical. The main facts say what
  happens when a directory entry's name is joined to a pool's path.
\<close>

section \<open>Definitions\<close>

definition clean_push :: "bool \<Rightarrow> string list \<Rightarrow> string \<Rightarrow> string list" where
  \<comment> \<open>one path element; the elements so far are kept last first\<close>
  "clean_push rooted stack c =
     (if c = [] \<or> c = ''.'' then stack
      else if c = ''..'' then
        (case stack of
           [] \<Rightarrow> if rooted then [] else [''..'']
         | t # ts \<Rightarrow> if t = ''..'' then ''..'' # stack else ts)
      else c # stack)"

definition clean_comps :: "bool \<Rightarrow> string list \<Rightarrow> string list" where
  "clean_comps rooted cs = rev (foldl (clean_push rooted) [] cs)"

definition is_rooted :: "string \<Rightarrow> bool" where
  "is_rooted p \<longleftrightarrow> p \<noteq> [] \<and> hd p = CHR ''/''"

definition Clean :: "string \<Rightarrow> string" where
  "Clean p =
     (let cs = clean_comps (is_rooted p) (split_on CHR ''/'' p)
      in if is_rooted p then CHR ''/'' # join_with ''/'' cs
         else if cs = [] then ''.'' else join_with ''/'' cs)"

definition Join :: "string list \<Rightarrow> string" where
  "Join elems =
     (case dropWhile (\<lambda>e. e = []) elems of
        [] \<Rightarrow> []
      | es \<Rightarrow> Clean (join_with ''/'' es))"

definition Base :: "string \<Rightarrow> string" where
  "Base p =
     (if p = [] then ''.''
      else let q = rev (dropWhile (\<lambda>c. c = CHR ''/'') (rev p))
           in if q = [] then ''/'' else rev (takeWhile (\<lambda>c. c \<noteq> CHR ''/'') (rev q)))"

definition Dir :: "string \<Rightarrow> string" where
  "Dir p = Clean (rev (dropWhile (\<lambda>c. c \<noteq> CHR ''/'') (rev p)))"

definition path_key :: "string \<Rightarrow> string list" where
  "path_key p = clean_comps True (split_on CHR ''/'' p)"

definition simple_name :: "string \<Rightarrow> bool" where
  \<comment> \<open>a name that a directory entry can have\<close>
  "simple_name n \<longleftrightarrow> n \<noteq> [] \<and> CHR ''/'' \<notin> set n \<and> n \<noteq> ''.'' \<and> n \<noteq> ''..''"

definition path_string :: "string list \<Rightarrow> string" where
  \<comment> \<open>the absolute path that names a list of components\<close>
  "path_string k = CHR ''/'' # join_with ''/'' k"

section \<open>Cleaning\<close>

lemma clean_push_simple [simp]: "simple_name n \<Longrightarrow> clean_push r st n = n # st"
  by (simp add: clean_push_def simple_name_def)

lemma clean_push_Nil [simp]: "clean_push r st [] = st"
  by (simp add: clean_push_def)

lemma clean_push_dot [simp]: "clean_push r st ''.'' = st"
  by (simp add: clean_push_def)

lemma clean_push_dotdot [simp]:
  "clean_push r [] ''..'' = (if r then [] else [''..''])"
  "clean_push r (t # ts) ''..'' = (if t = ''..'' then ''..'' # t # ts else ts)"
  by (simp_all add: clean_push_def)

lemma clean_push_other [simp]:
  "c \<noteq> [] \<Longrightarrow> c \<noteq> ''.'' \<Longrightarrow> c \<noteq> ''..'' \<Longrightarrow> clean_push r st c = c # st"
  by (simp add: clean_push_def)

lemma clean_push_elems:
  "c \<in> set (clean_push r st x) \<Longrightarrow>
     c \<in> set st \<or> (c = x \<and> x \<noteq> [] \<and> x \<noteq> ''.'' \<and> x \<noteq> ''..'') \<or> (c = ''..'' \<and> \<not> r)"
  by (auto simp: clean_push_def split: if_splits list.splits)

lemma clean_stack_elems:
  "c \<in> set (foldl (clean_push r) [] cs) \<Longrightarrow>
     (c \<in> set cs \<or> c = ''..'') \<and> c \<noteq> [] \<and> c \<noteq> ''.'' \<and> (r \<longrightarrow> c \<noteq> ''..'')"
proof (induction cs rule: rev_induct)
  case (snoc x cs)
  from snoc.prems have "c \<in> set (clean_push r (foldl (clean_push r) [] cs) x)" by simp
  from clean_push_elems [OF this] snoc.IH show ?case by auto
qed simp

lemma clean_twice:
  assumes "r \<longrightarrow> r'"
  shows "foldl (clean_push r') [] (rev (foldl (clean_push r) [] cs)) = foldl (clean_push r') [] cs"
proof (induction cs rule: rev_induct)
  case (snoc c cs)
  let ?st = "foldl (clean_push r) [] cs"
  let ?k = "foldl (clean_push r') []"
  show ?case
  proof (cases "c = ''..''")
    case False
    then show ?thesis using snoc by (cases "c = [] \<or> c = ''.''") auto
  next
    case True
    show ?thesis
    proof (cases ?st)
      case Nil
      then have "?k cs = []" using snoc by simp
      with Nil True assms show ?thesis by simp
    next
      case (Cons t ts)
      show ?thesis
      proof (cases "t = ''..''")
        case True
        then show ?thesis using snoc Cons \<open>c = ''..''\<close> by simp
      next
        case False
        have "t \<in> set ?st" using Cons by simp
        then have "t \<noteq> []" "t \<noteq> ''.''" using clean_stack_elems by blast+
        then have "?k cs = t # ?k (rev ts)"
          using snoc Cons False by simp
        then show ?thesis using Cons False \<open>c = ''..''\<close> by simp
      qed
    qed
  qed
qed simp

lemma clean_comps_twice: "(r \<longrightarrow> r') \<Longrightarrow> clean_comps r' (clean_comps r cs) = clean_comps r' cs"
  by (simp add: clean_comps_def clean_twice)

lemma clean_comps_elems:
  assumes "c \<in> set (clean_comps r (split_on CHR ''/'' p))"
  shows "c \<noteq> []" and "CHR ''/'' \<notin> set c" and "r \<Longrightarrow> simple_name c"
proof -
  have *: "(c \<in> set (split_on CHR ''/'' p) \<or> c = ''..'') \<and> c \<noteq> [] \<and> c \<noteq> ''.'' \<and> (r \<longrightarrow> c \<noteq> ''..'')"
    using assms clean_stack_elems [of c r "split_on CHR ''/'' p"] by (simp add: clean_comps_def)
  then show "c \<noteq> []" by simp
  show ns: "CHR ''/'' \<notin> set c" using * split_on_elems [of c "CHR ''/''" p] by auto
  show "r \<Longrightarrow> simple_name c" using * ns by (simp add: simple_name_def)
qed

lemma path_key_elems: "c \<in> set (path_key p) \<Longrightarrow> simple_name c"
  using clean_comps_elems(3) [of c True p] by (simp add: path_key_def)

lemma clean_comps_simple: "\<forall>c \<in> set cs. simple_name c \<Longrightarrow> clean_comps r cs = cs"
proof -
  assume "\<forall>c \<in> set cs. simple_name c"
  then have "foldl (clean_push r) st cs = rev cs @ st" for st
    by (induction cs arbitrary: st) auto
  then show ?thesis by (simp add: clean_comps_def)
qed

lemma clean_comps_append_simple:
  "simple_name n \<Longrightarrow> clean_comps r (cs @ [n]) = clean_comps r cs @ [n]"
  by (simp add: clean_comps_def)

lemma split_join_comps:
  assumes "cs \<noteq> []" and "cs = clean_comps r (split_on CHR ''/'' p)"
  shows "split_on CHR ''/'' (join_with ''/'' cs) = cs"
  using assms clean_comps_elems(2) [of _ r p] by (intro split_on_join_with) auto

lemma split_Clean:
  "clean_comps r' (split_on CHR ''/'' (Clean p)) = clean_comps r' (clean_comps (is_rooted p) (split_on CHR ''/'' p))"
proof -
  let ?cs = "clean_comps (is_rooted p) (split_on CHR ''/'' p)"
  have Nil1: "clean_comps r' ([] # cs) = clean_comps r' cs" for cs
    by (simp add: clean_comps_def)
  have dot: "clean_comps r' [''.''] = []" and nil: "clean_comps r' [] = []"
    by (simp_all add: clean_comps_def)
  show ?thesis
  proof (cases "?cs = []")
    case True
    then show ?thesis
      by (auto simp: Clean_def Let_def dot nil Nil1)
  next
    case False
    then have "split_on CHR ''/'' (join_with ''/'' ?cs) = ?cs"
      by (rule split_join_comps) simp
    with False show ?thesis
      by (auto simp: Clean_def Let_def Nil1)
  qed
qed

lemma path_key_Clean [simp]: "path_key (Clean p) = path_key p"
  by (simp add: path_key_def split_Clean clean_comps_twice)

lemma join_with_nonempty: "cs \<noteq> [] \<Longrightarrow> \<forall>c \<in> set cs. c \<noteq> [] \<Longrightarrow> join_with sep cs \<noteq> []"
  by (induction sep cs rule: join_with.induct) auto

lemma Clean_nonempty [simp]: "Clean p \<noteq> []"
proof -
  have "\<forall>c \<in> set (clean_comps (is_rooted p) (split_on CHR ''/'' p)). c \<noteq> []"
    using clean_comps_elems(1) by blast
  then show ?thesis by (simp add: Clean_def Let_def join_with_nonempty)
qed

lemma path_key_Nil [simp]: "path_key [] = []"
  by (simp add: path_key_def clean_comps_def)

lemma path_key_path_string: "\<forall>c \<in> set k. simple_name c \<Longrightarrow> path_key (path_string k) = k"
proof -
  assume k: "\<forall>c \<in> set k. simple_name c"
  have "split_on CHR ''/'' (join_with ''/'' k) = (if k = [] then [[]] else k)"
    using k split_on_join_with [of k "CHR ''/''"] by (auto simp: simple_name_def)
  then show ?thesis
    using k clean_comps_simple [of k True]
    by (auto simp: path_key_def path_string_def clean_comps_def)
qed

section \<open>Joining a directory and a name\<close>

lemma Join2: "Join [p, n] = (if p = [] then (if n = [] then [] else Clean n) else Clean (p @ ''/'' @ n))"
  by (simp add: Join_def)

lemma path_key_Join2:
  "path_key (Join [p, n]) = rev (foldl (clean_push True) (rev (path_key p)) (split_on CHR ''/'' n))"
proof (cases "p = []")
  case True
  then show ?thesis by (auto simp: Join2) (simp add: path_key_def clean_comps_def)
next
  case False
  then show ?thesis
    by (simp add: Join2) (simp add: path_key_def clean_comps_def split_on_append_sep)
qed

lemma path_key_Join_simple [simp]: "simple_name n \<Longrightarrow> path_key (Join [p, n]) = path_key p @ [n]"
  by (simp add: path_key_Join2 split_on_no_sep simple_name_def)

lemma Join3: "p \<noteq> [] \<Longrightarrow> Join [p, a, b] = Clean (p @ ''/'' @ a @ ''/'' @ b)"
  by (simp add: Join_def)

lemma path_key_Join3_simple:
  assumes "p \<noteq> []" "simple_name a" "simple_name b"
  shows "path_key (Join [p, a, b]) = path_key p @ [a, b]"
proof -
  have "split_on CHR ''/'' (p @ ''/'' @ a @ ''/'' @ b) = split_on CHR ''/'' p @ [a, b]"
    using assms by (simp add: split_on_append_sep split_on_no_sep simple_name_def)
  then show ?thesis
    using assms by (simp add: Join3) (simp add: path_key_def clean_comps_def)
qed

lemma path_key_slash_dot: "path_key (p @ ''/.'') = path_key p"
proof -
  have "split_on CHR ''/'' (p @ ''/.'') = split_on CHR ''/'' p @ [''.'']"
    using split_on_append_sep [of "CHR ''/''" p "''.''"] by simp
  then show ?thesis by (simp add: path_key_def clean_comps_def)
qed

lemma join_with_snoc:
  "join_with sep (cs @ [n]) = (if cs = [] then n else join_with sep cs @ sep @ n)"
  by (induction sep cs rule: join_with.induct) auto

lemma Join_simple_string:
  assumes "simple_name n"
  obtains pre where "Join [p, n] = pre @ n"
    and "pre = [] \<or> (\<exists>q. pre = q @ ''/'')"
    and "Clean pre = Clean p"
proof -
  let ?r = "is_rooted p"
  let ?cs = "clean_comps ?r (split_on CHR ''/'' p)"
  have rn: "\<not> is_rooted n" using assms by (cases n) (auto simp: is_rooted_def simple_name_def)
  have cn: "clean_comps False (split_on CHR ''/'' n) = [n]"
    using assms by (simp add: split_on_no_sep simple_name_def clean_comps_def)
  show thesis
  proof (cases "p = []")
    case True
    have "Join [p, n] = [] @ n"
      using True assms rn cn by (simp add: Join2 Clean_def simple_name_def)
    then show thesis using that [of "[]"] True by simp
  next
    case False
    have r: "is_rooted (p @ ''/'' @ n) = ?r" using False by (cases p) (simp_all add: is_rooted_def)
    have cs: "clean_comps ?r (split_on CHR ''/'' (p @ ''/'' @ n)) = ?cs @ [n]"
      using assms
      by (simp add: split_on_append_sep split_on_no_sep simple_name_def clean_comps_def)
    define root where "root = (if ?r then ''/'' else [])"
    define pre where "pre = root @ (if ?cs = [] then [] else join_with ''/'' ?cs @ ''/'')"
    have J: "Join [p, n] = pre @ n"
      using False r cs by (simp add: Join2 Clean_def Let_def pre_def root_def join_with_snoc)
    have pre: "pre = [] \<or> (\<exists>q. pre = q @ ''/'')"
      by (simp add: pre_def root_def)
    have "split_on CHR ''/'' (join_with ''/'' ?cs @ ''/'') = ?cs @ [[]]" if "?cs \<noteq> []"
      using split_join_comps [OF that refl] split_on_append_sep [of "CHR ''/''" _ "[]"] by simp
    then have sp: "clean_comps ?r (split_on CHR ''/'' pre) = ?cs"
      using clean_comps_twice [of ?r ?r "split_on CHR ''/'' p"]
      by (auto simp: pre_def root_def clean_comps_def)
    have rp: "is_rooted pre = ?r"
    proof (cases "?r \<or> ?cs = []")
      case True
      then show ?thesis by (auto simp: pre_def root_def is_rooted_def)
    next
      case False
      then obtain c ds where cd: "?cs = c # ds" by (cases ?cs) auto
      then have "c \<noteq> [] \<and> CHR ''/'' \<notin> set c"
        using clean_comps_elems(1,2) [of c ?r p] by simp
      with False cd show ?thesis
        by (cases c; cases ds) (auto simp: pre_def root_def is_rooted_def)
    qed
    have "Clean pre = Clean p" using sp rp by (simp add: Clean_def)
    with J pre that show thesis by blast
  qed
qed

lemma Base_append: "simple_name n \<Longrightarrow> pre = [] \<or> (\<exists>q. pre = q @ ''/'') \<Longrightarrow> Base (pre @ n) = n"
proof -
  assume n: "simple_name n" and pre: "pre = [] \<or> (\<exists>q. pre = q @ ''/'')"
  obtain x xs where rn: "rev n = x # xs" using n by (cases "rev n") (auto simp: simple_name_def)
  have ns: "CHR ''/'' \<notin> set (rev n)" using n by (simp add: simple_name_def)
  have "dropWhile (\<lambda>c. c = CHR ''/'') (rev (pre @ n)) = rev (pre @ n)"
    using rn ns by auto
  moreover have "takeWhile (\<lambda>c. c \<noteq> CHR ''/'') (rev (pre @ n)) = rev n"
  proof -
    have "\<forall>c \<in> set (rev n). c \<noteq> CHR ''/''" using ns by blast
    then have "takeWhile (\<lambda>c. c \<noteq> CHR ''/'') (rev n @ rev pre) =
        rev n @ takeWhile (\<lambda>c. c \<noteq> CHR ''/'') (rev pre)"
      by (intro takeWhile_append2) blast
    then show ?thesis using pre by auto
  qed
  moreover have "pre @ n \<noteq> []" using n by (simp add: simple_name_def)
  ultimately show ?thesis by (simp add: Base_def del: rev_append)
qed

lemma Base_Join [simp]: "simple_name n \<Longrightarrow> Base (Join [p, n]) = n"
proof -
  assume n: "simple_name n"
  then obtain pre where "Join [p, n] = pre @ n" and "pre = [] \<or> (\<exists>q. pre = q @ ''/'')"
    by (rule Join_simple_string)
  with n show ?thesis using Base_append [of n pre] by simp
qed

lemma Dir_Join [simp]: "simple_name n \<Longrightarrow> Dir (Join [p, n]) = Clean p"
proof -
  assume n: "simple_name n"
  then obtain pre where J: "Join [p, n] = pre @ n"
    and pre: "pre = [] \<or> (\<exists>q. pre = q @ ''/'')" and C: "Clean pre = Clean p"
    by (rule Join_simple_string)
  have ns: "\<forall>c \<in> set (rev n). c \<noteq> CHR ''/''" using n by (auto simp: simple_name_def)
  have "dropWhile (\<lambda>c. c \<noteq> CHR ''/'') (rev n @ rev pre) = dropWhile (\<lambda>c. c \<noteq> CHR ''/'') (rev pre)"
    using ns by (intro dropWhile_append2) blast
  also have "\<dots> = rev pre" using pre by auto
  finally have "dropWhile (\<lambda>c. c \<noteq> CHR ''/'') (rev (pre @ n)) = rev pre" by simp
  then show ?thesis using J C by (simp add: Dir_def del: rev_append)
qed

lemma path_key_Dir_Join: "simple_name n \<Longrightarrow> path_key (Join [Dir (Join [p, n]), n]) = path_key p @ [n]"
  by simp

lemma Join_inject: "simple_name n \<Longrightarrow> simple_name m \<Longrightarrow> Join [p, n] = Join [q, m] \<Longrightarrow> n = m"
  using Base_Join [of n p] Base_Join [of m q] by simp

end
