(* ===== verification/OS_Files.thy ===== *)
theory OS_Files
  imports Go_Filepath "HOL-Library.Multiset"
begin

text \<open>
  The part of the operating system that the sources call through Go's \<open>os\<close>, \<open>syscall\<close> and
  \<open>unix\<close> packages. The state is a file tree (association list from component lists to nodes),
  the mount table, and what the kernel reports in a given tree and mount table (\<open>statfs\<close>,
  \<open>ctime\<close>, the text of a file mode, the output of a command such as \<open>findmnt\<close>).
  \<open>os_fault\<close> is the environment's choice of the calls that fail during one handler, and with
  which \<open>errno\<close>: theorems quantify over it, so they cover every error path. Every operation
  keeps \<open>fs_wf\<close>, and the locale \<open>directory_store\<close> states what the drivers rely on.
\<close>

section \<open>State\<close>

type_synonym path = "string list"

datatype node = Directory | RegularFile string

datatype syscall = SysStat | SysMkdir | SysReadDir | SysUnlink

record Statfs_t =
  Bavail :: uint64
  Blocks :: uint64
  Bfree :: uint64
  Files :: uint64
  Ffree :: uint64
  Bsize :: int64

record MountPoint =
  mp_Device :: string
  mp_Path :: string
  mp_Type :: string
  mp_Opts :: "string list"

type_synonym fs = "(path \<times> node) list"

record os =
  os_fs :: fs
  os_fault :: "syscall \<Rightarrow> path \<Rightarrow> errno option"
  os_ctim :: "fs \<Rightarrow> path \<Rightarrow> int \<times> int"
  os_statfs :: "fs \<Rightarrow> path \<Rightarrow> errno + Statfs_t"
  os_mode :: "fs \<Rightarrow> path \<Rightarrow> string"
  os_LookPath :: "string \<Rightarrow> go_error + string"
  os_Command :: "MountPoint list \<Rightarrow> string \<Rightarrow> string list \<Rightarrow> go_error + string"
  os_mounts :: "MountPoint list"

definition fs_lookup :: "fs \<Rightarrow> path \<Rightarrow> node option" where
  "fs_lookup f p = (if p = [] then Some Directory else map_of f p)"

abbreviation lookup :: "os \<Rightarrow> path \<Rightarrow> node option" where
  "lookup w \<equiv> fs_lookup (os_fs w)"

definition fs_wf :: "fs \<Rightarrow> bool" where
  "fs_wf f \<longleftrightarrow> distinct (map fst f) \<and>
     (\<forall>p \<in> fst ` set f. p \<noteq> [] \<and> (\<forall>c \<in> set p. simple_name c) \<and>
        fs_lookup f (butlast p) = Some Directory)"

definition same_env :: "os \<Rightarrow> os \<Rightarrow> bool" where
  \<comment> \<open>only the file tree may differ\<close>
  "same_env w w' \<longleftrightarrow> os_fault w' = os_fault w \<and> os_ctim w' = os_ctim w \<and> os_statfs w' = os_statfs w \<and> os_mode w' = os_mode w \<and>
     os_LookPath w' = os_LookPath w \<and> os_Command w' = os_Command w \<and> os_mounts w' = os_mounts w"

definition os_ok :: "os \<Rightarrow> bool" where
  \<comment> \<open>a well-formed tree, in which no call pretends that an existing file is missing\<close>
  "os_ok w \<longleftrightarrow> fs_wf (os_fs w) \<and> (\<forall>c p. os_fault w c p \<noteq> Some ENOENT)"

definition blocked :: "fs \<Rightarrow> path \<Rightarrow> bool" where
  \<comment> \<open>a proper ancestor of the path is a regular file\<close>
  "blocked f p =
     list_ex (\<lambda>q. q \<noteq> p \<and> (case fs_lookup f q of Some (RegularFile _) \<Rightarrow> True | _ \<Rightarrow> False)) (prefixes p)"

section \<open>Operations\<close>

definition os_Stat :: "string \<Rightarrow> os \<Rightarrow> go_error + node" where
  "os_Stat s w =
     (let k = path_key s in
      if s = [] then Inl (PathError ''stat'' s ENOENT)
      else case os_fault w SysStat k of
        Some e \<Rightarrow> Inl (PathError ''stat'' s e)
      | None \<Rightarrow>
          if blocked (os_fs w) k then Inl (PathError ''stat'' s ENOTDIR)
          else (case lookup w k of
                  None \<Rightarrow> Inl (PathError ''stat'' s ENOENT)
                | Some n \<Rightarrow> Inr n))"

fun mkdirs ::
    "(path \<Rightarrow> errno option) \<Rightarrow> (path \<Rightarrow> errno option) \<Rightarrow> string list \<Rightarrow> fs \<Rightarrow> (path \<times> errno) option \<times> fs" where
  \<comment> \<open>the recursion of \<open>os.MkdirAll\<close> with the faults of \<open>stat\<close> and \<open>mkdir\<close>; the path is given last component
      first. When \<open>stat\<close> fails on what is there, \<open>mkdir\<close> says \<open>EEXIST\<close> and the second look fails as well\<close>
  "mkdirs stat mk [] f = (None, f)"
| "mkdirs stat mk (c # rk) f =
     (let q = rev (c # rk) in
      if stat q = None \<and> fs_lookup f q = Some Directory then (None, f)
      else if stat q = None \<and> fs_lookup f q \<noteq> None then (Some (q, ENOTDIR), f)
      else (case mkdirs stat mk rk f of
              (Some e, f') \<Rightarrow> (Some e, f')
            | (None, f') \<Rightarrow>
                if fs_lookup f' q \<noteq> None then (Some (q, EEXIST), f')
                else (case mk q of
                        Some e \<Rightarrow> (Some (q, e), f')
                      | None \<Rightarrow> (None, f' @ [(q, Directory)]))))"

definition os_MkdirAll :: "string \<Rightarrow> os \<Rightarrow> go_error option \<times> os" where
  "os_MkdirAll s w =
     (if s = [] then (Some (PathError ''mkdir'' s ENOENT), w)
      else let (r, f) = mkdirs (os_fault w SysStat) (os_fault w SysMkdir) (rev (path_key s)) (os_fs w)
           in (map_option (\<lambda>(q, e). PathError ''mkdir'' (path_string q) e) r, w\<lparr>os_fs := f\<rparr>))"

definition os_Mkdir :: "string \<Rightarrow> os \<Rightarrow> go_error option \<times> os" where
  "os_Mkdir s w =
     (let k = path_key s; fail = (\<lambda>e. (Some (PathError ''mkdir'' s e), w)) in
      if s = [] then fail ENOENT
      else if blocked (os_fs w) k then fail ENOTDIR
      else if lookup w k \<noteq> None then fail EEXIST
      else if lookup w (butlast k) = None then fail ENOENT
      else (case os_fault w SysMkdir k of
              Some e \<Rightarrow> fail e
            | None \<Rightarrow> (None, w\<lparr>os_fs := os_fs w @ [(k, Directory)]\<rparr>)))"

definition fs_children :: "fs \<Rightarrow> path \<Rightarrow> (string \<times> node) list" where
  "fs_children f k = map (\<lambda>(p, n). (last p, n)) (filter (\<lambda>(p, n). p \<noteq> [] \<and> butlast p = k) f)"

definition os_ReadDir :: "string \<Rightarrow> os \<Rightarrow> go_error + (string \<times> node) list" where
  \<comment> \<open>the entries of a directory, sorted by file name\<close>
  "os_ReadDir s w =
     (let k = path_key s in
      if s = [] then Inl (PathError ''open'' s ENOENT)
      else case os_fault w SysReadDir k of
        Some e \<Rightarrow> Inl (PathError ''open'' s e)
      | None \<Rightarrow>
          if blocked (os_fs w) k then Inl (PathError ''open'' s ENOTDIR)
          else (case lookup w k of
                  None \<Rightarrow> Inl (PathError ''open'' s ENOENT)
                | Some (RegularFile _) \<Rightarrow> Inl (PathError ''readdirent'' s ENOTDIR)
                | Some Directory \<Rightarrow> Inr (sort_key fst (fs_children (os_fs w) k))))"

definition refuses :: "(path \<Rightarrow> errno option) \<Rightarrow> path \<Rightarrow> bool" where
  \<comment> \<open>\<open>os.RemoveAll\<close> takes \<open>ENOENT\<close> from \<open>unlink\<close> for success\<close>
  "refuses fault p = (case fault p of None \<Rightarrow> False | Some e \<Rightarrow> e \<noteq> ENOENT)"

definition fs_stuck :: "(path \<Rightarrow> errno option) \<Rightarrow> fs \<Rightarrow> path \<Rightarrow> path list" where
  \<comment> \<open>the entries at or below \<open>k\<close> that the kernel refuses to unlink\<close>
  "fs_stuck fault f k = filter (\<lambda>p. prefix k p \<and> refuses fault p) (map fst f)"

definition fs_remove :: "(path \<Rightarrow> errno option) \<Rightarrow> fs \<Rightarrow> path \<Rightarrow> fs" where
  \<comment> \<open>everything at or below \<open>k\<close> goes, but what holds an entry that stays\<close>
  "fs_remove fault f k =
     filter (\<lambda>(p, n). \<not> prefix k p \<or> list_ex (prefix p) (fs_stuck fault f k)) f"

definition ends_with_dot :: "string \<Rightarrow> bool" where
  "ends_with_dot s \<longleftrightarrow> s = ''.'' \<or> suffix ''/.'' s"

definition os_RemoveAll :: "string \<Rightarrow> os \<Rightarrow> go_error option \<times> os" where
  "os_RemoveAll s w =
     (let k = path_key s; fault = os_fault w SysUnlink in
      if s = [] then (None, w)
      else if ends_with_dot s then (Some (PathError ''RemoveAll'' s EINVAL), w)
      else if blocked (os_fs w) k then (Some (PathError ''unlinkat'' s ENOTDIR), w)
      else ((case fs_stuck fault (os_fs w) k of
               q # _ \<Rightarrow> map_option (PathError ''unlinkat'' (path_string q)) (fault q)
             | [] \<Rightarrow> if k = [] then Some (PathError ''unlinkat'' s EBUSY) else None),
            w\<lparr>os_fs := fs_remove fault (os_fs w) k\<rparr>))"

definition unix_Statfs :: "string \<Rightarrow> os \<Rightarrow> errno + Statfs_t" where
  "unix_Statfs s w = (if s = [] then Inl ENOENT else os_statfs w (os_fs w) (path_key s))"

definition syscall_Stat_ctim :: "string \<Rightarrow> os \<Rightarrow> go_error + int \<times> int" where
  \<comment> \<open>\<open>syscall.Stat\<close>, of which the sources read the change time; its error is the bare \<open>errno\<close>\<close>
  "syscall_Stat_ctim s w =
     (case os_Stat s w of
        Inr n \<Rightarrow> Inr (os_ctim w (os_fs w) (path_key s))
      | Inl e \<Rightarrow> (case e of PathError _ _ en \<Rightarrow> Inl (ErrorString (strerror en)) | _ \<Rightarrow> Inl e))"

section \<open>The file tree\<close>

lemma fs_lookup_Nil [simp]: "fs_lookup f [] = Some Directory"
  by (simp add: fs_lookup_def)

lemma fs_wf_parent:
  assumes "fs_wf f" "fs_lookup f (p @ [c]) = Some n"
  shows "fs_lookup f p = Some Directory" and "simple_name c"
proof -
  have "p @ [c] \<in> fst ` set f"
    using assms(2) by (force simp: fs_lookup_def dest: map_of_SomeD)
  with assms(1) show "fs_lookup f p = Some Directory" and "simple_name c"
    by (fastforce simp: fs_wf_def)+
qed

lemma fs_wf_ancestor:
  assumes "fs_wf f" "fs_lookup f (p @ q) = Some n" "q \<noteq> []"
  shows "fs_lookup f p = Some Directory"
  using assms(2,3)
proof (induction q arbitrary: n rule: rev_induct)
  case (snoc c q)
  have "fs_lookup f (p @ q) = Some Directory"
    using fs_wf_parent(1) [OF assms(1), of "p @ q" c n] snoc.prems by simp
  then show ?case using snoc.IH by (cases "q = []") auto
qed simp

lemma fs_dir_above:
  assumes "fs_wf f" "fs_lookup f p = Some Directory" "prefix q p"
  shows "fs_lookup f q = Some Directory"
proof (cases "q = p")
  case False
  with assms(3) obtain zs where "p = q @ zs" "zs \<noteq> []" by (auto simp: prefix_def)
  with assms(1,2) show ?thesis using fs_wf_ancestor [of f q zs] by simp
qed (simp add: assms(2))

lemma fs_absent_below:
  assumes "fs_wf f" "fs_lookup f p = None" "prefix p q"
  shows "fs_lookup f q = None"
proof (rule ccontr)
  assume "fs_lookup f q \<noteq> None"
  then obtain n where n: "fs_lookup f q = Some n" by blast
  from assms(3) obtain zs where q: "q = p @ zs" by (auto simp: prefix_def)
  show False
    using fs_wf_ancestor [OF assms(1), of p zs n] n q assms(2) by (cases "zs = []") auto
qed

lemma fs_wf_simple:
  assumes "fs_wf f" "fs_lookup f p = Some n" "c \<in> set p"
  shows "simple_name c"
proof -
  have "p \<in> fst ` set f" using assms(2,3) by (force simp: fs_lookup_def split: if_splits dest: map_of_SomeD)
  with assms show ?thesis by (auto simp: fs_wf_def)
qed

lemma case_regular_file:
  "(case x of Some (RegularFile c) \<Rightarrow> True | _ \<Rightarrow> False) \<longleftrightarrow> (\<exists>c. x = Some (RegularFile c))"
  by (auto split: option.splits node.splits)

lemma blocked_iff:
  "blocked f p \<longleftrightarrow> (\<exists>q x. prefix q p \<and> q \<noteq> p \<and> fs_lookup f q = Some (RegularFile x))"
  by (auto simp: blocked_def list_ex_iff case_regular_file)

lemma not_blocked: "fs_wf f \<Longrightarrow> fs_lookup f p = Some n \<Longrightarrow> \<not> blocked f p"
proof
  assume wf: "fs_wf f" and p: "fs_lookup f p = Some n" and "blocked f p"
  then obtain q x where "prefix q p" "q \<noteq> p" "fs_lookup f q = Some (RegularFile x)"
    by (auto simp: blocked_iff)
  then show False using fs_wf_ancestor [OF wf, of q] p by (auto simp: prefix_def)
qed

lemma not_blocked_dir: "fs_wf f \<Longrightarrow> fs_lookup f p = Some Directory \<Longrightarrow> \<not> blocked f (p @ [c])"
proof -
  assume wf: "fs_wf f" and d: "fs_lookup f p = Some Directory"
  have "fs_lookup f q = Some Directory" if "prefix q p" for q
    using wf d that by (rule fs_dir_above)
  then show ?thesis by (auto simp: blocked_iff prefix_snoc)
qed

lemma fs_wf_append:
  assumes "fs_wf f" "fs_lookup f (d @ [c]) = None" "fs_lookup f d = Some Directory"
    "\<forall>x \<in> set d. simple_name x" "simple_name c"
  shows "fs_wf (f @ [(d @ [c], n)])"
proof -
  have new: "d @ [c] \<notin> fst ` set f"
    using assms(2) by (simp add: fs_lookup_def map_of_eq_None_iff)
  have keep: "fs_lookup (f @ [(d @ [c], n)]) q = Some m" if "fs_lookup f q = Some m" for q m
    using that by (auto simp: fs_lookup_def map_add_def split: if_splits option.splits)
  show ?thesis
    using assms new keep by (auto simp: fs_wf_def)
qed

lemma same_env_refl [simp]: "same_env w w"
  by (simp add: same_env_def)

lemma same_env_trans: "same_env u v \<Longrightarrow> same_env v w \<Longrightarrow> same_env u w"
  by (simp add: same_env_def)

lemma os_okD: "os_ok w \<Longrightarrow> fs_wf (os_fs w)"
  by (simp add: os_ok_def)

lemma os_ok_env: "os_ok w \<Longrightarrow> same_env w w' \<Longrightarrow> fs_wf (os_fs w') \<Longrightarrow> os_ok w'"
  by (simp add: os_ok_def same_env_def)

section \<open>Creating directories\<close>

lemma fs_lookup_append:
  "fs_lookup (f @ [(q, n)]) p =
     (case fs_lookup f p of Some m \<Rightarrow> Some m | None \<Rightarrow> if p = q then Some n else None)"
  by (auto simp: fs_lookup_def map_add_def split: option.splits)

lemma mkdirs_cases:
  assumes "mkdirs stat mk (c # rk) f = (r, f')"
  obtains (there) "stat (rev (c # rk)) = None" "fs_lookup f (rev (c # rk)) = Some Directory" "r = None" "f' = f"
  | (notdir) e where "r = Some e" "f' = f"
  | (above) e where "mkdirs stat mk rk f = (r, f')" "r = Some e"
  | (refused) e where "mkdirs stat mk rk f = (None, f')" "r = Some e"
  | (made) g where "mkdirs stat mk rk f = (None, g)" "r = None" "f' = g @ [(rev (c # rk), Directory)]"
      "fs_lookup g (rev (c # rk)) = None"
proof -
  let ?q = "rev (c # rk)"
  obtain e g where up: "mkdirs stat mk rk f = (e, g)" by fastforce
  note run = assms [unfolded mkdirs.simps Let_def up prod.case]
  consider "stat ?q = None" "fs_lookup f ?q = Some Directory" | "stat ?q = None" "fs_lookup f ?q \<noteq> None" "fs_lookup f ?q \<noteq> Some Directory"
    | "stat ?q \<noteq> None \<or> fs_lookup f ?q = None" by blast
  then show thesis
  proof cases
    case 1
    then show thesis using run by (intro there) simp_all
  next
    case 2
    then show thesis using run by (intro notdir [of "(?q, ENOTDIR)"]) simp_all
  next
    case 3
    then have run: "(case e of Some x \<Rightarrow> (Some x, g) | None \<Rightarrow> if fs_lookup g ?q \<noteq> None then (Some (?q, EEXIST), g)
        else (case mk ?q of Some x \<Rightarrow> (Some (?q, x), g) | None \<Rightarrow> (None, g @ [(?q, Directory)]))) = (r, f')"
      using run by (simp only: simp_thms option.simps if_False split: if_splits)
    show thesis
    proof (cases e)
      case (Some x)
      then show thesis using run up by (intro above [of x]) simp_all
    next
      case None
      then show thesis using run up refused made by (cases "fs_lookup g ?q"; cases "mk ?q") (simp_all, blast+)
    qed
  qed
qed

lemma mkdirs_keeps: "mkdirs stat mk rk f = (r, f') \<Longrightarrow> fs_lookup f q = Some n \<Longrightarrow> fs_lookup f' q = Some n"
proof (induction rk arbitrary: r f')
  case (Cons c rk)
  from Cons.prems(1) show ?case
    by (cases rule: mkdirs_cases) (use Cons in \<open>auto simp: fs_lookup_append split: option.splits\<close>)
qed simp

lemma mkdirs_new:
  "mkdirs stat mk rk f = (r, f') \<Longrightarrow> fs_lookup f q = None \<Longrightarrow> fs_lookup f' q = Some n \<Longrightarrow>
     n = Directory \<and> prefix q (rev rk)"
proof (induction rk arbitrary: r f')
  case (Cons c rk)
  from Cons.prems(1) show ?case
  proof (cases rule: mkdirs_cases)
    case (made g)
    show ?thesis
    proof (cases "fs_lookup g q")
      case None
      then show ?thesis using Cons.prems(3) made(3) by (auto simp: fs_lookup_append split: if_splits)
    next
      case (Some m)
      then show ?thesis using Cons.IH [OF made(1) Cons.prems(2)] Cons.prems(3) made(3) by (auto simp: fs_lookup_append)
    qed
  qed (use Cons in auto)
qed simp

lemma mkdirs_ok: "mkdirs stat mk rk f = (None, f') \<Longrightarrow> fs_lookup f' (rev rk) = Some Directory"
proof (cases rk)
  case (Cons c ck)
  assume "mkdirs stat mk rk f = (None, f')"
  then show ?thesis unfolding Cons
    by (cases rule: mkdirs_cases) (auto simp: fs_lookup_append split: option.splits)
qed (simp add: fs_lookup_def)

lemma mkdirs_wf: "mkdirs stat mk rk f = (r, f') \<Longrightarrow> fs_wf f \<Longrightarrow> \<forall>x \<in> set rk. simple_name x \<Longrightarrow> fs_wf f'"
proof (induction rk arbitrary: r f')
  case (Cons c rk)
  from Cons.prems(1) show ?case
  proof (cases rule: mkdirs_cases)
    case (made g)
    then show ?thesis using Cons mkdirs_ok [OF made(1)] by (auto simp: fs_wf_append)
  qed (use Cons in auto)
qed simp

lemma mkdirs_existing:
  "fs_wf f \<Longrightarrow> fs_lookup f (rev rk) = Some Directory \<Longrightarrow>
     snd (mkdirs stat mk rk f) = f \<and> (stat (rev rk) = None \<longrightarrow> fst (mkdirs stat mk rk f) = None)"
proof (induction rk)
  case (Cons c rk)
  have up: "fs_lookup f (rev rk) = Some Directory"
    using Cons.prems fs_wf_ancestor [of f "rev rk" "[c]"] by (cases "rk = []") (auto simp: fs_lookup_def)
  have "mkdirs stat mk rk f = (fst (mkdirs stat mk rk f), f)" using Cons.IH [OF Cons.prems(1) up] by (metis prod.collapse)
  then show ?case using Cons.prems(2) by (auto simp: Let_def split: prod.splits option.splits)
qed simp

section \<open>Removing a tree\<close>

lemma map_of_filter_key: "map_of (filter (\<lambda>(p, n). P p) f) q = (if P q then map_of f q else None)"
  by (induction f) auto

lemma fs_lookup_remove:
  "fs_lookup (fs_remove fault f k) q =
     (if q \<noteq> [] \<and> prefix k q \<and> \<not> list_ex (prefix q) (fs_stuck fault f k) then None else fs_lookup f q)"
  unfolding fs_lookup_def fs_remove_def map_of_filter_key by simp

lemma fs_remove_wf:
  assumes "fs_wf f"
  shows "fs_wf (fs_remove fault f k)"
proof -
  let ?keep = "\<lambda>p. \<not> prefix k p \<or> list_ex (prefix p) (fs_stuck fault f k)"
  have up: "?keep (butlast p)" if "?keep p" for p
    using that prefixeq_butlast [of p] by (auto simp: list_ex_iff intro: prefix_order.trans)
  have "distinct (map fst (fs_remove fault f k))"
    using assms by (auto simp: fs_wf_def fs_remove_def distinct_map intro: inj_on_subset)
  moreover have "p \<noteq> [] \<and> (\<forall>c \<in> set p. simple_name c) \<and>
      fs_lookup (fs_remove fault f k) (butlast p) = Some Directory"
    if "p \<in> fst ` set (fs_remove fault f k)" for p
  proof -
    from that have "p \<in> fst ` set f" and "?keep p" by (auto simp: fs_remove_def)
    moreover then have "?keep (butlast p)" by (intro up)
    ultimately show ?thesis using assms by (auto simp: fs_wf_def fs_lookup_remove)
  qed
  ultimately show ?thesis by (auto simp: fs_wf_def)
qed

section \<open>Listing a directory\<close>

lemma fs_children_iff:
  assumes "fs_wf f"
  shows "(n, nd) \<in> set (fs_children f k) \<longleftrightarrow> fs_lookup f (k @ [n]) = Some nd"
proof -
  have "(n, nd) \<in> set (fs_children f k) \<longleftrightarrow>
      (\<exists>p. (p, nd) \<in> set f \<and> p \<noteq> [] \<and> butlast p = k \<and> last p = n)"
    by (auto simp: fs_children_def)
  also have "\<dots> \<longleftrightarrow> (k @ [n], nd) \<in> set f"
    unfolding snoc_eq_iff_butlast [symmetric] by auto
  also have "\<dots> \<longleftrightarrow> map_of f (k @ [n]) = Some nd"
    using assms by (simp add: fs_wf_def)
  finally show ?thesis by (simp add: fs_lookup_def)
qed

lemma fs_children_distinct: "fs_wf f \<Longrightarrow> distinct (map fst (fs_children f k))"
proof -
  assume "fs_wf f"
  then have d: "distinct (map fst f)" by (simp add: fs_wf_def)
  let ?g = "filter (\<lambda>(p, n). p \<noteq> [] \<and> butlast p = k) f"
  have "distinct ?g" using d by (simp add: distinct_map)
  moreover have "inj_on (\<lambda>e. last (fst e)) (set ?g)"
  proof (rule inj_onI)
    fix x y
    assume x: "x \<in> set ?g" and y: "y \<in> set ?g" and l: "last (fst x) = last (fst y)"
    have "fst x \<noteq> []" "butlast (fst x) = k" "fst y \<noteq> []" "butlast (fst y) = k"
      using x y by auto
    then have kx: "k @ [last (fst x)] = fst x" and ky: "k @ [last (fst y)] = fst y"
      by (simp_all only: snoc_eq_iff_butlast simp_thms)
    have "fst x = k @ [last (fst x)]" by (rule kx [symmetric])
    also have "\<dots> = k @ [last (fst y)]" by (simp only: l)
    also note ky
    finally have "fst x = fst y" .
    moreover have "x \<in> set f" "y \<in> set f" using x y by auto
    moreover have "inj_on fst (set f)" using d by (simp add: distinct_map)
    ultimately show "x = y" by (simp add: inj_onD)
  qed
  ultimately have "distinct (map (\<lambda>e. last (fst e)) ?g)" by (simp add: distinct_map)
  then show ?thesis by (simp add: fs_children_def split_def comp_def)
qed

lemma os_ReadDir_entries:
  assumes "fs_wf (os_fs w)" "os_ReadDir s w = Inr es"
  shows "(n, nd) \<in> set es \<longleftrightarrow> lookup w (path_key s @ [n]) = Some nd"
    and "distinct (map fst es)" and "sorted (map fst es)"
proof -
  from assms(2) have es: "es = sort_key fst (fs_children (os_fs w) (path_key s))"
    by (auto simp: os_ReadDir_def Let_def split: if_splits option.splits node.splits)
  show "(n, nd) \<in> set es \<longleftrightarrow> lookup w (path_key s @ [n]) = Some nd"
    using es assms(1) by (simp add: fs_children_iff)
  have "mset (map fst es) = mset (map fst (fs_children (os_fs w) (path_key s)))"
    using es by simp
  then show "distinct (map fst es)"
    using fs_children_distinct [OF assms(1)] mset_eq_imp_distinct_iff by blast
  show "sorted (map fst es)" using es by simp
qed

section \<open>The operations on the state\<close>

lemma os_MkdirAll_keeps:
  "os_MkdirAll s w = (r, w') \<Longrightarrow> lookup w q = Some n \<Longrightarrow> lookup w' q = Some n"
  by (auto simp: os_MkdirAll_def split: if_splits prod.splits intro: mkdirs_keeps)

lemma os_MkdirAll_new:
  "os_MkdirAll s w = (r, w') \<Longrightarrow> lookup w q = None \<Longrightarrow> lookup w' q = Some n \<Longrightarrow>
     n = Directory \<and> prefix q (path_key s)"
  by (auto simp: os_MkdirAll_def split: if_splits prod.splits dest: mkdirs_new)

lemma os_MkdirAll_ok: "os_MkdirAll s w = (None, w') \<Longrightarrow> lookup w' (path_key s) = Some Directory"
  using mkdirs_ok [of _ _ "rev (path_key s)"]
  by (auto simp: os_MkdirAll_def split: if_splits prod.splits)

lemma os_MkdirAll_wf: "os_MkdirAll s w = (r, w') \<Longrightarrow> fs_wf (os_fs w) \<Longrightarrow> fs_wf (os_fs w')"
  using path_key_elems [of _ s]
  by (auto simp: os_MkdirAll_def split: if_splits prod.splits intro: mkdirs_wf)

lemma os_MkdirAll_env:
  "os_MkdirAll s w = (r, w') \<Longrightarrow>
     same_env w w'"
  by (auto simp: same_env_def os_MkdirAll_def split: if_splits prod.splits)

lemma os_MkdirAll_existing:
  assumes "s \<noteq> []" "fs_wf (os_fs w)" "lookup w (path_key s) = Some Directory"
  shows "snd (os_MkdirAll s w) = w" "os_fault w SysStat (path_key s) = None \<Longrightarrow> fst (os_MkdirAll s w) = None"
  using mkdirs_existing [of "os_fs w" "rev (path_key s)" "os_fault w SysStat" "os_fault w SysMkdir"] assms
  by (auto simp: os_MkdirAll_def split: prod.splits)

lemma os_RemoveAll_wf: "os_RemoveAll s w = (r, w') \<Longrightarrow> fs_wf (os_fs w) \<Longrightarrow> fs_wf (os_fs w')"
  by (auto simp: os_RemoveAll_def Let_def fs_remove_wf split: if_splits list.splits)

lemma os_RemoveAll_env:
  "os_RemoveAll s w = (r, w') \<Longrightarrow>
     same_env w w'"
  by (auto simp: same_env_def os_RemoveAll_def Let_def split: if_splits list.splits)

lemma os_RemoveAll_outside:
  "os_RemoveAll s w = (r, w') \<Longrightarrow> \<not> prefix (path_key s) q \<Longrightarrow> lookup w' q = lookup w q"
  by (auto simp: os_RemoveAll_def Let_def fs_lookup_remove split: if_splits)

lemma os_RemoveAll_shrinks:
  "os_RemoveAll s w = (r, w') \<Longrightarrow> lookup w' q = Some n \<Longrightarrow> lookup w q = Some n"
  by (auto simp: os_RemoveAll_def Let_def fs_lookup_remove split: if_splits)

lemma fs_stuck_hd: "fs_stuck fault f k = q # qs \<Longrightarrow> \<exists>e. fault q = Some e \<and> e \<noteq> ENOENT"
proof -
  assume "fs_stuck fault f k = q # qs"
  then have "q \<in> set (fs_stuck fault f k)" by simp
  then show ?thesis by (auto simp: fs_stuck_def refuses_def split: option.splits)
qed

lemma os_RemoveAll_not_ENOENT: "os_RemoveAll s w = (Some e, w') \<Longrightarrow> \<not> IsNotExist e"
  using fs_stuck_hd [of "os_fault w SysUnlink" "os_fs w" "path_key s"]
  by (auto simp: os_RemoveAll_def Let_def split: if_splits list.splits)

lemma os_RemoveAll_ok:
  assumes "os_RemoveAll s w = (None, w')" "s \<noteq> []" "prefix (path_key s) q"
  shows "lookup w' q = None"
  using assms fs_stuck_hd [of "os_fault w SysUnlink" "os_fs w" "path_key s"]
  by (auto simp: os_RemoveAll_def Let_def fs_lookup_remove split: if_splits list.splits)

lemma os_RemoveAll_missing:
  assumes "fs_wf (os_fs w)" "lookup w (path_key s) = None" "s \<noteq> []" "\<not> ends_with_dot s"
    "\<not> blocked (os_fs w) (path_key s)"
  shows "\<exists>w'. os_RemoveAll s w = (None, w') \<and> lookup w' = lookup w"
proof -
  have absent: "lookup w q = None" if "prefix (path_key s) q" for q
    using assms(1,2) that by (rule fs_absent_below)
  have "p \<notin> fst ` set (os_fs w)" if "prefix (path_key s) p" for p
    using absent [OF that] assms(2) by (auto simp: fs_lookup_def map_of_eq_None_iff split: if_splits)
  then have "fs_stuck (os_fault w SysUnlink) (os_fs w) (path_key s) = []"
    by (auto simp: fs_stuck_def filter_empty_conv)
  moreover have "path_key s \<noteq> []" using assms(2) by auto
  ultimately show ?thesis
    using assms(3-) absent by (auto simp: os_RemoveAll_def Let_def fs_lookup_remove fun_eq_iff)
qed

section \<open>The contract the drivers rely on\<close>

text \<open>
  Directories that are created and removed by path. \<open>mkdir\<close> never changes or removes what
  exists, and succeeds only with the directory there; \<open>remove\<close> touches nothing outside the
  tree it is given, and succeeds only when that tree is gone.
\<close>

locale directory_store =
  fixes look :: "'w \<Rightarrow> path \<Rightarrow> node option"
    and mkdir :: "string \<Rightarrow> 'w \<Rightarrow> go_error option \<times> 'w"
    and remove :: "string \<Rightarrow> 'w \<Rightarrow> go_error option \<times> 'w"
    and inv :: "'w \<Rightarrow> bool"
  assumes mkdir_inv: "mkdir s w = (r, w') \<Longrightarrow> inv w \<Longrightarrow> inv w'"
    and mkdir_keeps: "mkdir s w = (r, w') \<Longrightarrow> look w q = Some n \<Longrightarrow> look w' q = Some n"
    and mkdir_new: "mkdir s w = (r, w') \<Longrightarrow> look w q = None \<Longrightarrow> look w' q = Some n \<Longrightarrow>
        n = Directory \<and> prefix q (path_key s)"
    and mkdir_ok: "mkdir s w = (None, w') \<Longrightarrow> look w' (path_key s) = Some Directory"
    and mkdir_existing: "s \<noteq> [] \<Longrightarrow> inv w \<Longrightarrow> look w (path_key s) = Some Directory \<Longrightarrow> snd (mkdir s w) = w"
    and remove_inv: "remove s w = (r, w') \<Longrightarrow> inv w \<Longrightarrow> inv w'"
    and remove_outside: "remove s w = (r, w') \<Longrightarrow> \<not> prefix (path_key s) q \<Longrightarrow> look w' q = look w q"
    and remove_shrinks: "remove s w = (r, w') \<Longrightarrow> look w' q = Some n \<Longrightarrow> look w q = Some n"
    and remove_ok: "remove s w = (None, w') \<Longrightarrow> s \<noteq> [] \<Longrightarrow> prefix (path_key s) q \<Longrightarrow> look w' q = None"
    and mkdir_empty: "mkdir [] w = (None, w') \<Longrightarrow> False"
begin

lemma mkdir_twice: "inv w \<Longrightarrow> mkdir s w = (None, w') \<Longrightarrow> snd (mkdir s w') = w'"
proof -
  assume w: "inv w" and m: "mkdir s w = (None, w')"
  then have "s \<noteq> []" using mkdir_empty by blast
  then show ?thesis using mkdir_inv [OF m w] mkdir_ok [OF m] by (rule mkdir_existing)
qed

lemma mkdir_remove_restores:
  assumes "mkdir s w = (None, w1)" "remove s' w1 = (None, w2)" "path_key s' = path_key s" "s' \<noteq> []"
    and "\<And>q. strict_prefix q (path_key s) \<Longrightarrow> look w q = Some Directory"
    and "\<And>q. prefix (path_key s) q \<Longrightarrow> look w q = None"
  shows "look w2 = look w"
proof
  fix q
  show "look w2 q = look w q"
  proof (cases "prefix (path_key s) q")
    case True
    then show ?thesis using remove_ok [OF assms(2,4)] assms(3,6) by simp
  next
    case False
    then have 21: "look w2 q = look w1 q" using remove_outside [OF assms(2)] assms(3) by simp
    show ?thesis
    proof (cases "look w q")
      case (Some n)
      then show ?thesis using mkdir_keeps [OF assms(1)] 21 by simp
    next
      case None
      have "look w1 q = None"
      proof (rule ccontr)
        assume "look w1 q \<noteq> None"
        then obtain n where "look w1 q = Some n" by blast
        then have "prefix q (path_key s)" using mkdir_new [OF assms(1) None] by blast
        with None assms(5) False show False by (auto simp: strict_prefix_def)
      qed
      with 21 None show ?thesis by simp
    qed
  qed
qed

end

interpretation os_dirs: directory_store lookup os_MkdirAll os_RemoveAll "\<lambda>w. fs_wf (os_fs w)"
proof (unfold_locales, goal_cases)
  case 1 then show ?case by (rule os_MkdirAll_wf)
next
  case 2 then show ?case by (rule os_MkdirAll_keeps)
next
  case 3 then show ?case by (rule os_MkdirAll_new)
next
  case 4 then show ?case by (rule os_MkdirAll_ok)
next
  case 5 then show ?case by (rule os_MkdirAll_existing(1))
next
  case 6 then show ?case by (rule os_RemoveAll_wf)
next
  case 7 then show ?case by (rule os_RemoveAll_outside)
next
  case 8 then show ?case by (rule os_RemoveAll_shrinks)
next
  case 9 then show ?case by (rule os_RemoveAll_ok)
next
  case 10 then show ?case by (simp add: os_MkdirAll_def)
qed

end
