(* ===== verification/Hostpath_Utils.thy ===== *)
theory Hostpath_Utils
  imports OS_Files
begin

text \<open>
  \<open>pkg/hostpath/utils.go\<close> and the unit constants of \<open>pkg/hostpath/hostpath.go\<close>: storage pools,
  volume directories, capacity rounding, the TLS settings of the metrics server, and the metric
  that says whether a pool shares its file system with the operating system.

  \<open>json.Unmarshal\<close> on the output of \<open>findmnt\<close> is the parameter \<open>decode\<close> (the decoded
  \<open>filesystems\<close> field, or the decoding error).
\<close>

section \<open>Data\<close>

definition kib :: int64 where "kib = 1024"
definition mib :: int64 where "mib = kib * 1024"
definition gib :: int64 where "gib = mib * 1024"

definition storagePoolName :: string where "storagePoolName = ''storagePool''"
definition legacyStoragePoolName :: string where "legacyStoragePoolName = ''legacy''"
definition ReflinkProvider :: string where "ReflinkProvider = ''reflink''"
definition csiSocketDir :: string where "csiSocketDir = ''/csi''"

record StoragePoolInfo =
  Name :: string
  Path :: string
  SnapshotPath :: "string option"
  SnapshotProvider :: "string option"
  Shared :: bool

type_synonym pools = "(string, StoragePoolInfo) gomap"

definition zero_StoragePoolInfo :: StoragePoolInfo where
  \<comment> \<open>Go's zero value, which a lookup of an unknown pool gives\<close>
  "zero_StoragePoolInfo =
     \<lparr>Name = [], Path = [], SnapshotPath = None, SnapshotProvider = None, Shared = False\<rparr>"

definition pool_info :: "pools \<Rightarrow> string \<Rightarrow> StoragePoolInfo" where
  "pool_info = gomap_get zero_StoragePoolInfo"

record MountPointInfo =
  mi_Target :: string
  mi_Source :: string
  mi_FsType :: string
  mi_Options :: string

type_synonym decoder = "string \<Rightarrow> go_error + MountPointInfo list"

section \<open>Capacity\<close>

definition int64_quot :: "int64 \<Rightarrow> int64 \<Rightarrow> int64" where
  \<comment> \<open>Go's \<open>/\<close> on \<open>int64\<close>: truncation towards zero\<close>
  "int64_quot a b = word_of_int (sint a sdiv sint b)"

fun round_to_units :: "int64 \<Rightarrow> int64 list \<Rightarrow> int64" where
  "round_to_units capacityBytes [] = capacityBytes"
| "round_to_units capacityBytes (easyToReadUnitBytes # us) =
     (let size = int64_quot capacityBytes easyToReadUnitBytes
      in if sint size \<ge> 10 then size * easyToReadUnitBytes else round_to_units capacityBytes us)"

definition roundDownCapacityPretty :: "int64 \<Rightarrow> int64" where
  "roundDownCapacityPretty capacityBytes = round_to_units capacityBytes [gib, mib]"

section \<open>Volume directories\<close>

definition createVolumeDirectoryFunc :: "string \<Rightarrow> string \<Rightarrow> os \<Rightarrow> go_error option \<times> os" where
  "createVolumeDirectoryFunc base volID w = os_MkdirAll (Join [base, volID]) w"

definition CreateVolumeDirectory :: "string \<Rightarrow> string \<Rightarrow> os \<Rightarrow> go_error option \<times> os" where
  "CreateVolumeDirectory = createVolumeDirectoryFunc"

definition CreateSnapshotDirectory :: "string \<Rightarrow> string \<Rightarrow> os \<Rightarrow> go_error option \<times> os" where
  "CreateSnapshotDirectory base snapID w = CreateVolumeDirectory base snapID w"

definition DeleteVolume :: "string \<Rightarrow> string \<Rightarrow> os \<Rightarrow> go_error option \<times> os" where
  "DeleteVolume base volID w =
     (case os_RemoveAll (Join [base, volID]) w of
        (Some err, w') \<Rightarrow> (if \<not> IsNotExist err then Some err else None, w')
      | (None, w') \<Rightarrow> (None, w'))"

fun index_of :: "('a \<Rightarrow> bool) \<Rightarrow> 'a list \<Rightarrow> int \<Rightarrow> int" where
  "index_of P [] i = - 1"
| "index_of P (x # xs) i = (if P x then i else index_of P xs (i + 1))"

definition IndexOfStartingToken :: "string \<Rightarrow> string list \<Rightarrow> int" where
  "IndexOfStartingToken value list = index_of (\<lambda>match. Base match = value) list 0"

definition checkPathExistFunc :: "string \<Rightarrow> os \<Rightarrow> go_error + bool" where
  "checkPathExistFunc path w =
     (case os_Stat path w of
        Inr _ \<Rightarrow> Inr True
      | Inl err \<Rightarrow> if IsNotExist err then Inr False else Inl err)"

definition checkPathExist :: "string \<Rightarrow> os \<Rightarrow> go_error + bool" where
  "checkPathExist = checkPathExistFunc"

definition getStoragePoolNameFromMap :: "(string, string) gomap \<Rightarrow> string" where
  "getStoragePoolNameFromMap params =
     (case map_of params storagePoolName of Some v \<Rightarrow> v | None \<Rightarrow> legacyStoragePoolName)"

fun pool_directories :: "pools \<Rightarrow> string list \<Rightarrow> os \<Rightarrow> go_error + string list" where
  "pool_directories [] directories w = Inr directories"
| "pool_directories ((k, info) # ps) directories w =
     (case os_ReadDir (Path info) w of
        Inl e \<Rightarrow> Inl e
      | Inr files \<Rightarrow>
          pool_directories ps
            (directories @ map (\<lambda>file. Join [Path info, fst file]) (filter (\<lambda>file. snd file = Directory) files))
            w)"

definition getStoragePoolDataDirectories :: "pools \<Rightarrow> os \<Rightarrow> go_error + string list" where
  "getStoragePoolDataDirectories storagePoolInfo w =
     (case pool_directories storagePoolInfo [] w of
        Inr directories \<Rightarrow> Inr (sort directories)
      | Inl e \<Rightarrow> Inl e)"

definition checkPathIsEmptyFunc :: "string \<Rightarrow> os \<Rightarrow> go_error + bool" where
  \<comment> \<open>\<open>Readdirnames(1)\<close> gives \<open>io.EOF\<close> exactly on a directory without entries\<close>
  "checkPathIsEmptyFunc path w =
     (case os_ReadDir path w of
        Inr es \<Rightarrow> Inr (es = [])
      | Inl e \<Rightarrow> Inl e)"

definition getFileCreationTimeFunc :: "string \<Rightarrow> os \<Rightarrow> go_error + int \<times> int" where
  \<comment> \<open>\<open>time.Unix(stat.Ctim.Sec, 0)\<close>: seconds and nanoseconds\<close>
  "getFileCreationTimeFunc file w =
     (case syscall_Stat_ctim file w of
        Inr ctim \<Rightarrow> Inr (fst ctim, 0)
      | Inl e \<Rightarrow> Inl e)"

section \<open>Metrics server\<close>

type_synonym tls_version = "16 word"

definition VersionTLS10 :: tls_version where "VersionTLS10 = 0x0301"
definition VersionTLS11 :: tls_version where "VersionTLS11 = 0x0302"
definition VersionTLS12 :: tls_version where "VersionTLS12 = 0x0303"
definition VersionTLS13 :: tls_version where "VersionTLS13 = 0x0304"

definition getTLSVersion :: "string \<Rightarrow> tls_version option" where
  "getTLSVersion versionName =
     map_of [(''VersionTLS10'', VersionTLS10), (''VersionTLS11'', VersionTLS11),
             (''VersionTLS12'', VersionTLS12), (''VersionTLS13'', VersionTLS13)] versionName"

text \<open>What the metrics server is started with: its certificates come from the configuration or
  are the generated ones, and the files given to \<open>ListenAndServeTLS\<close>.\<close>

record 'cert metrics_server =
  ms_Addr :: string
  ms_MinVersion :: tls_version
  ms_Certificates :: "'cert list"
  ms_certFile :: string
  ms_keyFile :: string

definition RunPrometheusServer ::
    "(go_error + 'cert) \<Rightarrow> string \<Rightarrow> string \<Rightarrow> string \<Rightarrow> string \<Rightarrow> 'cert metrics_server option" where
  \<comment> \<open>the first argument is the result of \<open>generateSelfSignedCert()\<close>; \<open>None\<close>: no server is started\<close>
  "RunPrometheusServer generated metricsAddr certFile keyFile tlsVersion =
     (let certProvided = (certFile \<noteq> []);
          keyProvided = (keyFile \<noteq> []);
          minTLSVersion = (case getTLSVersion tlsVersion of None \<Rightarrow> VersionTLS13 | Some v \<Rightarrow> v)
      in if certProvided \<and> keyProvided
         then Some \<lparr>ms_Addr = metricsAddr, ms_MinVersion = minTLSVersion, ms_Certificates = [],
                    ms_certFile = certFile, ms_keyFile = keyFile\<rparr>
         else (case generated of
                 Inl e \<Rightarrow> None
               | Inr cert \<Rightarrow>
                   Some \<lparr>ms_Addr = metricsAddr, ms_MinVersion = minTLSVersion,
                         ms_Certificates = [cert], ms_certFile = [], ms_keyFile = []\<rparr>))"

section \<open>Mount points and the shared-path metric\<close>

definition parseMountInfo :: "decoder \<Rightarrow> string \<Rightarrow> go_error + MountPointInfo list" where
  \<comment> \<open>\<open>pkg/hostpath/healthcheck.go\<close>\<close>
  "parseMountInfo decode originalMountInfo =
     (case decode originalMountInfo of
        Inl e \<Rightarrow> Inl e
      | Inr fss \<Rightarrow> if fss = [] then Inl (ErrorString ''failed to get mount info'') else Inr fss)"

definition getMountInfos :: "decoder \<Rightarrow> string list \<Rightarrow> os \<Rightarrow> go_error + MountPointInfo list" where
  "getMountInfos decode args w =
     (case os_LookPath w ''findmnt'' of
        Inl err \<Rightarrow> Inl (WrapError ''findmnt not found: '' err)
      | Inr cmdPath \<Rightarrow>
          (case os_Command w (os_mounts w) cmdPath (args @ [''--json'']) of
             Inl err \<Rightarrow> Inl err
           | Inr out \<Rightarrow>
               if length out < 1 then Inl (ErrorString ''mount point info is nil'')
               else (case parseMountInfo decode out of
                       Inl err \<Rightarrow> Inl (ErrorString (''failed to parse the mount infos: '' @ error_msg err))
                     | Inr mountInfos \<Rightarrow> Inr mountInfos)))"

definition extractDeviceFromMountInfoSource :: "string \<Rightarrow> string" where
  "extractDeviceFromMountInfoSource source =
     (if CHR ''['' \<in> set source then hd (split_on CHR ''['' source) else source)"

definition checkVolumePathSharedWithOS :: "decoder \<Rightarrow> string \<Rightarrow> os \<Rightarrow> bool" where
  "checkVolumePathSharedWithOS decode volumePath w =
     (case getMountInfos decode [''-T'', volumePath] w of
        Inl _ \<Rightarrow> False
      | Inr mountInfosForPath \<Rightarrow>
          (case getMountInfos decode [''-T'', csiSocketDir] w of
             Inl _ \<Rightarrow> False
           | Inr mountInfosForCsiSocketDir \<Rightarrow>
               if length mountInfosForPath \<noteq> 1 \<or> length mountInfosForCsiSocketDir \<noteq> 1 then False
               else extractDeviceFromMountInfoSource (mi_Source (mountInfosForPath ! 0)) =
                    extractDeviceFromMountInfoSource (mi_Source (mountInfosForCsiSocketDir ! 0))))"

fun shared_path_loop :: "decoder \<Rightarrow> pools \<Rightarrow> bool \<Rightarrow> os \<Rightarrow> bool" where
  "shared_path_loop decode [] pathShared w = pathShared"
| "shared_path_loop decode ((k, v) # ps) pathShared w =
     (let p1 = (if checkVolumePathSharedWithOS decode (Path v) w then True else pathShared);
          p2 = (case SnapshotPath v of
                  None \<Rightarrow> p1
                | Some sp \<Rightarrow> if checkVolumePathSharedWithOS decode sp w then True else p1)
      in shared_path_loop decode ps p2 w)"

definition evaluateSharedPathMetric :: "decoder \<Rightarrow> pools \<Rightarrow> os \<Rightarrow> int" where
  \<comment> \<open>the value given to \<open>metrics.SetPoolPathSharedWithOs\<close>\<close>
  "evaluateSharedPathMetric decode storagePoolDataDir w =
     (if shared_path_loop decode storagePoolDataDir False w then 1 else 0)"

section \<open>Facts about capacity rounding\<close>

lemma sint_units: "sint mib = 2 ^ 20" "sint gib = 2 ^ 30"
  by (simp_all add: gib_def mib_def kib_def)

lemma sdiv_pos:
  fixes x y :: int
  assumes "y > 0"
  shows "x sdiv y = (if x \<ge> 0 then x div y else - ((- x) div y))"
  using assms by (simp add: signed_divide_int_def sgn_if)

lemma sdiv_ge_iff:
  fixes x y :: int
  assumes "y > 0"
  shows "(10 \<le> x sdiv y) = (10 * y \<le> x)"
proof
  assume le: "10 \<le> x sdiv y"
  have "x \<ge> 0"
    using le assms pos_imp_zdiv_nonneg_iff [of y "- x"] by (simp add: sdiv_pos split: if_splits)
  then have "10 * y \<le> (x div y) * y"
    using le assms by (simp add: sdiv_pos)
  moreover have "(x div y) * y \<le> x"
    using assms by (simp add: minus_mod_eq_div_mult [symmetric])
  ultimately show "10 * y \<le> x" by simp
next
  assume le: "10 * y \<le> x"
  then show "10 \<le> x sdiv y"
    using assms zdiv_mono1 [OF le assms] by (simp add: sdiv_pos)
qed

lemma sint_int64_quot:
  assumes "sint b > 0"
  shows "sint (int64_quot a b) = sint a sdiv sint b"
proof -
  have "sint a sdiv sint b \<in> {- \<bar>sint a\<bar>..\<bar>sint a\<bar>}" by (rule sdiv_int_range)
  moreover have "sint a sdiv sint b \<noteq> 2 ^ 63"
  proof (cases "sint a \<ge> 0")
    case True
    then have "sint a sdiv sint b \<le> sint a" using calculation by simp
    then show ?thesis using sint_int64_bounds [of a] by simp
  next
    case False
    then have "0 \<le> (- sint a) div sint b" using assms by (simp add: pos_imp_zdiv_nonneg_iff)
    then show ?thesis using False assms by (simp add: sdiv_pos)
  qed
  ultimately have "- (2 ^ 63) \<le> sint a sdiv sint b" and "sint a sdiv sint b < 2 ^ 63"
    using sint_int64_bounds [of a] by auto
  then show ?thesis by (simp add: int64_quot_def sint_int64)
qed

lemma round_unit:
  assumes "sint u > 0" "sint a sdiv sint u \<ge> 10"
  shows "sint (int64_quot a u * u) = sint a - sint a mod sint u"
proof -
  have pos: "sint a \<ge> 0" using assms by (auto simp: sdiv_pos split: if_splits) (smt (verit) div_int_pos_iff)
  then have eq: "sint a sdiv sint u * sint u = sint a - sint a mod sint u"
    using assms by (simp add: sdiv_pos minus_mod_eq_div_mult)
  have range: "0 \<le> sint a - sint a mod sint u" "sint a - sint a mod sint u < 2 ^ 63"
    using pos assms(1) sint_int64_bounds(2) [of a]
    by (simp_all add: zmod_le_nonneg_dividend) (smt (verit) pos_mod_sign)
  have "int64_quot a u * u = word_of_int (sint (int64_quot a u) * sint u)"
    by (simp add: wi_hom_mult [symmetric])
  also have "\<dots> = int64_of_int (sint a - sint a mod sint u)"
    using assms(1) by (simp only: sint_int64_quot eq int64_of_int_def)
  finally have "int64_quot a u * u = int64_of_int (sint a - sint a mod sint u)" .
  moreover have "sint (int64_of_int (sint a - sint a mod sint u)) = sint a - sint a mod sint u"
    unfolding int64_of_int_def using range by (intro sint_int64) linarith+
  ultimately show ?thesis by (simp only:)
qed

lemma roundDown_value:
  "sint (roundDownCapacityPretty c) =
     (if sint c \<ge> 10 * 2 ^ 30 then sint c - sint c mod 2 ^ 30
      else if sint c \<ge> 10 * 2 ^ 20 then sint c - sint c mod 2 ^ 20
      else sint c)"
proof -
  have ge: "(sint c sdiv y \<ge> 10) = (sint c \<ge> 10 * y)" if "y > 0" for y :: int
    using that by (rule sdiv_ge_iff)
  show ?thesis
    using ge [of "2 ^ 30"] ge [of "2 ^ 20"] round_unit [of gib c] round_unit [of mib c]
    by (simp add: roundDownCapacityPretty_def Let_def sint_int64_quot sint_units)
qed

section \<open>Facts about volume directories\<close>

text \<open>What one pool contributes to the listing when its directory can be read.\<close>

definition pool_listing :: "os \<Rightarrow> StoragePoolInfo \<Rightarrow> string list" where
  "pool_listing w info =
     (case os_ReadDir (Path info) w of
        Inr files \<Rightarrow> map (\<lambda>file. Join [Path info, fst file]) (filter (\<lambda>file. snd file = Directory) files)
      | _ \<Rightarrow> [])"

lemma pool_directories_Ok:
  "pool_directories ps acc w = Inr ds \<longleftrightarrow>
     (\<forall>e \<in> set ps. \<not> isl (os_ReadDir (Path (snd e)) w)) \<and>
     ds = acc @ concat (map (\<lambda>e. pool_listing w (snd e)) ps)"
  by (induction ps acc w rule: pool_directories.induct)
     (auto simp: pool_listing_def split: sum.splits)

lemma data_directories_Ok:
  "getStoragePoolDataDirectories ps w = Inr ds \<longleftrightarrow>
     (\<forall>e \<in> set ps. \<not> isl (os_ReadDir (Path (snd e)) w)) \<and>
     ds = sort (concat (map (\<lambda>e. pool_listing w (snd e)) ps))"
proof -
  have "getStoragePoolDataDirectories ps w = Inr ds \<longleftrightarrow>
      (\<exists>ds'. pool_directories ps [] w = Inr ds' \<and> ds = sort ds')"
    by (auto simp: getStoragePoolDataDirectories_def split: sum.splits)
  then show ?thesis by (auto simp: pool_directories_Ok)
qed

lemma pool_listing_iff:
  assumes "fs_wf (os_fs w)" "\<not> isl (os_ReadDir (Path info) w)"
  shows "d \<in> set (pool_listing w info) \<longleftrightarrow>
     (\<exists>n. d = Join [Path info, n] \<and> lookup w (path_key (Path info) @ [n]) = Some Directory)"
proof -
  obtain es where es: "os_ReadDir (Path info) w = Inr es"
    using assms(2) by (cases "os_ReadDir (Path info) w") auto
  note mem = os_ReadDir_entries(1) [OF assms(1) es]
  have "d \<in> set (pool_listing w info) \<longleftrightarrow> (\<exists>n. d = Join [Path info, n] \<and> (n, Directory) \<in> set es)"
    by (force simp: pool_listing_def es)
  then show ?thesis by (simp only: mem)
qed

lemma data_directories_iff:
  assumes "fs_wf (os_fs w)" "getStoragePoolDataDirectories ps w = Inr ds"
  shows "d \<in> set ds \<longleftrightarrow>
     (\<exists>k info n. (k, info) \<in> set ps \<and> d = Join [Path info, n] \<and>
        lookup w (path_key (Path info) @ [n]) = Some Directory)"
proof -
  have ok: "\<forall>e \<in> set ps. \<not> isl (os_ReadDir (Path (snd e)) w)"
    and ds: "set ds = (\<Union>e \<in> set ps. set (pool_listing w (snd e)))"
    using assms(2) by (auto simp: data_directories_Ok)
  then show ?thesis
    by (auto simp: ds pool_listing_iff [OF assms(1)] Bex_def)
qed

lemma data_directories_order:
  assumes "mset ps = mset qs" "getStoragePoolDataDirectories ps w = Inr ds"
  shows "getStoragePoolDataDirectories qs w = Inr ds"
proof -
  have "mset (concat (map (\<lambda>e. pool_listing w (snd e)) ps)) =
        mset (concat (map (\<lambda>e. pool_listing w (snd e)) qs))"
  proof -
    have *: "mset (concat (map f l)) = sum_mset (image_mset (\<lambda>e. mset (f e)) (mset l))"
      for f :: "string \<times> StoragePoolInfo \<Rightarrow> string list" and l
      by (induction l) simp_all
    show ?thesis by (simp only: * assms(1))
  qed
  then have "sort (concat (map (\<lambda>e. pool_listing w (snd e)) ps)) =
        sort (concat (map (\<lambda>e. pool_listing w (snd e)) qs))"
    by (simp add: properties_for_sort)
  moreover have "set ps = set qs" using assms(1) by (rule mset_eq_setD)
  ultimately show ?thesis using assms(2) by (simp add: data_directories_Ok)
qed

lemma pool_name_simple:
  assumes "fs_wf (os_fs w)" "lookup w (p @ [n]) = Some nd"
  shows "simple_name n"
  using fs_wf_parent(2) [OF assms] .

lemma DeleteVolume_util_ok:
  assumes "DeleteVolume base i w = (None, w')" "Join [base, i] \<noteq> []" "prefix (path_key (Join [base, i])) q"
  shows "lookup w' q = None"
proof -
  have "os_RemoveAll (Join [base, i]) w = (None, w')"
    using assms(1) os_RemoveAll_not_ENOENT
    by (auto simp: DeleteVolume_def split: prod.splits option.splits if_splits)
  then show ?thesis using assms(2,3) by (rule os_RemoveAll_ok)
qed

lemma DeleteVolume_util_result:
  assumes "DeleteVolume base i w = (r, w')"
  obtains r' where "os_RemoveAll (Join [base, i]) w = (r', w')" and "r' = None \<longleftrightarrow> r = None"
  using assms os_RemoveAll_not_ENOENT
  by (auto simp: DeleteVolume_def split: prod.splits option.splits if_splits)

lemma os_Stat_Inr: "os_Stat p w = Inr n \<Longrightarrow> lookup w (path_key p) = Some n"
  by (auto simp: os_Stat_def Let_def split: if_splits option.splits)

lemma os_Stat_missing:
  "os_ok w \<Longrightarrow> os_Stat p w = Inl e \<Longrightarrow> errors_Is_NotExist e \<Longrightarrow> p \<noteq> [] \<Longrightarrow> lookup w (path_key p) = None"
  by (auto simp: os_ok_def os_Stat_def Let_def split: if_splits option.splits)

lemma checkPathExist_True: "checkPathExist p w = Inr True \<longleftrightarrow> (\<exists>n. os_Stat p w = Inr n)"
  by (auto simp: checkPathExist_def checkPathExistFunc_def split: sum.splits)

lemma checkPathExist_False:
  assumes "os_ok w" "p \<noteq> []" "checkPathExist p w = Inr False"
  shows "lookup w (path_key p) = None"
  using assms
  by (auto simp: os_ok_def checkPathExist_def checkPathExistFunc_def os_Stat_def Let_def
      split: sum.splits if_splits option.splits)

lemma Join_simple_nonempty [simp]: "simple_name n \<Longrightarrow> Join [p, n] \<noteq> []"
  using path_key_Join_simple [of n p] by (metis path_key_Nil append_is_Nil_conv not_Cons_self2)

lemma Join3_simple_nonempty [simp]:
  "p \<noteq> [] \<Longrightarrow> simple_name a \<Longrightarrow> simple_name b \<Longrightarrow> Join [p, a, b] \<noteq> []"
  using path_key_Join3_simple [of p a b] by (metis path_key_Nil append_is_Nil_conv list.distinct(1))

lemma index_of_bounds: "index_of P xs i = j \<Longrightarrow> j \<noteq> - 1 \<Longrightarrow> 0 \<le> i \<Longrightarrow>
    i \<le> j \<and> j < i + int (length xs) \<and> P (xs ! nat (j - i)) \<and> (\<forall>m < nat (j - i). \<not> P (xs ! m))"
proof (induction P xs i arbitrary: j rule: index_of.induct)
  case (2 P x xs i)
  show ?case
  proof (cases "P x")
    case False
    then have "i + 1 \<le> j \<and> j < i + 1 + int (length xs) \<and> P (xs ! nat (j - (i + 1))) \<and>
        (\<forall>m < nat (j - (i + 1)). \<not> P (xs ! m))"
      using 2 by simp
    moreover then have "nat (j - i) = Suc (nat (j - (i + 1)))" by linarith
    ultimately show ?thesis using False by (auto simp: nth_Cons split: nat.splits)
  qed (use 2 in auto)
qed simp

lemma index_of_none: "0 \<le> i \<Longrightarrow> index_of P xs i = - 1 \<longleftrightarrow> (\<forall>x \<in> set xs. \<not> P x)"
  by (induction P xs i rule: index_of.induct) auto

end
