(* ===== verification/Healthcheck.thy ===== *)
theory Healthcheck
  imports Hostpath_Utils
begin

text \<open>
  \<open>pkg/hostpath/healthcheck.go\<close>: the numbers that \<open>statfs\<close> gives for a volume, at the width the
  code computes them (64-bit words, products and differences wrap), and the two health checks.
\<close>

section \<open>File-system statistics\<close>

record PVStats =
  pv_available :: int64
  pv_capacity :: int64
  pv_used :: int64
  pv_inodes :: int64
  pv_inodesFree :: int64
  pv_inodesUsed :: int64

definition fsInfo :: "string \<Rightarrow> os \<Rightarrow> go_error + PVStats" where
  \<comment> \<open>\<open>int64(x)\<close> on a \<open>uint64\<close> keeps the bits\<close>
  "fsInfo path w =
     (case unix_Statfs path w of
        Inl e \<Rightarrow> Inl (ErrorString (strerror e))
      | Inr statfs \<Rightarrow>
          Inr \<lparr>pv_available = Bavail statfs * Bsize statfs,
              pv_capacity = Blocks statfs * Bsize statfs,
              pv_used = (Blocks statfs - Bfree statfs) * Bsize statfs,
              pv_inodes = Files statfs,
              pv_inodesFree = Ffree statfs,
              pv_inodesUsed = Files statfs - Ffree statfs\<rparr>)"

definition getPVStats :: "string \<Rightarrow> os \<Rightarrow> go_error + PVStats" where
  "getPVStats volumePath w = fsInfo volumePath w"

definition checkPVUsage :: "string \<Rightarrow> os \<Rightarrow> go_error + int64 \<times> int64" where
  "checkPVUsage volumePath w =
     (case getPVStats volumePath w of
        Inl e \<Rightarrow> Inl e
      | Inr st \<Rightarrow> Inr (pv_available st, pv_inodesFree st))"

section \<open>Health checks\<close>

definition checkIfSpaceAvailable :: "string \<Rightarrow> os \<Rightarrow> bool \<times> string" where
  "checkIfSpaceAvailable volumePath w =
     (case checkPVUsage volumePath w of
        Inl err \<Rightarrow> (False, error_msg err)
      | Inr (fsAvailable, inodesFree) \<Rightarrow>
          if fsAvailable = 0 then (False, ''No space left on device'')
          else if inodesFree = 0 then (False, ''No inodes remaining on device'')
          else (True, []))"

fun mount_listed :: "string \<Rightarrow> MountPointInfo list \<Rightarrow> bool" where
  "mount_listed volumePath [] = False"
| "mount_listed volumePath (mountInfo # ms) =
     (if mi_Target mountInfo = volumePath then True else mount_listed volumePath ms)"

definition checkMountPointExist :: "decoder \<Rightarrow> string \<Rightarrow> os \<Rightarrow> go_error + bool" where
  "checkMountPointExist decode volumePath w =
     (case getMountInfos decode [volumePath] w of
        Inl err \<Rightarrow> Inl err
      | Inr mountInfos \<Rightarrow> Inr (mount_listed volumePath mountInfos))"

definition doHealthCheckInControllerSide :: "string \<Rightarrow> os \<Rightarrow> bool \<times> string" where
  "doHealthCheckInControllerSide volumePath w =
     (case checkPathExist volumePath w of
        Inl err \<Rightarrow> (False, error_msg err)
      | Inr spExist \<Rightarrow>
          if \<not> spExist then (False, ''The source path of the volume doesn't exist'')
          else checkIfSpaceAvailable volumePath w)"

definition doHealthCheckInNodeSide :: "decoder \<Rightarrow> string \<Rightarrow> os \<Rightarrow> bool \<times> string" where
  "doHealthCheckInNodeSide decode volumePath w =
     (case checkMountPointExist decode volumePath w of
        Inl err \<Rightarrow> (False, error_msg err)
      | Inr mpExist \<Rightarrow>
          if \<not> mpExist then (False, ''The volume isn't mounted'')
          else checkIfSpaceAvailable volumePath w)"

section \<open>Facts\<close>

definition space_left :: "string \<Rightarrow> os \<Rightarrow> bool" where
  \<comment> \<open>\<open>statfs\<close> answers, and with a non-zero number of available bytes and of free inodes\<close>
  "space_left path w \<longleftrightarrow>
     (case unix_Statfs path w of
        Inl _ \<Rightarrow> False
      | Inr st \<Rightarrow> Bavail st * Bsize st \<noteq> 0 \<and> Ffree st \<noteq> 0)"

lemma checkIfSpaceAvailable_iff:
  "\<exists>h msg. checkIfSpaceAvailable path w = (h, msg) \<and> (h \<longleftrightarrow> space_left path w) \<and> (h \<longrightarrow> msg = [])"
  by (auto simp: checkIfSpaceAvailable_def checkPVUsage_def getPVStats_def fsInfo_def space_left_def
      split: sum.splits)

lemma mount_listed_iff: "mount_listed p ms \<longleftrightarrow> p \<in> mi_Target ` set ms"
  by (induction p ms rule: mount_listed.induct) auto

lemma controller_health_total:
  "\<exists>h msg. doHealthCheckInControllerSide path w = (h, msg) \<and>
     (h \<longleftrightarrow> checkPathExist path w = Inr True \<and> space_left path w)"
  using checkIfSpaceAvailable_iff [of path w]
  by (auto simp: doHealthCheckInControllerSide_def split: sum.splits)

lemma sint_word_small: "uint (x :: int64) < 2 ^ 63 \<Longrightarrow> sint x = uint x"
  using sint_int64 [of "uint x"] uint_nonnegative [of x] by simp

lemma int64_mult_exact:
  assumes "uint (a :: int64) * sint b < 2 ^ 63" "0 < sint b"
  shows "sint (a * b) = uint a * sint b"
proof -
  have "0 \<le> uint a * sint b" using assms(2) by simp
  moreover have "a * b = word_of_int (uint a * sint b)"
    by (simp add: wi_hom_mult [symmetric])
  ultimately show ?thesis using assms(1) sint_int64 [of "uint a * sint b"] by simp
qed

end
