(* ===== verification/Reflink.thy ===== *)
theory Reflink
  imports Healthcheck
begin

text \<open>
  \<open>pkg/hostpath/reflink.go\<close>: the \<open>SnapshotProvider\<close> interface (a record of its methods) and its
  implementation \<open>Reflink\<close>, which keeps a snapshot \<open>id\<close> of the volume \<open>v\<close> as the directories
  \<open>path/id/data\<close> (the copy) and \<open>path/id/v\<close> (a marker for the source).

  The program \<open>cp\<close> that \<open>reflinkCopy\<close> runs is the parameter \<open>cp\<close>. \<open>cp_spec\<close> states its documented
  behaviour, and \<open>cp_rp\<close> is a function that has it. The locale \<open>snapshot_store\<close> is the contract
  the CSI controller relies on; \<open>Reflink\<close> implements it for every \<open>cp\<close> with \<open>cp_spec\<close>.
\<close>

section \<open>The interface\<close>

record csi_Snapshot =
  SnapshotId :: string
  SourceVolumeId :: string
  CreationTime :: "int \<times> int"
  ReadyToUse :: bool

definition IndexOfSnapshotId :: "string \<Rightarrow> csi_Snapshot list \<Rightarrow> int" where
  "IndexOfSnapshotId value list = index_of (\<lambda>match. SnapshotId match = value) list 0"

record snapshot_provider =
  sp_Initialize :: "os \<Rightarrow> go_error option \<times> os"
  sp_GetSnapshotById :: "string \<Rightarrow> os \<Rightarrow> go_error + csi_Snapshot option"
  sp_GetSnapshotsByVolumeSourceId :: "string \<Rightarrow> os \<Rightarrow> csi_Snapshot list outcome"
  sp_GetAllSnapshots :: "os \<Rightarrow> csi_Snapshot list outcome"
  sp_CreateSnapshot :: "string \<Rightarrow> string \<Rightarrow> os \<Rightarrow> (go_error + csi_Snapshot) \<times> os"
  sp_DeleteSnapshot :: "string \<Rightarrow> os \<Rightarrow> go_error option \<times> os"
  sp_RestoreSnapshot :: "string \<Rightarrow> string \<Rightarrow> os \<Rightarrow> go_error option \<times> os"

section \<open>The implementation\<close>

record Reflink =
  r_nodeName :: string
  r_path :: string
  r_sourcePath :: string

definition dataPath :: string where "dataPath = ''data''"

type_synonym copier = "string \<Rightarrow> string \<Rightarrow> os \<Rightarrow> go_error option \<times> os"

definition reflinkCopy :: "copier \<Rightarrow> string \<Rightarrow> string \<Rightarrow> os \<Rightarrow> go_error option \<times> os" where
  \<comment> \<open>\<open>cp src dst\<close> stands for running \<open>cp -rp --reflink=auto src dst\<close>\<close>
  "reflinkCopy cp src dst w =
     (case cp src dst w of
        (Some err, w') \<Rightarrow> (Some (WrapError (''failed to copy '' @ src @ '' to '' @ dst @ '': '') err), w')
      | (None, w') \<Rightarrow> (None, w'))"

definition ensurePathExists :: "string \<Rightarrow> os \<Rightarrow> go_error option \<times> os" where
  "ensurePathExists path w = os_MkdirAll path w"

definition Reflink_Initialize :: "Reflink \<Rightarrow> os \<Rightarrow> go_error option \<times> os" where
  "Reflink_Initialize r w = ensurePathExists (r_path r) w"

fun first_source :: "(string \<times> node) list \<Rightarrow> string option" where
  "first_source [] = None"
| "first_source (entry # es) =
     (if snd entry \<noteq> Directory \<or> fst entry = dataPath then first_source es else Some (fst entry))"

definition getSourceVolumeId :: "Reflink \<Rightarrow> string \<Rightarrow> os \<Rightarrow> go_error + string" where
  "getSourceVolumeId r snapshotId w =
     (case os_ReadDir (Join [r_path r, snapshotId]) w of
        Inl e \<Rightarrow> Inl e
      | Inr entries \<Rightarrow>
          (case first_source entries of
             Some n \<Rightarrow> Inr n
           | None \<Rightarrow> Inl (ErrorString (''source volume not found for snapshot '' @ snapshotId))))"

definition GetSnapshotById :: "Reflink \<Rightarrow> string \<Rightarrow> os \<Rightarrow> go_error + csi_Snapshot option" where
  "GetSnapshotById r snapshotId w =
     (case os_Stat (Join [r_path r, snapshotId]) w of
        Inl err \<Rightarrow> if \<not> errors_Is_NotExist err then Inl err else Inr None
      | Inr info \<Rightarrow>
          if info \<noteq> Directory
          then Inl (ErrorString (''file '' @ Join [r_path r, snapshotId] @ '' is not a directory''))
          else (case getSourceVolumeId r snapshotId w of
                  Inl err \<Rightarrow> Inl err
                | Inr sourceVolumeId \<Rightarrow>
                    Inr (Some \<lparr>SnapshotId = snapshotId, SourceVolumeId = sourceVolumeId,
                              CreationTime = os_ctim w (os_fs w) (path_key (Join [r_path r, snapshotId])),
                              ReadyToUse = True\<rparr>)))"

fun all_snapshots :: "Reflink \<Rightarrow> (string \<times> node) list \<Rightarrow> csi_Snapshot list \<Rightarrow> os \<Rightarrow> csi_Snapshot list outcome" where
  "all_snapshots r [] snapshots w = Ok snapshots"
| "all_snapshots r (entry # es) snapshots w =
     (if snd entry \<noteq> Directory then all_snapshots r es snapshots w
      else (case GetSnapshotById r (fst entry) w of
              Inl err \<Rightarrow> Err err
            | Inr None \<Rightarrow> Panic nil_deref
            | Inr (Some snapshot) \<Rightarrow> all_snapshots r es (snapshots @ [snapshot]) w))"

definition GetAllSnapshots :: "Reflink \<Rightarrow> os \<Rightarrow> csi_Snapshot list outcome" where
  "GetAllSnapshots r w =
     (case os_ReadDir (r_path r) w of
        Inl e \<Rightarrow> Err e
      | Inr entries \<Rightarrow> all_snapshots r entries [] w)"

definition GetSnapshotsByVolumeSourceId :: "Reflink \<Rightarrow> string \<Rightarrow> os \<Rightarrow> csi_Snapshot list outcome" where
  "GetSnapshotsByVolumeSourceId r volumeSourceId w =
     (case GetAllSnapshots r w of
        Err e \<Rightarrow> Err e
      | Panic m \<Rightarrow> Panic m
      | Ok snapshots \<Rightarrow> Ok (filter (\<lambda>snapshot. SourceVolumeId snapshot = volumeSourceId) snapshots))"

definition createSnapshotFromDir :: "Reflink \<Rightarrow> string \<Rightarrow> string \<Rightarrow> string \<Rightarrow> os \<Rightarrow> go_error + csi_Snapshot" where
  "createSnapshotFromDir r snapshotId sourceVolumeId path w =
     (case getFileCreationTimeFunc path w of
        Inl e \<Rightarrow> Inl e
      | Inr creationTime \<Rightarrow>
          Inr \<lparr>SnapshotId = snapshotId, SourceVolumeId = sourceVolumeId,
              CreationTime = creationTime, ReadyToUse = True\<rparr>)"

definition Reflink_CreateSnapshot ::
    "copier \<Rightarrow> Reflink \<Rightarrow> string \<Rightarrow> string \<Rightarrow> os \<Rightarrow> (go_error + csi_Snapshot) \<times> os" where
  "Reflink_CreateSnapshot cp r snapshotId sourceVolumeId w =
     (let sourcePoolDir = Join [r_sourcePath r, sourceVolumeId] in
      case checkPathExist sourcePoolDir w of
        Inl err \<Rightarrow> (Inl err, w)
      | Inr False \<Rightarrow>
          (Inl (ErrorString (''source volume '' @ sourcePoolDir @ '' not found, unable to create snapshot'')), w)
      | Inr True \<Rightarrow>
          (let snapshotDir = Join [r_path r, snapshotId, dataPath];
               sourceDir = Join [r_path r, snapshotId, sourceVolumeId] in
           case checkPathExist snapshotDir w of
             Inl err \<Rightarrow> (Inl err, w)
           | Inr True \<Rightarrow> (createSnapshotFromDir r snapshotId sourceVolumeId snapshotDir w, w)
           | Inr False \<Rightarrow>
               (case os_MkdirAll snapshotDir w of
                  (Some err, w1) \<Rightarrow> (Inl err, w1)
                | (None, w1) \<Rightarrow>
                    (case os_MkdirAll sourceDir w1 of
                       (Some err, w2) \<Rightarrow> (Inl err, w2)
                     | (None, w2) \<Rightarrow>
                         (case reflinkCopy cp (sourcePoolDir @ ''/.'') snapshotDir w2 of
                            (Some err, w3) \<Rightarrow> (Inl err, w3)
                          | (None, w3) \<Rightarrow>
                              (createSnapshotFromDir r snapshotId sourceVolumeId snapshotDir w3, w3))))))"

definition Reflink_DeleteSnapshot :: "Reflink \<Rightarrow> string \<Rightarrow> os \<Rightarrow> go_error option \<times> os" where
  "Reflink_DeleteSnapshot r snapshotId w =
     (let snapPath = Join [r_path r, snapshotId] in
      case checkPathExist snapPath w of
        Inl err \<Rightarrow> (Some err, w)
      | Inr exists \<Rightarrow> if exists then os_RemoveAll snapPath w else (None, w))"

definition Reflink_RestoreSnapshot :: "copier \<Rightarrow> Reflink \<Rightarrow> string \<Rightarrow> string \<Rightarrow> os \<Rightarrow> go_error option \<times> os" where
  "Reflink_RestoreSnapshot cp r snapshotId targetPath w =
     (let snapPath = Join [r_path r, snapshotId, dataPath] in
      case checkPathExist snapPath w of
        Inl err \<Rightarrow> (Some err, w)
      | Inr False \<Rightarrow>
          (Some (StatusError NotFound
             (''snapshot '' @ snapshotId @ '' not found, unable to restore into volume'')), w)
      | Inr True \<Rightarrow>
          (case checkPathExist targetPath w of
             Inl err \<Rightarrow> (Some err, w)
           | Inr False \<Rightarrow> (Some (ErrorString (''target path '' @ targetPath @ '' does not exist'')), w)
           | Inr True \<Rightarrow> reflinkCopy cp (snapPath @ ''/.'') targetPath w))"

definition reflink_provider :: "copier \<Rightarrow> Reflink \<Rightarrow> snapshot_provider" where
  \<comment> \<open>a \<open>*Reflink\<close> as a \<open>SnapshotProvider\<close>\<close>
  "reflink_provider cp r =
     \<lparr>sp_Initialize = Reflink_Initialize r,
      sp_GetSnapshotById = GetSnapshotById r,
      sp_GetSnapshotsByVolumeSourceId = GetSnapshotsByVolumeSourceId r,
      sp_GetAllSnapshots = GetAllSnapshots r,
      sp_CreateSnapshot = Reflink_CreateSnapshot cp r,
      sp_DeleteSnapshot = Reflink_DeleteSnapshot r,
      sp_RestoreSnapshot = Reflink_RestoreSnapshot cp r\<rparr>"

section \<open>What \<open>cp\<close> promises\<close>

text \<open>
  \<open>cp -rp src dst\<close> writes nothing outside \<open>dst\<close> and removes no directory. When it succeeds on a
  source \<open>d/.\<close> and an existing directory \<open>dst\<close>, then \<open>d\<close> is a directory that does not hold
  \<open>dst\<close>, and \<open>dst\<close> has the contents of \<open>d\<close> laid over what it had.
\<close>

definition cp_spec :: "copier \<Rightarrow> bool" where
  "cp_spec cp \<longleftrightarrow> (\<forall>src dst w r w'. cp src dst w = (r, w') \<longrightarrow> fs_wf (os_fs w) \<longrightarrow>
     fs_wf (os_fs w') \<and> same_env w w' \<and>
     (\<forall>q. \<not> prefix (path_key dst) q \<longrightarrow> lookup w' q = lookup w q) \<and>
     (\<forall>q. lookup w q = Some Directory \<longrightarrow> lookup w' q = Some Directory) \<and>
     (r = None \<and> suffix ''/.'' src \<and> lookup w (path_key dst) = Some Directory \<longrightarrow>
        lookup w (path_key src) = Some Directory \<and> \<not> prefix (path_key src) (path_key dst) \<and>
        (\<forall>rel. rel \<noteq> [] \<longrightarrow> lookup w' (path_key dst @ rel) =
           (case lookup w (path_key src @ rel) of
              Some n \<Rightarrow> Some n
            | None \<Rightarrow> lookup w (path_key dst @ rel)))))"

lemma cp_specD:
  assumes "cp_spec cp" "reflinkCopy cp src dst w = (r, w')" "fs_wf (os_fs w)"
  shows "fs_wf (os_fs w')" and "same_env w w'"
    and "\<not> prefix (path_key dst) q \<Longrightarrow> lookup w' q = lookup w q"
    and "lookup w q = Some Directory \<Longrightarrow> lookup w' q = Some Directory"
proof -
  obtain r' where "cp src dst w = (r', w')"
    using assms(2) by (auto simp: reflinkCopy_def split: prod.splits option.splits)
  with assms(1,3) show "fs_wf (os_fs w')" and "same_env w w'"
    and "\<not> prefix (path_key dst) q \<Longrightarrow> lookup w' q = lookup w q"
    and "lookup w q = Some Directory \<Longrightarrow> lookup w' q = Some Directory"
    unfolding cp_spec_def by blast+
qed

lemma cp_spec_contents:
  assumes "cp_spec cp" "reflinkCopy cp (src @ ''/.'') dst w = (None, w')" "fs_wf (os_fs w)"
    "lookup w (path_key dst) = Some Directory"
  shows "lookup w (path_key src) = Some Directory" and "\<not> prefix (path_key src) (path_key dst)"
    and "rel \<noteq> [] \<Longrightarrow> lookup w' (path_key dst @ rel) =
       (case lookup w (path_key src @ rel) of Some n \<Rightarrow> Some n | None \<Rightarrow> lookup w (path_key dst @ rel))"
proof -
  have cp: "cp (src @ ''/.'') dst w = (None, w')"
    using assms(2) by (auto simp: reflinkCopy_def split: prod.splits option.splits)
  have k: "path_key (src @ ''/.'') = path_key src" and s: "suffix ''/.'' (src @ ''/.'')"
    by (rule path_key_slash_dot, rule suffixI, rule refl)
  note all = assms(1) [unfolded cp_spec_def, rule_format, OF cp assms(3)]
  have *: "lookup w (path_key src) = Some Directory \<and> \<not> prefix (path_key src) (path_key dst) \<and>
      (\<forall>rel. rel \<noteq> [] \<longrightarrow> lookup w' (path_key dst @ rel) =
           (case lookup w (path_key src @ rel) of Some n \<Rightarrow> Some n | None \<Rightarrow> lookup w (path_key dst @ rel)))"
    using all s assms(4) unfolding k by blast
  then show "lookup w (path_key src) = Some Directory" and "\<not> prefix (path_key src) (path_key dst)"
    and "rel \<noteq> [] \<Longrightarrow> lookup w' (path_key dst @ rel) =
       (case lookup w (path_key src @ rel) of Some n \<Rightarrow> Some n | None \<Rightarrow> lookup w (path_key dst @ rel))"
    by blast+
qed

section \<open>Looking up a snapshot\<close>

lemma first_source_mem:
  "first_source es = Some n \<Longrightarrow> (n, Directory) \<in> set es \<and> n \<noteq> dataPath"
  by (induction es rule: first_source.induct) (auto split: if_splits)

lemma GetSnapshotById_None:
  assumes "os_ok w" "simple_name i" "GetSnapshotById r i w = Inr None"
  shows "lookup w (path_key (r_path r) @ [i]) = None"
  using assms os_Stat_missing [of w "Join [r_path r, i]"]
  by (auto simp: GetSnapshotById_def split: sum.splits if_splits)

lemma GetSnapshotById_Some:
  assumes "GetSnapshotById r i w = Inr (Some s)"
  shows "SnapshotId s = i" and "ReadyToUse s"
    and "lookup w (path_key (Join [r_path r, i])) = Some Directory"
    and "getSourceVolumeId r i w = Inr (SourceVolumeId s)"
  using assms os_Stat_Inr [of "Join [r_path r, i]" w]
  by (auto simp: GetSnapshotById_def split: sum.splits if_splits)

lemma GetSnapshotById_no_dir:
  assumes "lookup w (path_key (Join [r_path r, i])) = None" "GetSnapshotById r i w = Inr g"
  shows "g = None"
  using assms os_Stat_Inr [of "Join [r_path r, i]" w]
  by (auto simp: GetSnapshotById_def split: sum.splits if_splits)

lemma getSourceVolumeId_marker:
  assumes "fs_wf (os_fs w)" "simple_name i" "getSourceVolumeId r i w = Inr v"
  shows "lookup w (path_key (r_path r) @ [i, v]) = Some Directory" and "v \<noteq> dataPath"
proof -
  obtain es where es: "os_ReadDir (Join [r_path r, i]) w = Inr es" and f: "first_source es = Some v"
    using assms(3) by (auto simp: getSourceVolumeId_def split: sum.splits option.splits)
  show "lookup w (path_key (r_path r) @ [i, v]) = Some Directory" and "v \<noteq> dataPath"
    using first_source_mem [OF f] os_ReadDir_entries(1) [OF assms(1) es] assms(2) by simp_all
qed

lemma getSourceVolumeId_unique:
  assumes "fs_wf (os_fs w)" "simple_name i" "v \<noteq> dataPath"
    "lookup w (path_key (r_path r) @ [i, v]) = Some Directory"
    "\<And>m. lookup w (path_key (r_path r) @ [i, m]) = Some Directory \<Longrightarrow> m \<noteq> dataPath \<Longrightarrow> m = v"
    "getSourceVolumeId r i w = Inr v'"
  shows "v' = v"
  using getSourceVolumeId_marker [OF assms(1,2,6)] assms(5) by blast

section \<open>Creating a snapshot\<close>

abbreviation snap_key :: "Reflink \<Rightarrow> string \<Rightarrow> path" where
  "snap_key r i \<equiv> path_key (r_path r) @ [i]"

abbreviation source_key :: "Reflink \<Rightarrow> string \<Rightarrow> path" where
  "source_key r v \<equiv> path_key (r_sourcePath r) @ [v]"

lemma dataPath_simple [simp]: "simple_name dataPath"
  by (simp add: dataPath_def simple_name_def)

lemma CreateSnapshot_env:
  assumes "cp_spec cp" "os_ok w" "Reflink_CreateSnapshot cp r i v w = (res, w')"
  shows "os_ok w'" and "same_env w w'"
proof -
  have mk: "fs_wf (os_fs b) \<and> same_env a b" if "os_MkdirAll x a = (e, b)" "fs_wf (os_fs a)" for x a e b
    using that os_MkdirAll_wf os_MkdirAll_env by blast
  have cp: "fs_wf (os_fs b) \<and> same_env a b"
    if "reflinkCopy cp x y a = (e, b)" "fs_wf (os_fs a)" for x y a e b
    using that cp_specD(1,2) [OF assms(1)] by blast
  have "fs_wf (os_fs w') \<and> same_env w w'"
    using assms(3) os_okD [OF assms(2)]
    by (auto simp: Reflink_CreateSnapshot_def Let_def
        split: sum.splits bool.splits prod.splits option.splits
        dest!: mk cp intro: same_env_trans)
  then show "os_ok w'" and "same_env w w'" using os_ok_env [OF assms(2)] by blast+
qed

lemma CreateSnapshot_fresh_steps:
  assumes "os_ok w" "r_path r \<noteq> []" "simple_name i"
    "lookup w (snap_key r i) = None" "Reflink_CreateSnapshot cp r i v w = (Inr s, w')"
  obtains w1 w2 where "os_MkdirAll (Join [r_path r, i, dataPath]) w = (None, w1)"
    and "os_MkdirAll (Join [r_path r, i, v]) w1 = (None, w2)"
    and "reflinkCopy cp (Join [r_sourcePath r, v] @ ''/.'') (Join [r_path r, i, dataPath]) w2 = (None, w')"
    and "createSnapshotFromDir r i v (Join [r_path r, i, dataPath]) w' = Inr s"
proof -
  have "lookup w (snap_key r i @ [dataPath]) = None"
    using fs_absent_below [OF os_okD [OF assms(1)] assms(4)] by simp
  then have "checkPathExist (Join [r_path r, i, dataPath]) w \<noteq> Inr True"
    using os_Stat_Inr [of "Join [r_path r, i, dataPath]" w] assms(2,3)
    by (auto simp: checkPathExist_True path_key_Join3_simple)
  with assms(5) that show ?thesis
    by (auto simp: Reflink_CreateSnapshot_def Let_def
        split: sum.splits bool.splits prod.splits option.splits)
qed

text \<open>The two directories that a new snapshot starts with.\<close>

lemma snapshot_dirs:
  assumes "os_ok w" "r_path r \<noteq> []" "simple_name i" "simple_name v"
    and m1: "os_MkdirAll (Join [r_path r, i, dataPath]) w = (None, w1)"
    and m2: "os_MkdirAll (Join [r_path r, i, v]) w1 = (None, w2)"
  shows "fs_wf (os_fs w2)"
    and "lookup w2 (snap_key r i @ [dataPath]) = Some Directory"
    and "lookup w2 (snap_key r i @ [v]) = Some Directory"
    and "lookup w q = Some n \<Longrightarrow> lookup w2 q = Some n"
    and "lookup w q = None \<Longrightarrow> lookup w2 q = Some n \<Longrightarrow>
           n = Directory \<and> (prefix q (snap_key r i @ [dataPath]) \<or> prefix q (snap_key r i @ [v]))"
proof -
  note k = path_key_Join3_simple [OF assms(2,3) dataPath_simple] path_key_Join3_simple [OF assms(2,3,4)]
  have wf1: "fs_wf (os_fs w1)" using os_MkdirAll_wf [OF m1 os_okD [OF assms(1)]] .
  show "fs_wf (os_fs w2)" using os_MkdirAll_wf [OF m2 wf1] .
  show "lookup w2 (snap_key r i @ [dataPath]) = Some Directory"
    using os_MkdirAll_keeps [OF m2 os_MkdirAll_ok [OF m1]] k by simp
  show "lookup w2 (snap_key r i @ [v]) = Some Directory"
    using os_MkdirAll_ok [OF m2] k by simp
  show "lookup w2 q = Some n" if "lookup w q = Some n"
    using os_MkdirAll_keeps [OF m2 os_MkdirAll_keeps [OF m1 that]] .
  show "n = Directory \<and> (prefix q (snap_key r i @ [dataPath]) \<or> prefix q (snap_key r i @ [v]))"
    if "lookup w q = None" "lookup w2 q = Some n"
  proof (cases "lookup w1 q")
    case None
    then show ?thesis using os_MkdirAll_new [OF m2 None that(2)] k by simp
  next
    case (Some n')
    then show ?thesis
      using os_MkdirAll_new [OF m1 that(1) Some] os_MkdirAll_keeps [OF m2 Some] that(2) k by simp
  qed
qed

lemma prefix_snoc_above: "prefix q (p @ [x]) \<Longrightarrow> \<not> prefix p q \<Longrightarrow> prefix q p"
  by (auto simp: prefix_snoc)

lemma prefix_strict_snoc:
  assumes "rel \<noteq> []" "prefix (p @ rel) (q @ [x])"
  shows "prefix p q"
proof (cases "p @ rel = q @ [x]")
  case True
  then have "butlast (p @ rel) = q" by simp
  then have "q = p @ butlast rel" using assms(1) by (simp add: butlast_append)
  then show ?thesis by simp
next
  case False
  then have "prefix (p @ rel) q" using assms(2) by (simp add: prefix_snoc)
  then show ?thesis by (rule append_prefixD)
qed

text \<open>Whatever the copy does, the snapshot has these two directories.\<close>

lemma snapshot_children:
  assumes cp: "cp_spec cp" and ok: "os_ok w" and paths: "r_path r \<noteq> []"
    and names: "simple_name i" "simple_name v"
    and fresh: "lookup w (snap_key r i) = None"
    and m1: "os_MkdirAll (Join [r_path r, i, dataPath]) w = (None, w1)"
    and m2: "os_MkdirAll (Join [r_path r, i, v]) w1 = (None, w2)"
    and c: "reflinkCopy cp src (Join [r_path r, i, dataPath]) w2 = (e, w')"
  shows "lookup w' (snap_key r i @ [m]) = Some nd \<longleftrightarrow> (m = dataPath \<or> m = v) \<and> nd = Directory"
proof
  note dirs = snapshot_dirs [OF ok paths names m1 m2]
  note cpD = cp_specD [OF cp c dirs(1)]
  have dk: "path_key (Join [r_path r, i, dataPath]) = snap_key r i @ [dataPath]"
    by (simp add: path_key_Join3_simple [OF paths names(1)])
  have absent: "lookup w q = None" if "prefix (snap_key r i) q" for q
    using os_okD [OF ok] fresh that by (rule fs_absent_below)
  {
    assume l: "lookup w' (snap_key r i @ [m]) = Some nd"
    show "(m = dataPath \<or> m = v) \<and> nd = Directory"
    proof (cases "m = dataPath")
      case True
      then show ?thesis using cpD(4) [OF dirs(2)] l by simp
    next
      case False
      then have "lookup w2 (snap_key r i @ [m]) = Some nd"
        using cpD(3) [of "snap_key r i @ [m]"] l dk by simp
      then show ?thesis using dirs(5) [of "snap_key r i @ [m]" nd] absent by simp
    qed
  next
    assume "(m = dataPath \<or> m = v) \<and> nd = Directory"
    then show "lookup w' (snap_key r i @ [m]) = Some nd"
      using cpD(4) [OF dirs(2)] cpD(4) [OF dirs(3)] by auto
  }
qed

lemma CreateSnapshot_fresh:
  assumes cp: "cp_spec cp" and ok: "os_ok w" and paths: "r_path r \<noteq> []"
    and names: "simple_name i" "simple_name v"
    and fresh: "lookup w (snap_key r i) = None"
    and run: "Reflink_CreateSnapshot cp r i v w = (Inr s, w')"
  shows "SnapshotId s = i" and "SourceVolumeId s = v"
    and "lookup w' (snap_key r i @ [m]) = Some nd \<longleftrightarrow> (m = dataPath \<or> m = v) \<and> nd = Directory"
    and "lookup w (path_key (r_path r)) = Some Directory \<Longrightarrow> \<not> prefix (snap_key r i) q \<Longrightarrow>
           lookup w' q = lookup w q"
proof -
  obtain w1 w2 where m1: "os_MkdirAll (Join [r_path r, i, dataPath]) w = (None, w1)"
    and m2: "os_MkdirAll (Join [r_path r, i, v]) w1 = (None, w2)"
    and c: "reflinkCopy cp (Join [r_sourcePath r, v] @ ''/.'') (Join [r_path r, i, dataPath]) w2 = (None, w')"
    and f: "createSnapshotFromDir r i v (Join [r_path r, i, dataPath]) w' = Inr s"
    by (rule CreateSnapshot_fresh_steps [OF ok paths names(1) fresh run])
  note dirs = snapshot_dirs [OF ok paths names m1 m2]
  note cpD = cp_specD [OF cp c dirs(1)]
  have dk: "path_key (Join [r_path r, i, dataPath]) = snap_key r i @ [dataPath]"
    by (simp add: path_key_Join3_simple [OF paths names(1)])
  show "SnapshotId s = i" and "SourceVolumeId s = v"
    using f by (auto simp: createSnapshotFromDir_def split: sum.splits)
  show "lookup w' (snap_key r i @ [m]) = Some nd \<longleftrightarrow> (m = dataPath \<or> m = v) \<and> nd = Directory"
    by (rule snapshot_children [OF cp ok paths names fresh m1 m2 c])
  assume P: "lookup w (path_key (r_path r)) = Some Directory" and q: "\<not> prefix (snap_key r i) q"
  have "\<not> prefix (snap_key r i @ [dataPath]) q" using q append_prefixD by blast
  then have 2: "lookup w' q = lookup w2 q" by (intro cpD(3)) (simp only: dk not_False_eq_True)
  show "lookup w' q = lookup w q"
  proof (cases "lookup w q")
    case (Some n)
    then show ?thesis using 2 dirs(4) [OF Some] by (simp only:)
  next
    case None
    have "lookup w2 q = None"
    proof (rule ccontr)
      assume "lookup w2 q \<noteq> None"
      then have "prefix q (snap_key r i @ [dataPath]) \<or> prefix q (snap_key r i @ [v])"
        using dirs(5) [OF None] by blast
      then have "prefix q (snap_key r i)" by (elim disjE) (rule prefix_snoc_above [OF _ q], assumption)+
      then have "prefix q (path_key (r_path r))" using q by (auto simp only: prefix_snoc prefix_order.refl)
      then show False using fs_dir_above [OF os_okD [OF ok] P] None by simp
    qed
    then show ?thesis using 2 None by simp
  qed
qed

lemma CreateSnapshot_contents:
  assumes cp: "cp_spec cp" and ok: "os_ok w" and paths: "r_path r \<noteq> []"
    and names: "simple_name i" "simple_name v" "v \<noteq> dataPath"
    and fresh: "lookup w (snap_key r i) = None"
    and run: "Reflink_CreateSnapshot cp r i v w = (Inr s, w')"
  shows "\<not> prefix (source_key r v) (snap_key r i @ [dataPath])"
    and "rel \<noteq> [] \<Longrightarrow> lookup w' (snap_key r i @ [dataPath] @ rel) = lookup w (source_key r v @ rel)"
proof -
  obtain w1 w2 where m1: "os_MkdirAll (Join [r_path r, i, dataPath]) w = (None, w1)"
    and m2: "os_MkdirAll (Join [r_path r, i, v]) w1 = (None, w2)"
    and c: "reflinkCopy cp (Join [r_sourcePath r, v] @ ''/.'') (Join [r_path r, i, dataPath]) w2 = (None, w')"
    by (rule CreateSnapshot_fresh_steps [OF ok paths names(1) fresh run])
  note dirs = snapshot_dirs [OF ok paths names(1,2) m1 m2]
  have dk: "path_key (Join [r_path r, i, dataPath]) = snap_key r i @ [dataPath]"
    by (simp add: path_key_Join3_simple [OF paths names(1)])
  have sk: "path_key (Join [r_sourcePath r, v]) = source_key r v" using names(2) by simp
  note cont = cp_spec_contents [OF cp c dirs(1), unfolded dk sk, OF dirs(2)]
  show "\<not> prefix (source_key r v) (snap_key r i @ [dataPath])" by (rule cont(2))
  assume rel: "rel \<noteq> []"
  have "lookup w2 (snap_key r i @ [dataPath] @ rel) = None"
  proof (rule ccontr)
    assume n: "lookup w2 (snap_key r i @ [dataPath] @ rel) \<noteq> None"
    have "lookup w (snap_key r i @ [dataPath] @ rel) = None"
      using fs_absent_below [OF os_okD [OF ok] fresh] by simp
    then have "prefix (snap_key r i @ [dataPath] @ rel) (snap_key r i @ [dataPath]) \<or>
        prefix (snap_key r i @ [dataPath] @ rel) (snap_key r i @ [v])"
      using n dirs(5) [of "snap_key r i @ [dataPath] @ rel"] by blast
    then show False using rel names(3) by (simp only: same_prefix_prefix) (auto simp: prefix_Cons)
  qed
  moreover have "lookup w2 (source_key r v @ rel) = lookup w (source_key r v @ rel)"
  proof (cases "lookup w (source_key r v @ rel)")
    case (Some n)
    then show ?thesis using dirs(4) [OF Some] by (simp only:)
  next
    case None
    have "lookup w2 (source_key r v @ rel) = None"
    proof (rule ccontr)
      assume "lookup w2 (source_key r v @ rel) \<noteq> None"
      then have "prefix (source_key r v @ rel) (snap_key r i @ [dataPath]) \<or>
          prefix (source_key r v @ rel) (snap_key r i @ [v])"
        using dirs(5) [OF None] by blast
      then have "prefix (source_key r v) (snap_key r i)"
        using prefix_strict_snoc [OF rel] by (elim disjE)
      then have "prefix (source_key r v) (snap_key r i @ [dataPath])" by (rule prefix_prefix)
      then show False using cont(2) by contradiction
    qed
    then show ?thesis using None by simp
  qed
  ultimately show "lookup w' (snap_key r i @ [dataPath] @ rel) = lookup w (source_key r v @ rel)"
    using cont(3) [OF rel] by (simp split: option.splits)
qed

lemma CreateSnapshot_source:
  assumes "Reflink_CreateSnapshot cp r i v w = (Inr s, w')" "simple_name v"
  shows "lookup w (source_key r v) \<noteq> None"
proof -
  have "checkPathExist (Join [r_sourcePath r, v]) w = Inr True"
    using assms(1) by (auto simp: Reflink_CreateSnapshot_def Let_def split: sum.splits bool.splits)
  then show ?thesis
    using os_Stat_Inr [of "Join [r_sourcePath r, v]" w] assms(2) by (auto simp: checkPathExist_True)
qed

section \<open>Deleting and restoring a snapshot\<close>

lemma DeleteSnapshot_env:
  assumes "os_ok w" "Reflink_DeleteSnapshot r i w = (e, w')"
  shows "os_ok w'" and "same_env w w'"
    and "simple_name i \<Longrightarrow> \<not> prefix (snap_key r i) q \<Longrightarrow> lookup w' q = lookup w q"
    and "lookup w' q = Some n \<Longrightarrow> lookup w q = Some n"
proof -
  have *: "w' = w \<or> os_RemoveAll (Join [r_path r, i]) w = (e, w')"
    using assms(2) by (auto simp: Reflink_DeleteSnapshot_def Let_def split: sum.splits if_splits)
  have "same_env w w' \<and> fs_wf (os_fs w')"
    using * os_RemoveAll_env os_RemoveAll_wf os_okD [OF assms(1)] by auto
  then show "os_ok w'" and "same_env w w'" using os_ok_env [OF assms(1)] by blast+
  show "lookup w' q = lookup w q" if "simple_name i" "\<not> prefix (snap_key r i) q"
    using * os_RemoveAll_outside [of "Join [r_path r, i]" w e w' q] that by auto
  show "lookup w q = Some n" if "lookup w' q = Some n"
    using * os_RemoveAll_shrinks [of "Join [r_path r, i]" w e w' q n] that by auto
qed

lemma DeleteSnapshot_ok:
  assumes "os_ok w" "simple_name i" "Reflink_DeleteSnapshot r i w = (None, w')" "prefix (snap_key r i) q"
  shows "lookup w' q = None"
proof (cases "checkPathExist (Join [r_path r, i]) w = Inr False")
  case True
  then have "w' = w" using assms(3) by (simp add: Reflink_DeleteSnapshot_def)
  moreover have "lookup w (snap_key r i) = None"
    using checkPathExist_False [OF assms(1) _ True] assms(2) by simp
  ultimately show ?thesis using fs_absent_below [OF os_okD [OF assms(1)] _ assms(4)] by simp
next
  case False
  then have "os_RemoveAll (Join [r_path r, i]) w = (None, w')"
    using assms(3) by (auto simp: Reflink_DeleteSnapshot_def Let_def split: sum.splits if_splits)
  then show ?thesis using assms(2,4) os_RemoveAll_ok [of "Join [r_path r, i]" w w' q] by simp
qed

lemma RestoreSnapshot_env:
  assumes "cp_spec cp" "os_ok w" "Reflink_RestoreSnapshot cp r i t w = (e, w')"
  shows "os_ok w'" and "same_env w w'" and "\<not> prefix (path_key t) q \<Longrightarrow> lookup w' q = lookup w q"
    and "lookup w q = Some Directory \<Longrightarrow> lookup w' q = Some Directory"
proof -
  have *: "w' = w \<or> reflinkCopy cp (Join [r_path r, i, dataPath] @ ''/.'') t w = (e, w')"
    using assms(3) by (auto simp: Reflink_RestoreSnapshot_def Let_def split: sum.splits bool.splits)
  note cpD = cp_specD [OF assms(1) _ os_okD [OF assms(2)]]
  have "same_env w w' \<and> fs_wf (os_fs w')"
    using * cpD(1,2) os_okD [OF assms(2)] by auto
  then show "os_ok w'" and "same_env w w'" using os_ok_env [OF assms(2)] by blast+
  show "lookup w' q = lookup w q" if "\<not> prefix (path_key t) q"
    using * cpD(3) [OF _ that] by auto
  show "lookup w' q = Some Directory" if "lookup w q = Some Directory"
    using * cpD(4) [OF _ that] that by auto
qed

lemma RestoreSnapshot_ok:
  assumes "cp_spec cp" "os_ok w" "r_path r \<noteq> []" "simple_name i"
    "Reflink_RestoreSnapshot cp r i t w = (None, w')" "lookup w (path_key t) = Some Directory"
  shows "lookup w (snap_key r i @ [dataPath]) = Some Directory"
    and "rel \<noteq> [] \<Longrightarrow> lookup w' (path_key t @ rel) =
       (case lookup w (snap_key r i @ [dataPath] @ rel) of
          Some n \<Rightarrow> Some n | None \<Rightarrow> lookup w (path_key t @ rel))"
proof -
  have c: "reflinkCopy cp (Join [r_path r, i, dataPath] @ ''/.'') t w = (None, w')"
    using assms(5) by (auto simp: Reflink_RestoreSnapshot_def Let_def split: sum.splits bool.splits)
  have k: "path_key (Join [r_path r, i, dataPath]) = snap_key r i @ [dataPath]"
    by (simp add: path_key_Join3_simple [OF assms(3,4)])
  note * = cp_spec_contents [OF assms(1) c os_okD [OF assms(2)] assms(6), unfolded k]
  show "lookup w (snap_key r i @ [dataPath]) = Some Directory" using *(1) .
  show "lookup w' (path_key t @ rel) =
       (case lookup w (snap_key r i @ [dataPath] @ rel) of
          Some n \<Rightarrow> Some n | None \<Rightarrow> lookup w (path_key t @ rel))" if "rel \<noteq> []"
    using *(3) [OF that] by (simp only: append_assoc)
qed

lemma os_ReadDir_cong:
  assumes "fs_wf (os_fs w)" "fs_wf (os_fs w')"
    and "\<And>n. lookup w' (path_key s @ [n]) = lookup w (path_key s @ [n])"
    and "os_ReadDir s w = Inr es" "os_ReadDir s w' = Inr es'"
  shows "es' = es"
proof (rule map_sorted_distinct_set_unique [of fst])
  note e = os_ReadDir_entries [OF assms(1,4)] and e' = os_ReadDir_entries [OF assms(2,5)]
  show eq: "set es' = set es" using e(1) e'(1) assms(3) by auto
  show "inj_on fst (set es' \<union> set es)" using e(2) unfolding eq by (simp add: distinct_map)
  show "sorted (map fst es')" "distinct (map fst es')" "sorted (map fst es)" "distinct (map fst es)"
    using e(2,3) e'(2,3) by auto
qed

lemma GetSnapshotById_kept:
  assumes "os_ok w" "os_ok w'" "simple_name j"
    and same: "\<And>q. prefix (snap_key r j) q \<Longrightarrow> lookup w' q = lookup w q"
    and "GetSnapshotById r j w = Inr (Some s)" "GetSnapshotById r j w' = Inr g"
  shows "\<exists>s'. g = Some s' \<and> SourceVolumeId s' = SourceVolumeId s"
proof (cases g)
  case None
  then have "lookup w' (snap_key r j) = None"
    using GetSnapshotById_None [OF assms(2,3)] assms(6) by simp
  then show ?thesis
    using same [of "snap_key r j"] GetSnapshotById_Some(3) [OF assms(5)] assms(3) by simp
next
  case (Some s')
  have 1: "getSourceVolumeId r j w = Inr (SourceVolumeId s)"
    and 2: "getSourceVolumeId r j w' = Inr (SourceVolumeId s')"
    using GetSnapshotById_Some(4) assms(5,6) Some by blast+
  obtain es es' where es: "os_ReadDir (Join [r_path r, j]) w = Inr es"
      "first_source es = Some (SourceVolumeId s)"
    and es': "os_ReadDir (Join [r_path r, j]) w' = Inr es'"
      "first_source es' = Some (SourceVolumeId s')"
    using 1 2 by (auto simp: getSourceVolumeId_def split: sum.splits option.splits)
  have "es' = es"
    using os_okD [OF assms(1)] os_okD [OF assms(2)] _ es(1) es'(1)
    by (rule os_ReadDir_cong) (simp add: assms(3) same)
  then show ?thesis using es(2) es'(2) Some by simp
qed

section \<open>A copy program with the documented behaviour\<close>

definition cp_entries :: "fs \<Rightarrow> path \<Rightarrow> path \<Rightarrow> fs" where
  "cp_entries f s d = map (\<lambda>(p, n). (d @ drop (length s) p, n)) (filter (\<lambda>(p, n). strict_prefix s p) f)"

definition cp_conflict :: "fs \<Rightarrow> fs \<Rightarrow> bool" where
  \<comment> \<open>a directory would replace a file, or a file a directory\<close>
  "cp_conflict f new =
     list_ex (\<lambda>(q, n). case fs_lookup f q of
                         Some m \<Rightarrow> (m = Directory) \<noteq> (n = Directory)
                       | None \<Rightarrow> False) new"

definition cp_rp :: copier where
  "cp_rp src dst w =
     (let s = path_key src; d = path_key dst; new = cp_entries (os_fs w) s d in
      if suffix ''/.'' src \<and> lookup w s = Some Directory \<and> lookup w d = Some Directory \<and>
         \<not> prefix s d \<and> \<not> cp_conflict (os_fs w) new
      then (None, w\<lparr>os_fs := foldl (\<lambda>f (q, n). gomap_put f q n) (os_fs w) new\<rparr>)
      else (Some (ErrorString ''exit status 1''), w))"

lemma map_of_cp_entries: "map_of (cp_entries f s d) (d @ rel) = (if rel = [] then None else map_of f (s @ rel))"
proof (induction f)
  case (Cons e f)
  obtain p n where e: "e = (p, n)" by (cases e)
  have *: "(d @ drop (length s) p = d @ rel) = (p = s @ rel)" if "prefix s p"
    using that by (auto elim!: prefixE)
  show ?case
  proof (cases "strict_prefix s p")
    case True
    then have "cp_entries (e # f) s d = (d @ drop (length s) p, n) # cp_entries f s d"
      by (simp add: e cp_entries_def)
    then show ?thesis using True * Cons by (auto simp: e strict_prefix_def)
  next
    case False
    then have "cp_entries (e # f) s d = cp_entries f s d" by (simp add: e cp_entries_def)
    moreover have "p \<noteq> s @ rel" if "rel \<noteq> []" using False that by (auto simp: strict_prefix_def)
    ultimately show ?thesis using Cons by (auto simp: e)
  qed
qed (simp add: cp_entries_def)

lemma cp_entries_key: "q \<in> fst ` set (cp_entries f s d) \<Longrightarrow> \<exists>rel. q = d @ rel"
  by (auto simp: cp_entries_def)

lemma map_of_puts:
  "map_of (foldl (\<lambda>f (q, n). gomap_put f q n) f new) q =
     (case map_of (rev new) q of Some n \<Rightarrow> Some n | None \<Rightarrow> map_of f q)"
  by (induction new rule: rev_induct) (auto split: option.splits)

lemma gomap_wf_puts: "gomap_wf f \<Longrightarrow> gomap_wf (foldl (\<lambda>f (q, n). gomap_put f q n) f new)"
  by (induction new arbitrary: f) (auto intro: gomap_wf_put)

lemma map_of_rev_distinct: "distinct (map fst xs) \<Longrightarrow> map_of (rev xs) = map_of xs"
  by (rule map_of_inject_set [THEN iffD2]) (auto simp: rev_map [symmetric])

lemma cp_lookup:
  assumes "distinct (map fst f)"
  shows "map_of (foldl (\<lambda>f (q, n). gomap_put f q n) f (cp_entries f s d)) (d @ rel) =
           (case (if rel = [] then None else map_of f (s @ rel)) of Some n \<Rightarrow> Some n | None \<Rightarrow> map_of f (d @ rel))"
    and "\<not> prefix d q \<Longrightarrow>
         map_of (foldl (\<lambda>f (q, n). gomap_put f q n) f (cp_entries f s d)) q = map_of f q"
proof -
  have rev: "rev (cp_entries f s d) = cp_entries (rev f) s d"
    by (simp add: cp_entries_def rev_map rev_filter)
  show "map_of (foldl (\<lambda>f (q, n). gomap_put f q n) f (cp_entries f s d)) (d @ rel) =
           (case (if rel = [] then None else map_of f (s @ rel)) of Some n \<Rightarrow> Some n | None \<Rightarrow> map_of f (d @ rel))"
    by (simp add: map_of_puts rev map_of_cp_entries map_of_rev_distinct [OF assms])
  assume "\<not> prefix d q"
  then have "q \<notin> fst ` set (cp_entries (rev f) s d)"
    using cp_entries_key [of q "rev f" s d] prefixI by blast
  then have "map_of (cp_entries (rev f) s d) q = None" by (simp add: map_of_eq_None_iff)
  then show "map_of (foldl (\<lambda>f (q, n). gomap_put f q n) f (cp_entries f s d)) q = map_of f q"
    by (simp add: map_of_puts rev)
qed

lemma cp_no_conflict:
  assumes "distinct (map fst f)" "\<not> cp_conflict f (cp_entries f s d)" "rel \<noteq> []"
    "map_of f (s @ rel) = Some n" "map_of f (d @ rel) = Some Directory"
  shows "n = Directory"
proof -
  have "map_of (cp_entries f s d) (d @ rel) = Some n" using assms(3,4) by (simp add: map_of_cp_entries)
  then have "(d @ rel, n) \<in> set (cp_entries f s d)" by (rule map_of_SomeD)
  then show ?thesis
    using assms(2,3,5) by (fastforce simp: cp_conflict_def list_ex_iff fs_lookup_def)
qed

lemma cp_keeps_directories:
  assumes "distinct (map fst f)" "\<not> cp_conflict f (cp_entries f s d)" "fs_lookup f q = Some Directory"
  shows "fs_lookup (foldl (\<lambda>f (q, n). gomap_put f q n) f (cp_entries f s d)) q = Some Directory"
proof (cases "q = [] \<or> \<not> prefix d q")
  case True
  then show ?thesis using assms(3) cp_lookup(2) [OF assms(1), of d q s] by (auto simp: fs_lookup_def)
next
  case False
  then obtain rel where q: "q = d @ rel" "q \<noteq> []" by (auto elim: prefixE)
  then have "map_of f (d @ rel) = Some Directory" using assms(3) by (simp add: fs_lookup_def split: if_splits)
  then show ?thesis
    using cp_lookup(1) [OF assms(1), of s d rel] cp_no_conflict [OF assms(1,2), of rel] q
    by (auto simp: fs_lookup_def split: option.splits if_splits)
qed

lemma cp_wf:
  assumes wf: "fs_wf f" and "\<not> cp_conflict f (cp_entries f s d)"
    and d: "fs_lookup f d = Some Directory"
  shows "fs_wf (foldl (\<lambda>f (q, n). gomap_put f q n) f (cp_entries f s d))" (is "fs_wf ?g")
proof -
  have dist: "distinct (map fst f)" using wf by (simp add: fs_wf_def)
  note keep = cp_keeps_directories [OF dist assms(2)]
  have "distinct (map fst ?g)" using gomap_wf_puts [of f "cp_entries f s d"] dist by (simp add: gomap_wf_def)
  moreover have "p \<noteq> [] \<and> (\<forall>c \<in> set p. simple_name c) \<and> fs_lookup ?g (butlast p) = Some Directory"
    if "p \<in> fst ` set ?g" for p
  proof (cases "map_of f p")
    case (Some n)
    then have "p \<in> fst ` set f" using map_of_SomeD by force
    then show ?thesis using wf keep by (auto simp: fs_wf_def)
  next
    case None
    have "map_of ?g p \<noteq> None" using that by (simp add: map_of_eq_None_iff)
    then have pre: "prefix d p" using cp_lookup(2) [OF dist, of d p s] None by (cases "prefix d p") simp_all
    then obtain rel where p: "p = d @ rel" by (auto elim: prefixE)
    then obtain n where rel: "rel \<noteq> []" and n: "map_of f (s @ rel) = Some n"
      using cp_lookup(1) [OF dist, of s d rel] None \<open>map_of ?g p \<noteq> None\<close>
      by (auto split: if_splits option.splits)
    have fn: "fs_lookup f (s @ rel) = Some n" using n rel by (simp add: fs_lookup_def)
    then have "fs_lookup f (s @ butlast rel) = Some Directory"
      using fs_wf_parent(1) [OF wf, of "s @ butlast rel" "last rel" n] rel by simp
    then have "fs_lookup ?g (d @ butlast rel) = Some Directory"
      using cp_lookup(1) [OF dist, of s d "butlast rel"] keep [OF d]
      by (cases "butlast rel = []") (simp_all add: fs_lookup_def)
    moreover have "\<forall>c \<in> set p. simple_name c"
      using fs_wf_simple [OF wf d] fs_wf_simple [OF wf fn] p by auto
    ultimately show ?thesis using p rel by (simp add: butlast_append)
  qed
  ultimately show ?thesis unfolding fs_wf_def by blast
qed

lemma cp_rp_spec: "cp_spec cp_rp"
  unfolding cp_spec_def
proof (intro allI impI)
  fix src dst w r w'
  assume run: "cp_rp src dst w = (r, w')" and wf: "fs_wf (os_fs w)"
  let ?s = "path_key src" and ?d = "path_key dst"
  let ?new = "cp_entries (os_fs w) ?s ?d"
  have dist: "distinct (map fst (os_fs w))" using wf by (simp add: fs_wf_def)
  show "fs_wf (os_fs w') \<and> same_env w w' \<and>
     (\<forall>q. \<not> prefix ?d q \<longrightarrow> lookup w' q = lookup w q) \<and>
     (\<forall>q. lookup w q = Some Directory \<longrightarrow> lookup w' q = Some Directory) \<and>
     (r = None \<and> suffix ''/.'' src \<and> lookup w ?d = Some Directory \<longrightarrow>
        lookup w ?s = Some Directory \<and> \<not> prefix ?s ?d \<and>
        (\<forall>rel. rel \<noteq> [] \<longrightarrow> lookup w' (?d @ rel) =
           (case lookup w (?s @ rel) of Some n \<Rightarrow> Some n | None \<Rightarrow> lookup w (?d @ rel))))"
  proof (cases r)
    case (Some e)
    then have "w' = w" using run by (auto simp: cp_rp_def Let_def split: if_splits)
    then show ?thesis using wf Some by simp
  next
    case None
    then have c: "\<not> cp_conflict (os_fs w) ?new" and s: "lookup w ?s = Some Directory"
      and d: "lookup w ?d = Some Directory" and nd: "\<not> prefix ?s ?d"
      and w': "w' = w\<lparr>os_fs := foldl (\<lambda>f (q, n). gomap_put f q n) (os_fs w) ?new\<rparr>"
      using run by (auto simp: cp_rp_def Let_def split: if_splits)
    have "\<forall>q. \<not> prefix ?d q \<longrightarrow> lookup w' q = lookup w q"
      using cp_lookup(2) [OF dist] by (simp add: w' fs_lookup_def)
    moreover have "\<forall>rel. rel \<noteq> [] \<longrightarrow> lookup w' (?d @ rel) =
           (case lookup w (?s @ rel) of Some n \<Rightarrow> Some n | None \<Rightarrow> lookup w (?d @ rel))"
      using cp_lookup(1) [OF dist] by (simp add: w' fs_lookup_def split: option.splits)
    ultimately show ?thesis
      using s nd cp_wf [OF wf c d] cp_keeps_directories [OF dist c] by (simp add: w' same_env_def)
  qed
qed

section \<open>The contract of a snapshot provider\<close>

text \<open>
  What the CSI controller relies on. \<open>vid\<close> and \<open>vsrc\<close> are the snapshot and volume names the
  provider supports. A read may still fail, so the laws speak of the reads that succeed.
\<close>

locale snapshot_store =
  fixes provider :: snapshot_provider
    and inv :: "os \<Rightarrow> bool"
    and vid :: "string \<Rightarrow> bool"
    and vsrc :: "string \<Rightarrow> bool"
  assumes init_inv: "inv w \<Longrightarrow> sp_Initialize provider w = (e, w') \<Longrightarrow> inv w'"
    and create_inv: "inv w \<Longrightarrow> sp_CreateSnapshot provider i v w = (c, w') \<Longrightarrow> inv w'"
    and delete_inv: "inv w \<Longrightarrow> sp_DeleteSnapshot provider i w = (e, w') \<Longrightarrow> inv w'"
    and restore_inv: "inv w \<Longrightarrow> sp_RestoreSnapshot provider i t w = (e, w') \<Longrightarrow> inv w'"
    and get_id: "sp_GetSnapshotById provider i w = Inr (Some s) \<Longrightarrow> SnapshotId s = i"
    and create_result: "inv w \<Longrightarrow> vid i \<Longrightarrow> vsrc v \<Longrightarrow> sp_GetSnapshotById provider i w = Inr None \<Longrightarrow>
        sp_CreateSnapshot provider i v w = (Inr s, w') \<Longrightarrow> SnapshotId s = i \<and> SourceVolumeId s = v"
    and create_get: "inv w \<Longrightarrow> vid i \<Longrightarrow> vsrc v \<Longrightarrow> sp_GetSnapshotById provider i w = Inr None \<Longrightarrow>
        sp_CreateSnapshot provider i v w = (Inr s, w') \<Longrightarrow> sp_GetSnapshotById provider i w' = Inr g \<Longrightarrow>
        \<exists>s'. g = Some s' \<and> SourceVolumeId s' = v"
    and delete_get: "inv w \<Longrightarrow> vid i \<Longrightarrow> sp_DeleteSnapshot provider i w = (None, w') \<Longrightarrow>
        sp_GetSnapshotById provider i w' = Inr g \<Longrightarrow> g = None"
    and delete_other: "inv w \<Longrightarrow> vid i \<Longrightarrow> vid j \<Longrightarrow> i \<noteq> j \<Longrightarrow> sp_DeleteSnapshot provider i w = (e, w') \<Longrightarrow>
        sp_GetSnapshotById provider j w = Inr (Some s) \<Longrightarrow> sp_GetSnapshotById provider j w' = Inr g \<Longrightarrow>
        \<exists>s'. g = Some s' \<and> SourceVolumeId s' = SourceVolumeId s"
    and all_get: "sp_GetAllSnapshots provider w = Ok ss \<Longrightarrow> s \<in> set ss \<Longrightarrow>
        sp_GetSnapshotById provider (SnapshotId s) w = Inr (Some s)"
    and by_source: "sp_GetSnapshotsByVolumeSourceId provider v w = Ok ss \<Longrightarrow>
        \<exists>all. sp_GetAllSnapshots provider w = Ok all \<and> ss = filter (\<lambda>s. SourceVolumeId s = v) all"
begin

lemma by_source_get:
  assumes "sp_GetSnapshotsByVolumeSourceId provider v w = Ok ss" "s \<in> set ss"
  shows "SourceVolumeId s = v" and "sp_GetSnapshotById provider (SnapshotId s) w = Inr (Some s)"
  using by_source [OF assms(1)] all_get assms(2) by auto

lemma create_delete_get:
  assumes "inv w" "vid i" "sp_CreateSnapshot provider i v w = (c, w1)"
    "sp_DeleteSnapshot provider i w1 = (None, w2)" "sp_GetSnapshotById provider i w2 = Inr g"
  shows "g = None"
  using create_inv [OF assms(1,3)] assms(2,4,5) by (rule delete_get)

end

lemma all_snapshots_get:
  "all_snapshots r es acc w = Ok ss \<Longrightarrow> s \<in> set ss \<Longrightarrow>
     s \<in> set acc \<or> (\<exists>i. GetSnapshotById r i w = Inr (Some s))"
proof (induction r es acc w rule: all_snapshots.induct)
  case (2 r e es acc w)
  then show ?case by (auto split: if_splits sum.splits option.splits)
qed simp

interpretation reflink: snapshot_store "reflink_provider cp r"
    "\<lambda>w. os_ok w \<and> cp_spec cp \<and> r_path r \<noteq> []" simple_name "\<lambda>v. simple_name v \<and> v \<noteq> dataPath"
  for cp r
proof (unfold_locales, goal_cases)
  case (1 w e w')
  then have "os_MkdirAll (r_path r) w = (e, w')"
    by (simp add: reflink_provider_def Reflink_Initialize_def ensurePathExists_def)
  then show ?case using os_ok_env os_MkdirAll_env os_MkdirAll_wf os_okD 1 by blast
next
  case (2 w i v c w') then show ?case using CreateSnapshot_env(1) by (auto simp: reflink_provider_def)
next
  case (3 w i e w') then show ?case using DeleteSnapshot_env(1) by (auto simp: reflink_provider_def)
next
  case (4 w i t e w') then show ?case using RestoreSnapshot_env(1) by (auto simp: reflink_provider_def)
next
  case (5 i w s) then show ?case using GetSnapshotById_Some(1) by (simp add: reflink_provider_def)
next
  case (6 w i v s w')
  then show ?case using CreateSnapshot_fresh(1,2) [of cp w r i v s w'] GetSnapshotById_None [of w i r]
    by (simp add: reflink_provider_def)
next
  case (7 w i v s w' g)
  then have ok: "os_ok w'" and fresh: "lookup w (snap_key r i) = None"
    and run: "Reflink_CreateSnapshot cp r i v w = (Inr s, w')" and g: "GetSnapshotById r i w' = Inr g"
    using CreateSnapshot_env(1) GetSnapshotById_None by (auto simp: reflink_provider_def)
  have dirs: "lookup w' (snap_key r i @ [m]) = Some nd \<longleftrightarrow> (m = dataPath \<or> m = v) \<and> nd = Directory" for m nd
    by (rule CreateSnapshot_fresh(3) [OF _ _ _ _ _ fresh run]) (use 7 in simp_all)
  have "lookup w' (snap_key r i) = Some Directory"
    using fs_wf_parent(1) [OF os_okD [OF ok], of "snap_key r i" v] dirs by simp
  then obtain s' where s': "g = Some s'"
    using GetSnapshotById_None [OF ok, of i r] 7 g by (cases g) auto
  then have "getSourceVolumeId r i w' = Inr (SourceVolumeId s')" using GetSnapshotById_Some(4) g by simp
  then show ?case
    using getSourceVolumeId_marker [OF os_okD [OF ok], of i r "SourceVolumeId s'"] 7 s'
      dirs [of "SourceVolumeId s'" Directory] by simp
next
  case (8 w i w' g)
  then show ?case
    using DeleteSnapshot_ok [of w i r w' "snap_key r i"] GetSnapshotById_no_dir [of w' r i g]
    by (simp add: reflink_provider_def)
next
  case (9 w i j e w' s g)
  then have run: "Reflink_DeleteSnapshot r i w = (e, w')" and "os_ok w"
    and s: "GetSnapshotById r j w = Inr (Some s)" and g: "GetSnapshotById r j w' = Inr g"
    by (simp_all add: reflink_provider_def)
  note env = DeleteSnapshot_env [OF \<open>os_ok w\<close> run]
  have "lookup w' q = lookup w q" if "prefix (snap_key r j) q" for q
  proof -
    have "\<not> prefix (snap_key r i) q"
      using that 9 prefix_same_cases [of "snap_key r i" q "snap_key r j"] by auto
    then show ?thesis using env(3) 9 by blast
  qed
  then show ?case using GetSnapshotById_kept [OF \<open>os_ok w\<close> env(1) _ _ s g] 9 by blast
next
  case (10 w ss s)
  then obtain i where "GetSnapshotById r i w = Inr (Some s)"
    using all_snapshots_get [of r _ "[]" w ss s]
    by (auto simp: reflink_provider_def GetAllSnapshots_def split: sum.splits)
  then show ?case using GetSnapshotById_Some(1) by (fastforce simp: reflink_provider_def)
next
  case (11 v w ss)
  then show ?case
    by (auto simp: reflink_provider_def GetSnapshotsByVolumeSourceId_def split: outcome.splits)
qed

end
