(* ===== verification/Hostpath_Config.thy ===== *)
theory Hostpath_Config
  imports Reflink
begin

text \<open>
  The driver configuration (\<open>Config\<close> in \<open>pkg/hostpath/hostpath.go\<close>), the mount interface it holds
  (\<open>mount.Interface\<close>, a record of the methods the driver calls), the check for mount points
  of the vendored \<open>k8s.io/utils/mount\<close>, and its in-memory mounter \<open>FakeMounter\<close>. The locale
  \<open>mount_service\<close> is what the node server relies on.
\<close>

section \<open>Mounts\<close>

record mounter =
  mt_Mount :: "string \<Rightarrow> string \<Rightarrow> string \<Rightarrow> string list \<Rightarrow> os \<Rightarrow> go_error option \<times> os"
  mt_Unmount :: "string \<Rightarrow> os \<Rightarrow> go_error option \<times> os"
  mt_List :: "os \<Rightarrow> go_error + MountPoint list"
  mt_IsLikelyNotMountPoint :: "string \<Rightarrow> os \<Rightarrow> go_error + bool"

definition EvalSymlinks :: "string \<Rightarrow> os \<Rightarrow> go_error + string" where
  \<comment> \<open>\<open>filepath.EvalSymlinks\<close> in a tree without symbolic links\<close>
  "EvalSymlinks path w =
     (case os_Stat path w of
        Inl (PathError _ p e) \<Rightarrow> Inl (PathError ''lstat'' p e)
      | Inl e \<Rightarrow> Inl e
      | Inr _ \<Rightarrow> Inr (Clean path))"

definition isMountPointMatch :: "MountPoint \<Rightarrow> string \<Rightarrow> bool" where
  "isMountPointMatch mp dir \<longleftrightarrow> mp_Path mp = dir \<or> mp_Path mp = dir @ [CHR 0x5C] @ ''040(deleted)''"

definition IsNotMountPoint :: "mounter \<Rightarrow> string \<Rightarrow> os \<Rightarrow> go_error + bool" where
  "IsNotMountPoint mounter file w =
     (let check_list =
        (case EvalSymlinks file w of
           Inl err \<Rightarrow> Inl err
         | Inr resolvedFile \<Rightarrow>
             (case mt_List mounter w of
                Inl err \<Rightarrow> Inl err
              | Inr mountPoints \<Rightarrow> Inr (\<not> list_ex (\<lambda>mp. isMountPointMatch mp resolvedFile) mountPoints)))
      in case mt_IsLikelyNotMountPoint mounter file w of
           Inl notMntErr \<Rightarrow> if IsPermission notMntErr then check_list else Inl notMntErr
         | Inr notMnt \<Rightarrow> if \<not> notMnt then Inr False else check_list)"

section \<open>The in-memory mounter\<close>

fun bind_source :: "MountPoint list \<Rightarrow> string \<Rightarrow> string" where
  "bind_source [] source = source"
| "bind_source (mnt # ms) source = (if source = mp_Path mnt then mp_Device mnt else bind_source ms source)"

fun mount_options :: "MountPoint list \<Rightarrow> string list \<Rightarrow> string \<Rightarrow> string list \<Rightarrow> string \<times> string list" where
  "mount_options mps [] source opts = (source, opts)"
| "mount_options mps (option # os') source opts =
     mount_options mps os' (if option = ''bind'' then bind_source mps source else source) (opts @ [option])"

definition FakeMounter_Mount :: "string \<Rightarrow> string \<Rightarrow> string \<Rightarrow> string list \<Rightarrow> os \<Rightarrow> go_error option \<times> os" where
  "FakeMounter_Mount source target fstype options w =
     (let (source', opts) = mount_options (os_mounts w) options source [];
          absTarget = (case EvalSymlinks target w of Inl _ \<Rightarrow> target | Inr t \<Rightarrow> t)
      in (None, w\<lparr>os_mounts := os_mounts w @
                   [\<lparr>mp_Device = source', mp_Path = absTarget, mp_Type = fstype, mp_Opts = opts\<rparr>]\<rparr>))"

definition FakeMounter_Unmount :: "string \<Rightarrow> os \<Rightarrow> go_error option \<times> os" where
  \<comment> \<open>without an \<open>UnmountFunc\<close>; the options of the mounts that stay are dropped\<close>
  "FakeMounter_Unmount target w =
     (let absTarget = (case EvalSymlinks target w of Inl _ \<Rightarrow> target | Inr t \<Rightarrow> t)
      in (None, w\<lparr>os_mounts :=
            map (\<lambda>mp. mp\<lparr>mp_Opts := []\<rparr>) (filter (\<lambda>mp. mp_Path mp \<noteq> absTarget) (os_mounts w))\<rparr>))"

definition FakeMounter_List :: "os \<Rightarrow> go_error + MountPoint list" where
  "FakeMounter_List w = Inr (os_mounts w)"

definition FakeMounter_IsLikelyNotMountPoint :: "string \<Rightarrow> os \<Rightarrow> go_error + bool" where
  \<comment> \<open>without \<open>MountCheckErrors\<close>\<close>
  "FakeMounter_IsLikelyNotMountPoint file w =
     (case os_Stat file w of
        Inl err \<Rightarrow> Inl err
      | Inr _ \<Rightarrow>
          (let absFile = (case EvalSymlinks file w of Inl _ \<Rightarrow> file | Inr f \<Rightarrow> f)
           in Inr (\<not> list_ex (\<lambda>mp. mp_Path mp = absFile) (os_mounts w))))"

definition FakeMounter :: mounter where
  "FakeMounter =
     \<lparr>mt_Mount = FakeMounter_Mount, mt_Unmount = FakeMounter_Unmount, mt_List = FakeMounter_List,
      mt_IsLikelyNotMountPoint = FakeMounter_IsLikelyNotMountPoint\<rparr>"

section \<open>Configuration\<close>

record Config =
  cfg_DriverName :: string
  cfg_Endpoint :: string
  cfg_NodeID :: string
  cfg_StoragePoolInfo :: pools
  cfg_DefaultStoragePoolName :: string
  cfg_Version :: string
  cfg_Mounter :: "mounter option"

definition TopologyKeyNode :: string where "TopologyKeyNode = ''topology.hostpath.csi/node''"

section \<open>The contract of a mounter\<close>

text \<open>
  What the node server relies on: mounting and unmounting change the mount table only, \<open>Mount\<close>
  adds an entry for the resolved target with the given options (for a bind mount of something
  that is itself a mount point the kernel records the device below it), \<open>Unmount\<close> removes the
  entries of the target, and the quick check tells a missing target apart. This is how the in-memory
  mounter records mounts. The table that a Linux kernel shows differs: it lists the options and the
  device of the underlying file system for a bind mount, and when mounts are stacked on one target
  \<open>umount\<close> takes away the topmost only.
\<close>

locale mount_service =
  fixes mnt :: mounter
  assumes mount_only: "mt_Mount mnt s t f opts w = (e, w') \<Longrightarrow> w' = w\<lparr>os_mounts := os_mounts w'\<rparr>"
    and mount_ok: "mt_Mount mnt s t f opts w = (None, w') \<Longrightarrow> os_Stat t w = Inr n \<Longrightarrow>
        \<exists>mp. os_mounts w' = os_mounts w @ [mp] \<and> mp_Path mp = Clean t \<and> mp_Type mp = f \<and> mp_Opts mp = opts \<and>
             (s \<notin> mp_Path ` set (os_mounts w) \<longrightarrow> mp_Device mp = s)"
    and unmount_only: "mt_Unmount mnt t w = (e, w') \<Longrightarrow> w' = w\<lparr>os_mounts := os_mounts w'\<rparr>"
    and unmount_ok: "mt_Unmount mnt t w = (None, w') \<Longrightarrow> os_Stat t w = Inr n \<Longrightarrow>
        mp_Path ` set (os_mounts w') = mp_Path ` set (os_mounts w) - {Clean t}"
    and list_mounts: "mt_List mnt w = Inr ms \<Longrightarrow> ms = os_mounts w"
    and likely_stat: "mt_IsLikelyNotMountPoint mnt t w = Inr b \<Longrightarrow> \<exists>n. os_Stat t w = Inr n"
    and likely_mounted: "mt_IsLikelyNotMountPoint mnt t w = Inr False \<Longrightarrow>
        \<exists>mp \<in> set (os_mounts w). mp_Path mp = Clean t"
    and likely_missing: "mt_IsLikelyNotMountPoint mnt t w = Inl err \<Longrightarrow> IsNotExist err \<Longrightarrow>
        \<exists>err'. os_Stat t w = Inl err' \<and> IsNotExist err'"
    and list_found: "mt_List mnt w = Inl err \<Longrightarrow> \<not> IsNotExist err"
begin

lemma IsNotMountPoint_Inr:
  assumes "IsNotMountPoint mnt t w = Inr b"
  shows "b \<longleftrightarrow> \<not> list_ex (\<lambda>mp. isMountPointMatch mp (Clean t)) (os_mounts w)" and "\<exists>n. os_Stat t w = Inr n"
proof -
  have "(b \<longleftrightarrow> \<not> list_ex (\<lambda>mp. isMountPointMatch mp (Clean t)) (os_mounts w)) \<and> (\<exists>n. os_Stat t w = Inr n)"
  proof (cases "mt_IsLikelyNotMountPoint mnt t w = Inr False")
    case True
    then show ?thesis
      using assms likely_mounted [OF True] likely_stat [OF True]
      by (auto simp: IsNotMountPoint_def list_ex_iff isMountPointMatch_def)
  next
    case False
    then obtain p ms where p: "EvalSymlinks t w = Inr p" and ms: "mt_List mnt w = Inr ms"
      and b: "b \<longleftrightarrow> \<not> list_ex (\<lambda>mp. isMountPointMatch mp p) ms"
      using assms by (auto simp: IsNotMountPoint_def Let_def split: sum.splits if_splits)
    then show ?thesis
      using list_mounts [OF ms] by (auto simp: EvalSymlinks_def split: sum.splits go_error.splits)
  qed
  then show "b \<longleftrightarrow> \<not> list_ex (\<lambda>mp. isMountPointMatch mp (Clean t)) (os_mounts w)" and "\<exists>n. os_Stat t w = Inr n"
    by blast+
qed

lemma IsNotMountPoint_missing:
  assumes "IsNotMountPoint mnt t w = Inl e" "IsNotExist e"
  shows "\<exists>e'. os_Stat t w = Inl e' \<and> IsNotExist e'"
proof (cases "mt_IsLikelyNotMountPoint mnt t w = Inl e")
  case True
  then show ?thesis using likely_missing assms(2) by blast
next
  case False
  then have "EvalSymlinks t w = Inl e"
    using assms list_found [of w e] by (auto simp: IsNotMountPoint_def Let_def split: sum.splits if_splits)
  then show ?thesis using assms(2) by (auto simp: EvalSymlinks_def split: sum.splits go_error.splits)
qed

end

lemma mount_options_opts: "snd (mount_options mps os' s opts) = opts @ os'"
  by (induction mps os' s opts rule: mount_options.induct) auto

lemma bind_source_other: "s \<notin> mp_Path ` set mps \<Longrightarrow> bind_source mps s = s"
  by (induction mps s rule: bind_source.induct) auto

lemma mount_options_source: "s \<notin> mp_Path ` set mps \<Longrightarrow> fst (mount_options mps os' s opts) = s"
  by (induction mps os' s opts rule: mount_options.induct) (auto simp: bind_source_other)

lemma EvalSymlinks_stat: "os_Stat t w = Inr n \<Longrightarrow> EvalSymlinks t w = Inr (Clean t)"
  by (simp add: EvalSymlinks_def)

interpretation fake: mount_service FakeMounter
proof (unfold_locales, goal_cases)
  case 1 then show ?case by (auto simp: FakeMounter_def FakeMounter_Mount_def Let_def split_def)
next
  case (2 s t f opts w w' n)
  then show ?case
    by (auto simp: FakeMounter_def FakeMounter_Mount_def Let_def split_def mount_options_opts
        mount_options_source EvalSymlinks_stat)
next
  case 3 then show ?case by (auto simp: FakeMounter_def FakeMounter_Unmount_def Let_def)
next
  case (4 t w w' n)
  then show ?case
    by (auto simp: FakeMounter_def FakeMounter_Unmount_def Let_def EvalSymlinks_stat image_image)
next
  case 5 then show ?case by (simp add: FakeMounter_def FakeMounter_List_def)
next
  case (6 t w b)
  then show ?case by (auto simp: FakeMounter_def FakeMounter_IsLikelyNotMountPoint_def split: sum.splits)
next
  case (7 t w)
  then show ?case
    by (auto simp: FakeMounter_def FakeMounter_IsLikelyNotMountPoint_def EvalSymlinks_stat list_ex_iff Let_def
        split: sum.splits)
next
  case (8 t w e)
  then show ?case by (auto simp: FakeMounter_def FakeMounter_IsLikelyNotMountPoint_def Let_def split: sum.splits)
next
  case 9 then show ?case by (simp add: FakeMounter_def FakeMounter_List_def)
qed

end
