(* ===== verification/Controller_Server.thy ===== *)
theory Controller_Server
  imports Hostpath_Config
begin

text \<open>
  \<open>pkg/hostpath/controllerserver.go\<close>: the CSI controller service. A request pointer is an option
  (\<open>None\<close> is nil); the elements of repeated fields are not nil, as in a decoded message. Each
  handler is one step (those of snapshots hold \<open>snapMutex\<close>): it takes the state of the operating system and gives the
  response, error or panic together with the new state. What the code does to its own copy of
  the request (\<open>req.StartingToken = ...\<close>) is a local binding.
\<close>

section \<open>Requests and responses\<close>

datatype VolumeCapability =
    MountVolume string "string list"  \<comment> \<open>\<open>FsType\<close>, \<open>MountFlags\<close>\<close>
  | BlockVolume
  | NoAccessType

fun has_mount :: "VolumeCapability \<Rightarrow> bool" where
  \<comment> \<open>\<open>GetMount() != nil\<close>\<close>
  "has_mount (MountVolume _ _) = True"
| "has_mount _ = False"

type_synonym Topology = "(string, string) gomap"
type_synonym parameters = "(string, string) gomap"

record TopologyRequirement =
  Requisite :: "Topology list"
  Preferred :: "Topology list"

datatype VolumeContentSource =
    VCS_Snapshot "string option"  \<comment> \<open>the snapshot id, \<open>None\<close> for a nil snapshot\<close>
  | VCS_Volume string
  | VCS_None

record CreateVolumeRequest =
  cv_Name :: string
  cv_VolumeCapabilities :: "VolumeCapability list option"
  cv_Parameters :: parameters
  cv_VolumeContentSource :: "VolumeContentSource option"
  cv_AccessibilityRequirements :: "TopologyRequirement option"

record csi_Volume =
  v_VolumeId :: string
  v_CapacityBytes :: int64
  v_VolumeContext :: parameters
  v_ContentSource :: "VolumeContentSource option"
  v_AccessibleTopology :: "Topology list"

record ValidateRequest =
  vr_VolumeId :: string
  vr_VolumeCapabilities :: "VolumeCapability list"
  vr_VolumeContext :: parameters
  vr_Parameters :: parameters

record GetCapacityResponse =
  AvailableCapacity :: int64
  MaximumVolumeSize :: int64
  MinimumVolumeSize :: int64

record ListVolumesRequest =
  lv_MaxEntries :: int
  lv_StartingToken :: string

record volume_entry =
  e_VolumeId :: string
  e_CapacityBytes :: int64
  e_PublishedNodeIds :: "string list"
  e_Abnormal :: bool
  e_Message :: string

record ListVolumesResponse =
  lv_Entries :: "volume_entry list"
  lv_NextToken :: string

record CreateSnapshotRequest =
  cs_Name :: string
  cs_SourceVolumeId :: string
  cs_Parameters :: parameters

record ListSnapshotsRequest =
  ls_MaxEntries :: int
  ls_StartingToken :: string
  ls_SourceVolumeId :: string
  ls_SnapshotId :: string

record ListSnapshotsResponse =
  ls_Entries :: "csi_Snapshot list"
  ls_NextToken :: string

section \<open>The controller\<close>

record hostPathController =
  hpc_cfg :: Config
  hpc_snapshotproviders :: "(string, snapshot_provider) gomap"

fun new_providers :: "copier \<Rightarrow> string \<Rightarrow> pools \<Rightarrow> (string, snapshot_provider) gomap \<Rightarrow>
    (string, snapshot_provider) gomap outcome" where
  "new_providers cp node [] snapshotProviders = Ok snapshotProviders"
| "new_providers cp node ((storagePool, info) # ps) snapshotProviders =
     (case SnapshotProvider info of
        None \<Rightarrow> new_providers cp node ps snapshotProviders
      | Some p \<Rightarrow>
          if p = ReflinkProvider then
            (case SnapshotPath info of
               None \<Rightarrow> Panic nil_deref
             | Some sp \<Rightarrow>
                 new_providers cp node ps
                   (gomap_put snapshotProviders storagePool
                      (reflink_provider cp \<lparr>r_nodeName = node, r_path = sp, r_sourcePath = Path info\<rparr>)))
          else Panic (''Unsupported snapshot provider '' @ p @ '' for storage pool '' @ storagePool))"

definition NewHostPathController :: "copier \<Rightarrow> Config \<Rightarrow> hostPathController outcome" where
  \<comment> \<open>\<open>klog.Fatalf\<close> ends the process\<close>
  "NewHostPathController cp config =
     (case new_providers cp (cfg_NodeID config) (cfg_StoragePoolInfo config) [] of
        Ok sps \<Rightarrow> Ok \<lparr>hpc_cfg = config, hpc_snapshotproviders = sps\<rparr>
      | Err e \<Rightarrow> Err e
      | Panic m \<Rightarrow> Panic m)"

section \<open>Creating volumes\<close>

definition validateCreateVolumeRequest :: "CreateVolumeRequest option \<Rightarrow> go_error option" where
  "validateCreateVolumeRequest req =
     (case req of
        None \<Rightarrow> Some (StatusError InvalidArgument ''missing request'')
      | Some rq \<Rightarrow>
          if cv_Name rq = [] then Some (StatusError InvalidArgument ''name missing in request'')
          else (case cv_VolumeCapabilities rq of
                  None \<Rightarrow> Some (StatusError InvalidArgument ''volume capabilities missing in request'')
                | Some caps \<Rightarrow>
                    if \<not> list_ex has_mount caps
                    then Some (StatusError InvalidArgument ''must have mount access type'')
                    else None))"

definition topology_node :: "Topology \<Rightarrow> string" where
  "topology_node segments = gomap_get [] segments TopologyKeyNode"

definition validateCreateVolumeRequestTopology ::
    "hostPathController \<Rightarrow> CreateVolumeRequest \<Rightarrow> go_error option" where
  "validateCreateVolumeRequestTopology hpc rq =
     (case cv_AccessibilityRequirements rq of
        None \<Rightarrow> None
      | Some ar \<Rightarrow>
          if list_ex (\<lambda>t. topology_node t = cfg_NodeID (hpc_cfg hpc)) (Requisite ar) then None
          else if list_ex (\<lambda>t. topology_node t = cfg_NodeID (hpc_cfg hpc)) (Preferred ar) then None
          else Some (StatusError InvalidArgument ''not correct node''))"

definition getVolumeDirCapacity :: "string \<Rightarrow> os \<Rightarrow> go_error + int64" where
  "getVolumeDirCapacity path w =
     (case getPVStats path w of
        Inl err \<Rightarrow> Inl (StatusError Internal
          (''Unable to determine capacity for volume '' @ Base path @ '': '' @ error_msg err))
      | Inr st \<Rightarrow> Inr (roundDownCapacityPretty (pv_capacity st)))"

definition restoreFromSnapshot ::
    "hostPathController \<Rightarrow> string \<Rightarrow> string \<Rightarrow> string \<Rightarrow> os \<Rightarrow> go_error option \<times> os" where
  "restoreFromSnapshot hpc snapshotId pool targetVolume w =
     (case map_of (hpc_snapshotproviders hpc) pool of
        None \<Rightarrow> (Some (ErrorString
          (''unable to restore snapshot because unable to locate snapshot provider for storage pool '' @ pool)), w)
      | Some sp \<Rightarrow>
          sp_RestoreSnapshot sp snapshotId
            (Join [Path (pool_info (cfg_StoragePoolInfo (hpc_cfg hpc)) pool), targetVolume]) w)"

definition populate ::
    "hostPathController \<Rightarrow> string \<Rightarrow> CreateVolumeRequest \<Rightarrow> os \<Rightarrow> go_error option \<times> os" where
  \<comment> \<open>the part of \<open>CreateVolume\<close> that fills the volume from its content source\<close>
  "populate hpc pool rq w =
     (case cv_VolumeContentSource rq of
        Some (VCS_Snapshot (Some snapshotId)) \<Rightarrow>
          (case restoreFromSnapshot hpc snapshotId pool (cv_Name rq) w of
             (None, w') \<Rightarrow> (None, w')
           | (Some err, w') \<Rightarrow>
               (case DeleteVolume (Path (pool_info (cfg_StoragePoolInfo (hpc_cfg hpc)) pool)) (cv_Name rq) w' of
                  (Some derr, w'') \<Rightarrow> (Some (WrapError (''failed to delete restore '' @ cv_Name rq @ '': '') derr), w'')
                | (None, w'') \<Rightarrow> (Some err, w'')))
      | _ \<Rightarrow> (None, w))"

definition CreateVolume ::
    "hostPathController \<Rightarrow> CreateVolumeRequest option \<Rightarrow> os \<Rightarrow> csi_Volume outcome \<times> os" where
  "CreateVolume hpc req w =
     (case validateCreateVolumeRequest req of
        Some err \<Rightarrow> (Err err, w)
      | None \<Rightarrow>
     (case req of None \<Rightarrow> (Panic nil_deref, w) | Some rq \<Rightarrow>
     (case validateCreateVolumeRequestTopology hpc rq of
        Some err \<Rightarrow> (Err err, w)
      | None \<Rightarrow>
     (let pool = getStoragePoolNameFromMap (cv_Parameters rq);
          spi = cfg_StoragePoolInfo (hpc_cfg hpc);
          info = pool_info spi pool
      in if map_of spi pool = None
         then (Err (ErrorString (''unable to locate path for storage pool '' @ pool)), w)
         else
     (case getVolumeDirCapacity (Path info) w of
        Inl err \<Rightarrow> (Err err, w)
      | Inr capacity \<Rightarrow>
     (let topologies = (if \<not> Shared info then [[(TopologyKeyNode, cfg_NodeID (hpc_cfg hpc))]] else []);
          finish = (\<lambda>w1. case populate hpc pool rq w1 of
              (Some err, w2) \<Rightarrow> (Err err, w2)
            | (None, w2) \<Rightarrow>
                (Ok \<lparr>v_VolumeId = cv_Name rq, v_CapacityBytes = capacity,
                     v_VolumeContext = cv_Parameters rq, v_ContentSource = cv_VolumeContentSource rq,
                     v_AccessibleTopology = topologies\<rparr>, w2))
      in case checkPathExist (Join [Path info, cv_Name rq]) w of
           Inl err \<Rightarrow> (Err err, w)
         | Inr True \<Rightarrow> finish w
         | Inr False \<Rightarrow>
             (case CreateVolumeDirectory (Path info) (cv_Name rq) w of
                (Some err, w1) \<Rightarrow> (Err (WrapError (''failed to create volume '' @ cv_Name rq @ '': '') err), w1)
              | (None, w1) \<Rightarrow> finish w1)))))))"

section \<open>Deleting and inspecting volumes\<close>

definition validateDeleteVolumeRequest :: "string option \<Rightarrow> go_error option" where
  \<comment> \<open>a request is its \<open>VolumeId\<close>\<close>
  "validateDeleteVolumeRequest req =
     (case req of
        None \<Rightarrow> Some (StatusError InvalidArgument ''missing request'')
      | Some volumeId \<Rightarrow>
          if volumeId = [] then Some (StatusError InvalidArgument ''Volume ID missing in request'') else None)"

definition getVolumeDirectories :: "hostPathController \<Rightarrow> os \<Rightarrow> go_error + string list" where
  "getVolumeDirectories hpc w = getStoragePoolDataDirectories (cfg_StoragePoolInfo (hpc_cfg hpc)) w"

fun find_volume :: "string \<Rightarrow> string list \<Rightarrow> string \<Rightarrow> string" where
  \<comment> \<open>the loop that keeps the last directory with the given base name\<close>
  "find_volume volumeId [] volumePath = volumePath"
| "find_volume volumeId (volumeDir # ds) volumePath =
     find_volume volumeId ds (if Base volumeDir = volumeId then volumeDir else volumePath)"

definition DeleteVolume_rpc :: "hostPathController \<Rightarrow> string option \<Rightarrow> os \<Rightarrow> unit outcome \<times> os" where
  "DeleteVolume_rpc hpc req w =
     (case validateDeleteVolumeRequest req of
        Some err \<Rightarrow> (Err err, w)
      | None \<Rightarrow>
     (case getVolumeDirectories hpc w of
        Inl err \<Rightarrow> (Err err, w)
      | Inr volumeDirs \<Rightarrow>
     (let volumeId = (case req of Some i \<Rightarrow> i | None \<Rightarrow> []);
          volumePath = find_volume volumeId volumeDirs []
      in if volumePath \<noteq> []
         then (case DeleteVolume (Dir volumePath) volumeId w of
                 (Some err, w') \<Rightarrow>
                   (Err (ErrorString (''failed to delete volume '' @ volumeId @ '': '' @ error_msg err)), w')
               | (None, w') \<Rightarrow> (Ok (), w'))
         else (Ok (), w))))"

datatype controller_capability =
    CREATE_DELETE_VOLUME | GET_VOLUME | GET_CAPACITY | LIST_VOLUMES | CREATE_DELETE_SNAPSHOT
  | LIST_SNAPSHOTS | VOLUME_CONDITION

definition getControllerServiceCapabilities :: "controller_capability list" where
  "getControllerServiceCapabilities =
     [CREATE_DELETE_VOLUME, GET_VOLUME, GET_CAPACITY, LIST_VOLUMES, CREATE_DELETE_SNAPSHOT,
      LIST_SNAPSHOTS, VOLUME_CONDITION]"

definition ValidateVolumeCapabilities ::
    "hostPathController \<Rightarrow> ValidateRequest option \<Rightarrow> os \<Rightarrow>
       (parameters \<times> VolumeCapability list \<times> parameters) outcome" where
  "ValidateVolumeCapabilities hpc req w =
     (let volumeId = (case req of Some rq \<Rightarrow> vr_VolumeId rq | None \<Rightarrow> []) in
      if volumeId = [] then Err (StatusError InvalidArgument ''volume ID not provided'')
      else case req of None \<Rightarrow> Panic nil_deref | Some rq \<Rightarrow>
      if vr_VolumeCapabilities rq = []
      then Err (StatusError InvalidArgument (''volumeCapabilities not provided for '' @ volumeId))
      else if list_ex (\<lambda>c. \<not> has_mount c) (vr_VolumeCapabilities rq)
      then Err (StatusError InvalidArgument ''mount type is undefined'')
      else (let pool = getStoragePoolNameFromMap (vr_Parameters rq) in
            case checkPathExist (Join [Path (pool_info (cfg_StoragePoolInfo (hpc_cfg hpc)) pool), volumeId]) w of
              Inl err \<Rightarrow> Err err
            | Inr exists \<Rightarrow>
                if \<not> exists then Err (StatusError NotFound (''volume '' @ volumeId @ '' not found''))
                else Ok (vr_VolumeContext rq, vr_VolumeCapabilities rq, vr_Parameters rq)))"

definition ControllerPublishVolume :: "unit outcome" where
  "ControllerPublishVolume = Err (StatusError Unimplemented ''ControllerPublishVolume is not supported'')"

definition ControllerUnpublishVolume :: "unit outcome" where
  "ControllerUnpublishVolume = Err (StatusError Unimplemented ''ControllerUnpublishVolume is not supported'')"

definition ControllerExpandVolume :: "unit outcome" where
  "ControllerExpandVolume = Err (StatusError Unimplemented ''controllerExpandVolume is not supported'')"

definition ControllerModifyVolume :: "unit outcome" where
  "ControllerModifyVolume = Err (StatusError Unimplemented ''controllerModifyVolume is not supported'')"

definition GetCapacity ::
    "hostPathController \<Rightarrow> parameters option \<Rightarrow> os \<Rightarrow> GetCapacityResponse outcome" where
  \<comment> \<open>a request is its \<open>Parameters\<close>\<close>
  "GetCapacity hpc req w =
     (case req of
        None \<Rightarrow> Err (StatusError InvalidArgument ''missing request'')
      | Some params \<Rightarrow>
          (let pool = getStoragePoolNameFromMap params;
               spi = cfg_StoragePoolInfo (hpc_cfg hpc)
           in if map_of spi pool = None
              then Err (ErrorString (''unable to locate path for storage pool '' @ pool))
              else (case getPVStats (Path (pool_info spi pool)) w of
                      Inl err \<Rightarrow> Err err
                    | Inr st \<Rightarrow> Ok \<lparr>AvailableCapacity = pv_available st,
                                    MaximumVolumeSize = pv_capacity st, MinimumVolumeSize = 0\<rparr>)))"

section \<open>Listing volumes\<close>

definition validateListVolumesRequest :: "ListVolumesRequest option \<Rightarrow> go_error option" where
  "validateListVolumesRequest req =
     (case req of
        None \<Rightarrow> Some (StatusError InvalidArgument ''missing request'')
      | Some rq \<Rightarrow>
          if lv_MaxEntries rq < 0 then Some (StatusError InvalidArgument ''maxEntries < 0'') else None)"

fun pool_capacities :: "pools \<Rightarrow> (string, int64) gomap \<Rightarrow> os \<Rightarrow> go_error + (string, int64) gomap" where
  "pool_capacities [] capacityMap w = Inr capacityMap"
| "pool_capacities ((k, info) # ps) capacityMap w =
     (case getVolumeDirCapacity (Path info) w of
        Inl err \<Rightarrow> Inl err
      | Inr capacity \<Rightarrow> pool_capacities ps (gomap_put capacityMap (Path info) capacity) w)"

definition volume_entry_for ::
    "hostPathController \<Rightarrow> (string, int64) gomap \<Rightarrow> os \<Rightarrow> string \<Rightarrow> string \<Rightarrow> volume_entry" where
  "volume_entry_for hpc capacityMap w volumeId volumePath =
     (let (healthy, msg) = doHealthCheckInControllerSide volumePath w
      in \<lparr>e_VolumeId = volumeId,
          e_CapacityBytes = gomap_get 0 capacityMap (Dir volumePath),
          e_PublishedNodeIds = [cfg_NodeID (hpc_cfg hpc)],
          e_Abnormal = (\<not> healthy), e_Message = msg\<rparr>)"

definition volumes_page ::
    "hostPathController \<Rightarrow> (string, int64) gomap \<Rightarrow> ListVolumesRequest \<Rightarrow> string list \<Rightarrow> os \<Rightarrow>
       ListVolumesResponse outcome" where
  \<comment> \<open>the part of \<open>ListVolumes\<close> after the directories are collected\<close>
  "volumes_page hpc capacityMap rq volumeDirs w =
     (if lv_StartingToken rq \<noteq> [] \<and> ParseUint32 (lv_StartingToken rq) = None
      then Err (StatusError Aborted ''the type of startingToken should be integer'')
      else if volumeDirs \<noteq> [] then
        (let token = (if lv_StartingToken rq = [] then Base (hd volumeDirs) else lv_StartingToken rq);
             volumesLength = int (length volumeDirs);
             maxLength = (if lv_MaxEntries rq = 0 then volumesLength else lv_MaxEntries rq);
             start = IndexOfStartingToken token volumeDirs
         in if start = - 1
            then Err (StatusError InvalidArgument (''volume '' @ token @ '' not found''))
            else (let end = min (start + maxLength) volumesLength
                  in Ok \<lparr>lv_Entries =
                           map (\<lambda>d. volume_entry_for hpc capacityMap w (Base d) d)
                             (take (nat (end - start)) (drop (nat start) volumeDirs)),
                         lv_NextToken =
                           (if end < volumesLength - 1 then Base (volumeDirs ! nat end) else [])\<rparr>))
      else if lv_StartingToken rq \<noteq> []
      then Err (StatusError Aborted (''volume '' @ lv_StartingToken rq @ '' not found''))
      else Ok \<lparr>lv_Entries = [], lv_NextToken = []\<rparr>)"

definition ListVolumes ::
    "hostPathController \<Rightarrow> ListVolumesRequest option \<Rightarrow> os \<Rightarrow> ListVolumesResponse outcome" where
  "ListVolumes hpc req w =
     (case validateListVolumesRequest req of
        Some err \<Rightarrow> Err err
      | None \<Rightarrow>
     (case req of None \<Rightarrow> Panic nil_deref | Some rq \<Rightarrow>
     (case pool_capacities (cfg_StoragePoolInfo (hpc_cfg hpc)) [] w of
        Inl err \<Rightarrow> Err err
      | Inr capacityMap \<Rightarrow>
     (case getVolumeDirectories hpc w of
        Inl err \<Rightarrow> Err err
      | Inr volumeDirs \<Rightarrow> volumes_page hpc capacityMap rq volumeDirs w))))"

definition ControllerGetVolume :: "hostPathController \<Rightarrow> string option \<Rightarrow> os \<Rightarrow> volume_entry outcome" where
  \<comment> \<open>a request is its \<open>VolumeId\<close>\<close>
  "ControllerGetVolume hpc req w =
     (case req of
        None \<Rightarrow> Err (StatusError InvalidArgument ''missing request'')
      | Some volumeId \<Rightarrow>
          if volumeId = [] then Err (StatusError InvalidArgument ''volume ID not provided'')
          else
     (case pool_capacities (cfg_StoragePoolInfo (hpc_cfg hpc)) [] w of
        Inl err \<Rightarrow> Err err
      | Inr capacityMap \<Rightarrow>
     (case getVolumeDirectories hpc w of
        Inl err \<Rightarrow> Err err
      | Inr volumeDirs \<Rightarrow>
          (let volumePath = find_volume volumeId volumeDirs []
           in if volumePath = [] then Err (StatusError NotFound (''volume '' @ volumeId @ '' not found''))
              else Ok (volume_entry_for hpc capacityMap w volumeId volumePath)))))"

section \<open>Snapshots\<close>

definition validateCreateSnapshotRequest :: "CreateSnapshotRequest option \<Rightarrow> go_error option" where
  "validateCreateSnapshotRequest req =
     (case req of
        None \<Rightarrow> Some (StatusError InvalidArgument ''missing snapshot request'')
      | Some rq \<Rightarrow>
          if cs_Name rq = [] then Some (StatusError InvalidArgument ''name missing in snapshot request'')
          else if cs_SourceVolumeId rq = []
          then Some (StatusError InvalidArgument ''source volume id missing in snapshot request'')
          else None)"

definition get_or_create_snapshot ::
    "snapshot_provider \<Rightarrow> CreateSnapshotRequest \<Rightarrow> os \<Rightarrow> csi_Snapshot outcome \<times> os" where
  \<comment> \<open>the part of \<open>CreateSnapshot\<close> after the provider is initialized\<close>
  "get_or_create_snapshot sp rq w =
     (case sp_GetSnapshotById sp (cs_Name rq) w of
        Inl err \<Rightarrow> (Err (ErrorString (''getsnapshot by id failed, '' @ error_msg err)), w)
      | Inr (Some snapshot) \<Rightarrow>
          if SourceVolumeId snapshot = cs_SourceVolumeId rq then (Ok snapshot, w)
          else (Err (StatusError AlreadyExists (''snapshot with the same name: '' @ cs_Name rq @
                  '' but with different SourceVolumeId already exist'')), w)
      | Inr None \<Rightarrow>
          (case sp_CreateSnapshot sp (cs_Name rq) (cs_SourceVolumeId rq) w of
             (Inl err, w') \<Rightarrow> (Err err, w')
           | (Inr snapshot, w') \<Rightarrow> (Ok snapshot, w')))"

definition CreateSnapshot ::
    "hostPathController \<Rightarrow> CreateSnapshotRequest option \<Rightarrow> os \<Rightarrow> csi_Snapshot outcome \<times> os" where
  "CreateSnapshot hpc req w =
     (case validateCreateSnapshotRequest req of
        Some err \<Rightarrow> (Err err, w)
      | None \<Rightarrow>
     (case req of None \<Rightarrow> (Panic nil_deref, w) | Some rq \<Rightarrow>
     (let pool = getStoragePoolNameFromMap (cs_Parameters rq);
          spi = cfg_StoragePoolInfo (hpc_cfg hpc)
      in if map_of spi pool = None
         then (Err (ErrorString (''unable to locate volumesnapshot path for storage pool '' @ pool)), w)
         else
     (case SnapshotPath (pool_info spi pool) of
        None \<Rightarrow> (Err (ErrorString (''volumesnapshot path not set for storage pool '' @ pool)), w)
      | Some snapshotPath \<Rightarrow>
     (case map_of (hpc_snapshotproviders hpc) pool of
        None \<Rightarrow> (Err (ErrorString (''snapshot provider not set for storage pool '' @ pool)), w)
      | Some sp \<Rightarrow>
     (case checkPathExist snapshotPath w of
        Inl err \<Rightarrow> (Err err, w)
      | Inr True \<Rightarrow> get_or_create_snapshot sp rq w
      | Inr False \<Rightarrow>
          (case sp_Initialize sp w of
             (Some err, w') \<Rightarrow>
               (Err (ErrorString (''failed to initialize snapshot storage pool '' @ error_msg err)), w')
           | (None, w') \<Rightarrow> get_or_create_snapshot sp rq w')))))))"

fun delete_in_providers :: "(string, snapshot_provider) gomap \<Rightarrow> string \<Rightarrow> os \<Rightarrow> unit outcome \<times> os" where
  "delete_in_providers [] snapshotId w = (Ok (), w)"
| "delete_in_providers ((k, snapshotProvider) # ps) snapshotId w =
     (case sp_DeleteSnapshot snapshotProvider snapshotId w of
        (Some err, w') \<Rightarrow> (Err err, w')
      | (None, w') \<Rightarrow> delete_in_providers ps snapshotId w')"

definition DeleteSnapshot :: "hostPathController \<Rightarrow> string option \<Rightarrow> os \<Rightarrow> unit outcome \<times> os" where
  \<comment> \<open>a request is its \<open>SnapshotId\<close>\<close>
  "DeleteSnapshot hpc req w =
     (case req of
        None \<Rightarrow> (Err (StatusError InvalidArgument ''missing request''), w)
      | Some snapshotId \<Rightarrow>
          if snapshotId = [] then (Err (StatusError InvalidArgument ''snapshot id missing in request''), w)
          else delete_in_providers (hpc_snapshotproviders hpc) snapshotId w)"

fun collect_snapshots ::
    "(string, snapshot_provider) gomap \<Rightarrow> ListSnapshotsRequest \<Rightarrow> csi_Snapshot list \<Rightarrow> os \<Rightarrow>
       csi_Snapshot list outcome" where
  "collect_snapshots [] rq snapshots w = Ok snapshots"
| "collect_snapshots ((k, sp) # ps) rq snapshots w =
     (if ls_SnapshotId rq \<noteq> [] then
        (case sp_GetSnapshotById sp (ls_SnapshotId rq) w of
           Inl err \<Rightarrow> Err err
         | Inr None \<Rightarrow> collect_snapshots ps rq snapshots w
         | Inr (Some snapshot) \<Rightarrow> collect_snapshots ps rq (snapshots @ [snapshot]) w)
      else
        (case (if ls_SourceVolumeId rq \<noteq> [] then sp_GetSnapshotsByVolumeSourceId sp (ls_SourceVolumeId rq) w
               else sp_GetAllSnapshots sp w) of
           Err err \<Rightarrow> Err err
         | Panic m \<Rightarrow> Panic m
         | Ok ss \<Rightarrow> collect_snapshots ps rq (snapshots @ ss) w))"

definition go_slice :: "'a list \<Rightarrow> uint64 \<Rightarrow> int64 \<Rightarrow> 'a list outcome" where
  \<comment> \<open>\<open>xs[start:end]\<close> where \<open>end\<close> does not exceed the length\<close>
  "go_slice xs start end =
     (if sint end < 0 \<or> uint start > sint end then Panic ''slice bounds out of range''
      else Ok (drop (unat start) (take (nat (sint end)) xs)))"

definition snapshots_page :: "ListSnapshotsRequest \<Rightarrow> csi_Snapshot list \<Rightarrow> ListSnapshotsResponse outcome" where
  \<comment> \<open>the part of \<open>ListSnapshots\<close> after the snapshots are collected\<close>
  "snapshots_page rq snapshots =
     (if snapshots \<noteq> [] then
        (let token = (if ls_StartingToken rq = [] \<or> ls_StartingToken rq = ''0'' then ''1'' else ls_StartingToken rq);
             snapshotLength = int64_of_int (int (length snapshots));
             maxLength = (if ls_MaxEntries rq = 0 then snapshotLength else int64_of_int (ls_MaxEntries rq))
         in case ParseUint32 token of
              None \<Rightarrow> Err (StatusError Aborted ''the type of startingToken should be integer'')
            | Some n \<Rightarrow>
                (let start = of_nat n - 1 :: uint64;
                     end0 = start + maxLength;
                     end = (if sint end0 > sint snapshotLength then snapshotLength else end0)
                 in case go_slice snapshots start end of
                      Panic m \<Rightarrow> Panic m
                    | Err e \<Rightarrow> Err e
                    | Ok entries \<Rightarrow>
                        Ok \<lparr>ls_Entries = entries,
                            ls_NextToken =
                              (if sint end < sint (snapshotLength - 1) then FormatInt (sint (end + 1)) else [])\<rparr>))
      else if ls_StartingToken rq \<noteq> []
      then Err (StatusError Aborted (''snapshot '' @ ls_StartingToken rq @ '' not found''))
      else Ok \<lparr>ls_Entries = [], ls_NextToken = []\<rparr>)"

definition ListSnapshots ::
    "hostPathController \<Rightarrow> ListSnapshotsRequest option \<Rightarrow> os \<Rightarrow> ListSnapshotsResponse outcome" where
  "ListSnapshots hpc req w =
     (case req of
        None \<Rightarrow> Err (StatusError InvalidArgument ''missing request'')
      | Some rq \<Rightarrow>
          (case collect_snapshots (hpc_snapshotproviders hpc) rq [] w of
             Err e \<Rightarrow> Err e
           | Panic m \<Rightarrow> Panic m
           | Ok snapshots \<Rightarrow> snapshots_page rq snapshots))"

section \<open>Facts about creating volumes\<close>

abbreviation hpc_pools :: "hostPathController \<Rightarrow> pools" where
  "hpc_pools hpc \<equiv> cfg_StoragePoolInfo (hpc_cfg hpc)"

definition request_pool :: "hostPathController \<Rightarrow> CreateVolumeRequest \<Rightarrow> StoragePoolInfo" where
  \<comment> \<open>the pool that a request names\<close>
  "request_pool hpc rq = pool_info (hpc_pools hpc) (getStoragePoolNameFromMap (cv_Parameters rq))"

definition make_directory :: "hostPathController \<Rightarrow> CreateVolumeRequest \<Rightarrow> os \<Rightarrow> os \<Rightarrow> bool" where
  \<comment> \<open>the volume directory exists, or it is made\<close>
  "make_directory hpc rq w w1 \<longleftrightarrow>
     checkPathExist (Join [Path (request_pool hpc rq), cv_Name rq]) w = Inr True \<and> w1 = w \<or>
     checkPathExist (Join [Path (request_pool hpc rq), cv_Name rq]) w = Inr False \<and>
       os_MkdirAll (Join [Path (request_pool hpc rq), cv_Name rq]) w = (None, w1)"

lemma CreateVolume_Ok:
  assumes "CreateVolume hpc (Some rq) w = (Ok v, w')"
  obtains w1 where "map_of (hpc_pools hpc) (getStoragePoolNameFromMap (cv_Parameters rq)) \<noteq> None"
    and "make_directory hpc rq w w1"
    and "populate hpc (getStoragePoolNameFromMap (cv_Parameters rq)) rq w1 = (None, w')"
    and "v_VolumeId v = cv_Name rq" and "v_VolumeContext v = cv_Parameters rq"
    and "v_ContentSource v = cv_VolumeContentSource rq"
    and "v_AccessibleTopology v =
      (if Shared (request_pool hpc rq) then [] else [[(TopologyKeyNode, cfg_NodeID (hpc_cfg hpc))]])"
  using assms
  by (auto simp: CreateVolume_def Let_def request_pool_def make_directory_def CreateVolumeDirectory_def
      createVolumeDirectoryFunc_def
      split: option.splits if_splits sum.splits bool.splits prod.splits)

lemma request_pool_member:
  assumes "map_of (hpc_pools hpc) (getStoragePoolNameFromMap (cv_Parameters rq)) \<noteq> None"
  shows "(getStoragePoolNameFromMap (cv_Parameters rq), request_pool hpc rq) \<in> set (hpc_pools hpc)"
proof -
  obtain info where i: "map_of (hpc_pools hpc) (getStoragePoolNameFromMap (cv_Parameters rq)) = Some info"
    using assms by blast
  then have "request_pool hpc rq = info" by (simp add: request_pool_def pool_info_def gomap_get_def)
  then show ?thesis using map_of_SomeD [OF i] by simp
qed

lemma make_directory_facts:
  assumes "make_directory hpc rq w w1" "os_ok w" "simple_name (cv_Name rq)"
  shows "os_ok w1" and "same_env w w1" and "lookup w q = Some n \<Longrightarrow> lookup w1 q = Some n"
    and "lookup w q = None \<Longrightarrow> lookup w1 q = Some n \<Longrightarrow>
       n = Directory \<and> prefix q (path_key (Path (request_pool hpc rq)) @ [cv_Name rq])"
    and "lookup w1 (path_key (Path (request_pool hpc rq)) @ [cv_Name rq]) =
       (case lookup w (path_key (Path (request_pool hpc rq)) @ [cv_Name rq]) of
          Some n \<Rightarrow> Some n | None \<Rightarrow> Some Directory)"
proof -
  let ?s = "Join [Path (request_pool hpc rq), cv_Name rq]"
  have k: "path_key ?s = path_key (Path (request_pool hpc rq)) @ [cv_Name rq]" using assms(3) by simp
  from assms(1) consider (old) n where "os_Stat ?s w = Inr n" "w1 = w"
    | (new) "checkPathExist ?s w = Inr False" "os_MkdirAll ?s w = (None, w1)"
    unfolding make_directory_def checkPathExist_True by blast
  then have "os_ok w1 \<and> same_env w w1 \<and> (lookup w q = Some n \<longrightarrow> lookup w1 q = Some n) \<and>
    (lookup w q = None \<longrightarrow> lookup w1 q = Some n \<longrightarrow>
       n = Directory \<and> prefix q (path_key (Path (request_pool hpc rq)) @ [cv_Name rq])) \<and>
    lookup w1 (path_key (Path (request_pool hpc rq)) @ [cv_Name rq]) =
       (case lookup w (path_key (Path (request_pool hpc rq)) @ [cv_Name rq]) of
          Some n \<Rightarrow> Some n | None \<Rightarrow> Some Directory)"
  proof cases
    case old
    then show ?thesis using os_Stat_Inr [OF old(1)] assms(2) k by simp
  next
    case new
    have "lookup w (path_key ?s) = None" using checkPathExist_False [OF assms(2) _ new(1)] assms(3) by simp
    then show ?thesis
      using os_ok_env [OF assms(2) os_MkdirAll_env [OF new(2)] os_MkdirAll_wf [OF new(2) os_okD [OF assms(2)]]]
        os_MkdirAll_env [OF new(2)] os_MkdirAll_ok [OF new(2)] os_MkdirAll_keeps [OF new(2), of q n]
        os_MkdirAll_new [OF new(2), of q n] unfolding k by simp
  qed
  then show "os_ok w1" and "same_env w w1" and "lookup w q = Some n \<Longrightarrow> lookup w1 q = Some n"
    and "lookup w q = None \<Longrightarrow> lookup w1 q = Some n \<Longrightarrow>
       n = Directory \<and> prefix q (path_key (Path (request_pool hpc rq)) @ [cv_Name rq])"
    and "lookup w1 (path_key (Path (request_pool hpc rq)) @ [cv_Name rq]) =
       (case lookup w (path_key (Path (request_pool hpc rq)) @ [cv_Name rq]) of
          Some n \<Rightarrow> Some n | None \<Rightarrow> Some Directory)" by blast+
qed

definition no_snapshot_source :: "CreateVolumeRequest \<Rightarrow> bool" where
  "no_snapshot_source rq \<longleftrightarrow> (\<forall>i. cv_VolumeContentSource rq \<noteq> Some (VCS_Snapshot (Some i)))"

lemma populate_no_source: "no_snapshot_source rq \<Longrightarrow> populate hpc pool rq w = (None, w)"
  by (auto simp: no_snapshot_source_def populate_def split: option.splits VolumeContentSource.splits)

lemma checkPathExist_same:
  assumes "same_env w w'" "os_ok w'" "checkPathExist s w = Inr b" "lookup w' (path_key s) = Some n" "s \<noteq> []"
  shows "checkPathExist s w' = Inr True"
proof -
  have "os_fault w SysStat (path_key s) = None \<or> b = False \<and> (\<exists>e. os_fault w SysStat (path_key s) = Some e \<and> e = ENOENT)"
    using assms(3,5)
    by (auto simp: checkPathExist_def checkPathExistFunc_def os_Stat_def Let_def
        split: sum.splits if_splits option.splits)
  then have "os_fault w' SysStat (path_key s) = None" using assms(1,2) by (auto simp: same_env_def os_ok_def)
  then show ?thesis
    using assms(4,5) not_blocked [OF os_okD [OF assms(2)] assms(4)]
    by (simp add: checkPathExist_True os_Stat_def Let_def)
qed

section \<open>Facts about deleting and listing volumes\<close>

lemma find_volume_filter:
  "find_volume i ds acc = (case filter (\<lambda>d. Base d = i) ds of [] \<Rightarrow> acc | x # xs \<Rightarrow> last (x # xs))"
  by (induction i ds acc rule: find_volume.induct) (auto split: list.splits)

lemma find_volume_mem:
  assumes "find_volume i ds [] = d" "d \<noteq> []"
  shows "d \<in> set ds" and "Base d = i"
proof -
  have "d \<in> set (filter (\<lambda>d. Base d = i) ds)"
    using assms by (auto simp: find_volume_filter simp del: set_filter split: list.splits if_splits)
  then show "d \<in> set ds" and "Base d = i" by auto
qed

lemma find_volume_none:
  assumes "find_volume i ds [] = []" "[] \<notin> set ds"
  shows "\<forall>d \<in> set ds. Base d \<noteq> i"
proof -
  have "filter (\<lambda>d. Base d = i) ds = []"
  proof (cases "filter (\<lambda>d. Base d = i) ds")
    case (Cons x xs)
    then have "last (x # xs) \<in> set ds"
      by (metis filter_is_subset last_in_set list.distinct(1) subsetD)
    then show ?thesis using assms Cons by (simp add: find_volume_filter split: if_splits)
  qed
  then show ?thesis by (auto simp: filter_empty_conv)
qed

definition pool_entry :: "hostPathController \<Rightarrow> string \<Rightarrow> path \<Rightarrow> bool" where
  \<comment> \<open>the path of the entry \<open>i\<close> of a storage pool\<close>
  "pool_entry hpc i p \<longleftrightarrow> (\<exists>k info. (k, info) \<in> set (hpc_pools hpc) \<and> p = path_key (Path info) @ [i])"

lemma volume_directory:
  assumes "fs_wf (os_fs w)" "getVolumeDirectories hpc w = Inr ds" "d \<in> set ds"
  shows "d \<noteq> []" and "simple_name (Base d)" and "path_key d = path_key (Join [Dir d, Base d])"
    and "pool_entry hpc (Base d) (path_key d)" and "lookup w (path_key d) = Some Directory"
proof -
  obtain k info n where m: "(k, info) \<in> set (hpc_pools hpc)" and d: "d = Join [Path info, n]"
    and l: "lookup w (path_key (Path info) @ [n]) = Some Directory"
    using data_directories_iff [OF assms(1)] assms(2,3) unfolding getVolumeDirectories_def by blast
  have n: "simple_name n" using fs_wf_parent(2) [OF assms(1) l] .
  show "d \<noteq> []" "simple_name (Base d)" "path_key d = path_key (Join [Dir d, Base d])"
    "pool_entry hpc (Base d) (path_key d)" "lookup w (path_key d) = Some Directory"
    using m l n by (auto simp: d pool_entry_def)
qed

lemma pool_entry_listed:
  assumes "fs_wf (os_fs w)" "getVolumeDirectories hpc w = Inr ds"
    "pool_entry hpc i p" "lookup w p = Some Directory"
  shows "\<exists>d \<in> set ds. Base d = i \<and> path_key d = p"
proof -
  obtain k info where m: "(k, info) \<in> set (hpc_pools hpc)" and p: "p = path_key (Path info) @ [i]"
    using assms(3) by (auto simp: pool_entry_def)
  have i: "simple_name i" using fs_wf_parent(2) [OF assms(1)] assms(4) p by blast
  have "Join [Path info, i] \<in> set ds"
    using data_directories_iff [OF assms(1) assms(2) [unfolded getVolumeDirectories_def]] m assms(4) p by blast
  moreover have "Base (Join [Path info, i]) = i \<and> path_key (Join [Path info, i]) = p" using i p by simp
  ultimately show ?thesis by blast
qed

lemma DeleteVolume_rpc_cases:
  assumes "DeleteVolume_rpc hpc (Some i) w = (r, w')" "fs_wf (os_fs w)"
  obtains (none) "w' = w" "r = Ok () \<Longrightarrow> \<forall>p. pool_entry hpc i p \<longrightarrow> lookup w p \<noteq> Some Directory"
  | (one) p s e where "pool_entry hpc i p" "lookup w p = Some Directory" "simple_name i"
      "os_RemoveAll s w = (e, w')" "path_key s = p" "s \<noteq> []" "r = Ok () \<longleftrightarrow> e = None"
proof (cases "getVolumeDirectories hpc w")
  case (Inl e)
  with assms(1) that(1) show ?thesis
    by (auto simp: DeleteVolume_rpc_def validateDeleteVolumeRequest_def split: if_splits)
next
  case (Inr ds)
  note dir = volume_directory [OF assms(2) Inr]
  show ?thesis
  proof (cases "i = [] \<or> find_volume i ds [] = []")
    case True
    have "\<forall>p. pool_entry hpc i p \<longrightarrow> lookup w p \<noteq> Some Directory" if "i \<noteq> []"
    proof (intro allI impI notI)
      fix p
      assume p: "pool_entry hpc i p" "lookup w p = Some Directory"
      have "[] \<notin> set ds" using dir(1) by blast
      then have "\<forall>d \<in> set ds. Base d \<noteq> i" using find_volume_none True that by blast
      then show False using pool_entry_listed [OF assms(2) Inr p] by blast
    qed
    with True assms(1) that(1) show ?thesis
      by (auto simp: DeleteVolume_rpc_def validateDeleteVolumeRequest_def Inr Let_def split: if_splits)
  next
    case False
    let ?d = "find_volume i ds []"
    have mem: "?d \<in> set ds" and b: "Base ?d = i" using find_volume_mem False by blast+
    obtain e where del: "DeleteVolume (Dir ?d) i w = (e, w')" and re: "r = Ok () \<longleftrightarrow> e = None"
      using assms(1) False
      by (auto simp: DeleteVolume_rpc_def validateDeleteVolumeRequest_def Inr Let_def
          split: if_splits prod.splits option.splits)
    obtain e' where rm: "os_RemoveAll (Join [Dir ?d, i]) w = (e', w')" and e': "e' = None \<longleftrightarrow> e = None"
      using DeleteVolume_util_result [OF del] by blast
    note d = dir [OF mem, unfolded b]
    show ?thesis
      by (rule that(2) [OF d(4,5,2) rm d(3) [symmetric] Join_simple_nonempty [OF d(2)]])
         (simp only: re e')
  qed
qed

lemma DeleteVolume_rpc_wf:
  assumes "DeleteVolume_rpc hpc (Some i) w = (r, w')" "fs_wf (os_fs w)"
  shows "fs_wf (os_fs w')"
  using assms
proof (cases rule: DeleteVolume_rpc_cases)
  case none
  then show ?thesis using assms(2) by simp
next
  case (one p s e)
  then show ?thesis using os_RemoveAll_wf assms(2) by blast
qed

lemma DeleteVolume_rpc_shrinks:
  assumes "DeleteVolume_rpc hpc (Some i) w = (r, w')" "fs_wf (os_fs w)" "lookup w' q = Some n"
  shows "lookup w q = Some n"
  using assms(1,2)
proof (cases rule: DeleteVolume_rpc_cases)
  case none
  then show ?thesis using assms(3) by simp
next
  case (one p s e)
  then show ?thesis using os_RemoveAll_shrinks assms(3) by blast
qed

lemma DeleteVolume_rpc_idle:
  assumes "DeleteVolume_rpc hpc (Some i) w = (r, w')" "fs_wf (os_fs w)"
    and "\<And>p. pool_entry hpc i p \<Longrightarrow> lookup w p \<noteq> Some Directory"
  shows "w' = w"
  using assms(1,2)
proof (cases rule: DeleteVolume_rpc_cases)
  case (one p s e)
  then show ?thesis using assms(3) by blast
qed

lemma pool_capacities_get:
  assumes "pool_capacities ps acc w = Inr m"
  shows "map_of m d =
    (if d \<in> (\<lambda>e. Path (snd e)) ` set ps
     then (case getVolumeDirCapacity d w of Inr c \<Rightarrow> Some c | Inl _ \<Rightarrow> None)
     else map_of acc d)"
  using assms
proof (induction ps acc w rule: pool_capacities.induct)
  case (2 k info ps acc w)
  then obtain c where c: "getVolumeDirCapacity (Path info) w = Inr c"
    and m: "pool_capacities ps (gomap_put acc (Path info) c) w = Inr m" by (auto split: sum.splits)
  then show ?case using 2(1) [OF c m] by auto
qed simp

lemma pool_capacities_Inr:
  "(\<exists>m. pool_capacities ps acc w = Inr m) \<longleftrightarrow> (\<forall>e \<in> set ps. \<not> isl (getVolumeDirCapacity (Path (snd e)) w))"
  by (induction ps acc w rule: pool_capacities.induct) (auto split: sum.splits)

lemma volume_entry_id [simp]:
  "e_VolumeId (volume_entry_for hpc m w i d) = i"
  "e_CapacityBytes (volume_entry_for hpc m w i d) = gomap_get 0 m (Dir d)"
  by (simp_all add: volume_entry_for_def split_def Let_def)

lemma ListVolumes_Ok:
  "ListVolumes hpc (Some rq) w = Ok r \<longleftrightarrow>
     (\<exists>m ds. pool_capacities (hpc_pools hpc) [] w = Inr m \<and> getVolumeDirectories hpc w = Inr ds \<and>
        0 \<le> lv_MaxEntries rq \<and> volumes_page hpc m rq ds w = Ok r)"
  by (auto simp: ListVolumes_def validateListVolumesRequest_def split: sum.splits)

lemma starting_token_first: "ds \<noteq> [] \<Longrightarrow> IndexOfStartingToken (Base (hd ds)) ds = 0"
  by (cases ds) (simp_all add: IndexOfStartingToken_def)

text \<open>The first page.\<close>

lemma volumes_page_first:
  assumes "lv_StartingToken rq = []" "0 \<le> lv_MaxEntries rq"
  shows "volumes_page hpc m rq ds w =
    (let n = (if lv_MaxEntries rq = 0 then length ds else nat (lv_MaxEntries rq))
     in Ok \<lparr>lv_Entries = map (\<lambda>d. volume_entry_for hpc m w (Base d) d) (take n ds),
            lv_NextToken = (if n + 1 < length ds then Base (ds ! n) else [])\<rparr>)"
proof (cases "ds = []")
  case False
  then show ?thesis
    using assms starting_token_first [OF False]
    by (auto simp: volumes_page_def Let_def min_def nat_le_iff)
qed (simp add: volumes_page_def assms Let_def)

section \<open>Facts about snapshots\<close>

definition reflink_of :: "string \<Rightarrow> StoragePoolInfo \<Rightarrow> Reflink" where
  \<comment> \<open>the provider that \<open>NewHostPathController\<close> makes for a pool with a snapshot path\<close>
  "reflink_of node info =
     \<lparr>r_nodeName = node, r_path = (case SnapshotPath info of Some p \<Rightarrow> p | None \<Rightarrow> []), r_sourcePath = Path info\<rparr>"

lemma new_providers_get:
  assumes "new_providers cp node ps acc = Ok sps" "gomap_wf ps"
  shows "map_of sps k =
    (case map_of ps k of
       Some info \<Rightarrow> if SnapshotProvider info = None then map_of acc k
                     else Some (reflink_provider cp (reflink_of node info))
     | None \<Rightarrow> map_of acc k)"
  using assms
proof (induction cp node ps acc rule: new_providers.induct)
  case (2 cp node pool info ps acc)
  have wf: "gomap_wf ps" and out: "map_of ps pool = None"
    using 2(4) by (auto simp: gomap_wf_def map_of_eq_None_iff)
  show ?case
  proof (cases "SnapshotProvider info")
    case None
    then show ?thesis using 2(1) [OF None] 2(3) wf out by (auto split: option.splits)
  next
    case (Some p)
    then obtain sp where sp: "p = ReflinkProvider" "SnapshotPath info = Some sp"
      and run: "new_providers cp node ps (gomap_put acc pool
         (reflink_provider cp \<lparr>r_nodeName = node, r_path = sp, r_sourcePath = Path info\<rparr>)) = Ok sps"
      using 2(3) by (auto split: if_splits option.splits)
    have r: "\<lparr>r_nodeName = node, r_path = sp, r_sourcePath = Path info\<rparr> = reflink_of node info"
      using sp by (simp add: reflink_of_def)
    show ?thesis
      using 2(2) [OF Some sp run wf] Some out unfolding r by (auto split: option.splits)
  qed
qed simp

lemma controller_provider:
  assumes "NewHostPathController cp cfg = Ok hpc" "gomap_wf (cfg_StoragePoolInfo cfg)"
  shows "hpc_cfg hpc = cfg"
    and "map_of (hpc_snapshotproviders hpc) k = Some sp \<Longrightarrow>
       sp = reflink_provider cp (reflink_of (cfg_NodeID cfg) (pool_info (hpc_pools hpc) k)) \<and>
       map_of (hpc_pools hpc) k \<noteq> None"
proof -
  obtain sps where sps: "new_providers cp (cfg_NodeID cfg) (cfg_StoragePoolInfo cfg) [] = Ok sps"
    and hpc: "hpc = \<lparr>hpc_cfg = cfg, hpc_snapshotproviders = sps\<rparr>"
    using assms(1) by (auto simp: NewHostPathController_def split: outcome.splits)
  show "hpc_cfg hpc = cfg" by (simp add: hpc)
  show "sp = reflink_provider cp (reflink_of (cfg_NodeID cfg) (pool_info (hpc_pools hpc) k)) \<and>
       map_of (hpc_pools hpc) k \<noteq> None" if "map_of (hpc_snapshotproviders hpc) k = Some sp"
    using that new_providers_get [OF sps assms(2), of k]
    by (auto simp: hpc pool_info_def gomap_get_def split: option.splits if_splits)
qed

lemma CreateSnapshot_Ok:
  assumes "CreateSnapshot hpc (Some rq) w = (Ok s, w')"
  obtains sp path w0 where "map_of (hpc_snapshotproviders hpc) (getStoragePoolNameFromMap (cs_Parameters rq)) = Some sp"
    and "SnapshotPath (pool_info (hpc_pools hpc) (getStoragePoolNameFromMap (cs_Parameters rq))) = Some path"
    and "checkPathExist path w = Inr True \<and> w0 = w \<or>
         checkPathExist path w = Inr False \<and> sp_Initialize sp w = (None, w0)"
    and "get_or_create_snapshot sp rq w0 = (Ok s, w')"
    and "cs_Name rq \<noteq> []" and "cs_SourceVolumeId rq \<noteq> []"
proof -
  let ?pool = "getStoragePoolNameFromMap (cs_Parameters rq)"
  obtain path where v: "validateCreateSnapshotRequest (Some rq) = None"
    and p: "SnapshotPath (pool_info (hpc_pools hpc) ?pool) = Some path"
    using assms by (auto simp: CreateSnapshot_def Let_def split: option.splits if_splits)
  obtain sp where sp: "map_of (hpc_snapshotproviders hpc) ?pool = Some sp"
    using assms v p by (auto simp: CreateSnapshot_def Let_def split: option.splits if_splits)
  have n: "cs_Name rq \<noteq> []" "cs_SourceVolumeId rq \<noteq> []"
    using v by (auto simp: validateCreateSnapshotRequest_def split: if_splits)
  have "\<exists>w0. (checkPathExist path w = Inr True \<and> w0 = w \<or>
         checkPathExist path w = Inr False \<and> sp_Initialize sp w = (None, w0)) \<and>
         get_or_create_snapshot sp rq w0 = (Ok s, w')"
    using assms v p sp
    by (auto simp: CreateSnapshot_def Let_def split: if_splits sum.splits bool.splits prod.splits option.splits)
  then show ?thesis using that sp p n by blast
qed

abbreviation snapshot_pool :: "hostPathController \<Rightarrow> CreateSnapshotRequest \<Rightarrow> StoragePoolInfo" where
  "snapshot_pool hpc rq \<equiv> pool_info (hpc_pools hpc) (getStoragePoolNameFromMap (cs_Parameters rq))"

abbreviation snapshot_reflink :: "hostPathController \<Rightarrow> CreateSnapshotRequest \<Rightarrow> Reflink" where
  "snapshot_reflink hpc rq \<equiv> reflink_of (cfg_NodeID (hpc_cfg hpc)) (snapshot_pool hpc rq)"

lemma CreateSnapshot_reflink:
  assumes new: "NewHostPathController cp cfg = Ok hpc" "gomap_wf (cfg_StoragePoolInfo cfg)"
    and ok: "os_ok w" and run: "CreateSnapshot hpc (Some rq) w = (Ok s, w')"
  obtains w0 where "os_ok w0" and "same_env w w0"
    and "\<forall>q n. lookup w q = Some n \<longrightarrow> lookup w0 q = Some n"
    and "\<forall>q n. lookup w q = None \<longrightarrow> lookup w0 q = Some n \<longrightarrow> prefix q (path_key (r_path (snapshot_reflink hpc rq)))"
    and "get_or_create_snapshot (reflink_provider cp (snapshot_reflink hpc rq)) rq w0 = (Ok s, w')"
    and "r_path (snapshot_reflink hpc rq) \<noteq> []"
    and "SnapshotPath (snapshot_pool hpc rq) = Some (r_path (snapshot_reflink hpc rq))"
    and "map_of (hpc_snapshotproviders hpc) (getStoragePoolNameFromMap (cs_Parameters rq)) =
           Some (reflink_provider cp (snapshot_reflink hpc rq))"
proof -
  let ?r = "snapshot_reflink hpc rq"
  from run obtain sp path w0
    where m: "map_of (hpc_snapshotproviders hpc) (getStoragePoolNameFromMap (cs_Parameters rq)) = Some sp"
    and p: "SnapshotPath (snapshot_pool hpc rq) = Some path"
    and w0: "checkPathExist path w = Inr True \<and> w0 = w \<or>
         checkPathExist path w = Inr False \<and> sp_Initialize sp w = (None, w0)"
    and go: "get_or_create_snapshot sp rq w0 = (Ok s, w')"
    by (rule CreateSnapshot_Ok)
  have sp: "sp = reflink_provider cp ?r" using controller_provider [OF new] m by blast
  have path: "r_path ?r = path" using p by (simp add: reflink_of_def)
  have w0': "w0 = w \<and> path \<noteq> [] \<or> os_MkdirAll path w = (None, w0)"
    using w0 by (auto simp: sp path reflink_provider_def Reflink_Initialize_def ensurePathExists_def
        checkPathExist_True os_Stat_def)
  then have ne: "path \<noteq> []" by (auto simp: os_MkdirAll_def)
  from w0' have "os_ok w0 \<and> same_env w w0 \<and> (\<forall>q n. lookup w q = Some n \<longrightarrow> lookup w0 q = Some n) \<and>
    (\<forall>q n. lookup w q = None \<longrightarrow> lookup w0 q = Some n \<longrightarrow> prefix q (path_key path))"
  proof
    assume mk: "os_MkdirAll path w = (None, w0)"
    show ?thesis
      using os_ok_env [OF ok os_MkdirAll_env [OF mk] os_MkdirAll_wf [OF mk os_okD [OF ok]]]
        os_MkdirAll_env [OF mk] os_MkdirAll_keeps [OF mk] os_MkdirAll_new [OF mk] by blast
  qed (simp add: ok)
  then show ?thesis using that [of w0] go ne p m unfolding sp path by blast
qed

context snapshot_store
begin

lemma get_or_create_result:
  assumes "inv w" "vid (cs_Name rq)" "vsrc (cs_SourceVolumeId rq)" "get_or_create_snapshot provider rq w = (Ok s, w')"
  shows "inv w'" and "SnapshotId s = cs_Name rq" and "SourceVolumeId s = cs_SourceVolumeId rq"
    and "sp_GetSnapshotById provider (cs_Name rq) w' = Inr g \<Longrightarrow>
       \<exists>s'. g = Some s' \<and> SourceVolumeId s' = cs_SourceVolumeId rq"
proof -
  obtain g0 where g0: "sp_GetSnapshotById provider (cs_Name rq) w = Inr g0"
    using assms(4) by (auto simp: get_or_create_snapshot_def split: sum.splits)
  have "inv w' \<and> SnapshotId s = cs_Name rq \<and> SourceVolumeId s = cs_SourceVolumeId rq \<and>
      (sp_GetSnapshotById provider (cs_Name rq) w' = Inr g \<longrightarrow>
       (\<exists>s'. g = Some s' \<and> SourceVolumeId s' = cs_SourceVolumeId rq))"
  proof (cases g0)
    case (Some s0)
    then have "w' = w" "s = s0" "SourceVolumeId s0 = cs_SourceVolumeId rq"
      using assms(4) g0 by (auto simp: get_or_create_snapshot_def split: if_splits)
    then show ?thesis using assms(1) get_id [of "cs_Name rq" w s0] g0 Some by auto
  next
    case None
    then have c: "sp_CreateSnapshot provider (cs_Name rq) (cs_SourceVolumeId rq) w = (Inr s, w')"
      using assms(4) g0 by (auto simp: get_or_create_snapshot_def split: prod.splits sum.splits)
    show ?thesis
      using create_inv [OF assms(1) c] create_result [OF assms(1-3) _ c] create_get [OF assms(1-3) _ c]
        g0 None by simp
  qed
  then show "inv w'" and "SnapshotId s = cs_Name rq" and "SourceVolumeId s = cs_SourceVolumeId rq"
    and "sp_GetSnapshotById provider (cs_Name rq) w' = Inr g \<Longrightarrow>
       \<exists>s'. g = Some s' \<and> SourceVolumeId s' = cs_SourceVolumeId rq" by blast+
qed

lemma get_or_create_again:
  assumes "inv w" "vid (cs_Name rq)" "vsrc (cs_SourceVolumeId rq)" "get_or_create_snapshot provider rq w = (Ok s, w')"
    and "cs_Name rq' = cs_Name rq" "get_or_create_snapshot provider rq' w' = (r, w'')"
  shows "w'' = w'"
    and "r = Ok s2 \<Longrightarrow> SnapshotId s2 = cs_Name rq \<and> SourceVolumeId s2 = cs_SourceVolumeId rq \<and>
           cs_SourceVolumeId rq' = cs_SourceVolumeId rq"
  using assms(5,6) get_or_create_result(4) [OF assms(1-4)] get_id [of "cs_Name rq" w']
  by (auto simp: get_or_create_snapshot_def split: sum.splits option.splits if_splits)

end

end
