(* ===== verification/Node_Server.thy ===== *)
theory Node_Server
  imports Controller_Server
begin

text \<open>
  \<open>pkg/hostpath/nodeserver.go\<close>: the CSI node service. Publishing a volume bind-mounts its pool
  directory (made on the spot for an ephemeral volume) at the target path; unpublishing unmounts
  and removes the target, and deletes the pool directory of an ephemeral volume. A nil
  \<open>Mounter\<close> is \<open>None\<close>, and using it is a panic.
\<close>

section \<open>Requests\<close>

record NodePublishVolumeRequest =
  np_VolumeId :: string
  np_TargetPath :: string
  np_VolumeCapability :: "VolumeCapability option"
  np_PublishContext :: "parameters option"
  np_Readonly :: bool
  np_VolumeContext :: parameters

record NodeUnpublishVolumeRequest =
  nu_VolumeId :: string
  nu_TargetPath :: string

record NodeGetVolumeStatsRequest =
  ns_VolumeId :: string
  ns_VolumePath :: string

datatype usage_unit = BYTES | INODES

record VolumeUsage =
  vu_Available :: int64
  vu_Used :: int64
  vu_Total :: int64
  vu_Unit :: usage_unit

record NodeGetVolumeStatsResponse =
  ns_Usage :: "VolumeUsage list"
  ns_Abnormal :: bool
  ns_Message :: string

definition ephemeralContextKey :: string where
  "ephemeralContextKey = ''csi.storage.k8s.io/ephemeral''"

section \<open>Publishing\<close>

record hostPathNode =
  hpn_cfg :: Config

definition NewHostPathNode :: "Config \<Rightarrow> hostPathNode" where
  "NewHostPathNode config = \<lparr>hpn_cfg = config\<rparr>"

definition validateRequestCapabilties :: "NodePublishVolumeRequest option \<Rightarrow> go_error option" where
  "validateRequestCapabilties req =
     (case req of
        None \<Rightarrow> Some (StatusError InvalidArgument ''missing request'')
      | Some rq \<Rightarrow>
          if np_VolumeId rq = [] then Some (StatusError InvalidArgument ''volume ID not provided'')
          else if np_TargetPath rq = [] then Some (StatusError InvalidArgument ''target path not provided'')
          else if np_VolumeCapability rq = None
          then Some (StatusError InvalidArgument ''volume capability not provided'')
          else None)"

definition validateNodePublishRequest :: "NodePublishVolumeRequest option \<Rightarrow> go_error option" where
  "validateNodePublishRequest req =
     (case validateRequestCapabilties req of
        Some err \<Rightarrow> Some err
      | None \<Rightarrow>
          (let cap = (case req of Some rq \<Rightarrow> np_VolumeCapability rq | None \<Rightarrow> None) in
           if cap = Some BlockVolume
           then Some (StatusError InvalidArgument ''cannot publish a non-block volume as block volume'')
           else if \<not> (case cap of Some c \<Rightarrow> has_mount c | None \<Rightarrow> False)
           then Some (StatusError InvalidArgument ''can only publish a non-block volume'')
           else None))"

definition canMountVolume :: "mounter \<Rightarrow> string \<Rightarrow> os \<Rightarrow> (go_error + bool) \<times> os" where
  "canMountVolume mounter targetPath w =
     (case IsNotMountPoint mounter targetPath w of
        Inr notMnt \<Rightarrow> (Inr notMnt, w)
      | Inl err \<Rightarrow>
          if IsNotExist err then
            (case os_Mkdir targetPath w of
               (Some err', w') \<Rightarrow> (Inl (WrapError ''create target path: '' err'), w')
             | (None, w') \<Rightarrow> (Inr True, w'))
          else (Inl (WrapError ''check target path: '' err), w))"

definition isEphemeralVolumeRequest :: "NodePublishVolumeRequest \<Rightarrow> bool" where
  "isEphemeralVolumeRequest rq \<longleftrightarrow> gomap_get [] (np_VolumeContext rq) ephemeralContextKey = ''true''"

definition isEphemeralVolumeId :: "string \<Rightarrow> bool" where
  "isEphemeralVolumeId volumeId \<longleftrightarrow> prefix ''csi'' volumeId"

definition getEphemeralVolumePath :: "hostPathNode \<Rightarrow> string \<Rightarrow> string \<Rightarrow> string" where
  "getEphemeralVolumePath hpn pool volumeId =
     (let spi = cfg_StoragePoolInfo (hpn_cfg hpn);
          storagePoolPath = Path (pool_info spi pool)
      in Join [if storagePoolPath = [] then Path (pool_info spi (cfg_DefaultStoragePoolName (hpn_cfg hpn)))
               else storagePoolPath, volumeId])"

definition publish_options :: "bool \<Rightarrow> string list" where
  "publish_options readOnly = (if readOnly then [''bind'', ''ro''] else [''bind''])"

definition mount_failed ::
    "NodePublishVolumeRequest \<Rightarrow> string \<Rightarrow> string \<Rightarrow> go_error \<Rightarrow> os \<Rightarrow> unit outcome \<times> os" where
  \<comment> \<open>the error branch of \<open>mountVolume\<close>; \<open>fileInfo\<close> is nil when \<open>os.Stat\<close> fails\<close>
  "mount_failed rq path targetPath err w =
     (case os_Stat targetPath w of
        Inl statErr \<Rightarrow> (Panic nil_deref, w)
      | Inr _ \<Rightarrow>
          (let errList = error_msg err @ os_mode w (os_fs w) (path_key targetPath);
               finish = (\<lambda>el. Err (ErrorString
                 (''failed to mount device: '' @ path @ '' at '' @ targetPath @ '': '' @ el)))
           in if isEphemeralVolumeRequest rq then
                (case os_RemoveAll path w of
                   (None, w') \<Rightarrow> (finish errList, w')
                 | (Some rmErr, w') \<Rightarrow>
                     (finish (if \<not> IsNotExist rmErr then errList @ '' :'' @ error_msg rmErr else errList), w'))
              else (finish errList, w)))"

definition mountVolume ::
    "hostPathNode \<Rightarrow> mounter \<Rightarrow> string \<Rightarrow> NodePublishVolumeRequest \<Rightarrow> os \<Rightarrow> unit outcome \<times> os" where
  "mountVolume hpn mounter targetPath rq w =
     (let fsType = (case np_VolumeCapability rq of Some (MountVolume fs _) \<Rightarrow> fs | _ \<Rightarrow> []);
          volumeId = np_VolumeId rq;
          options = publish_options (np_Readonly rq);
          pool = getStoragePoolNameFromMap (np_VolumeContext rq);
          attach = (\<lambda>path w1. case mt_Mount mounter path targetPath fsType options w1 of
                       (None, w2) \<Rightarrow> (Ok (), w2)
                     | (Some err, w2) \<Rightarrow> mount_failed rq path targetPath err w2)
      in if isEphemeralVolumeRequest rq then
           (let path = getEphemeralVolumePath hpn pool volumeId in
            case CreateVolumeDirectory (Dir path) volumeId w of
              (Some err, w1) \<Rightarrow>
                (Err (WrapError (''failed to create ephemeral volume '' @ volumeId @ '': '') err), w1)
            | (None, w1) \<Rightarrow> attach path w1)
         else attach (Join [Path (pool_info (cfg_StoragePoolInfo (hpn_cfg hpn)) pool), volumeId]) w)"

definition NodePublishVolume ::
    "hostPathNode \<Rightarrow> NodePublishVolumeRequest option \<Rightarrow> os \<Rightarrow> unit outcome \<times> os" where
  "NodePublishVolume hpn req w =
     (case validateNodePublishRequest req of
        Some err \<Rightarrow> (Err err, w)
      | None \<Rightarrow>
     (case (req, cfg_Mounter (hpn_cfg hpn)) of
        (Some rq, Some mounter) \<Rightarrow>
          (case canMountVolume mounter (np_TargetPath rq) w of
             (Inl err, w') \<Rightarrow> (Err err, w')
           | (Inr canMnt, w') \<Rightarrow>
               if \<not> canMnt then (Ok (), w')
               else mountVolume hpn mounter (np_TargetPath rq) rq w')
      | _ \<Rightarrow> (Panic nil_deref, w)))"

section \<open>Unpublishing\<close>

definition validateNodeUnpublishRequest :: "NodeUnpublishVolumeRequest option \<Rightarrow> go_error option" where
  "validateNodeUnpublishRequest req =
     (case req of
        None \<Rightarrow> Some (StatusError InvalidArgument ''volume ID not provided'')
      | Some rq \<Rightarrow>
          if nu_VolumeId rq = [] then Some (StatusError InvalidArgument ''volume ID not provided'')
          else if nu_TargetPath rq = [] then Some (StatusError InvalidArgument ''target path not provided'')
          else None)"

definition node_getVolumeDirectories :: "hostPathNode \<Rightarrow> os \<Rightarrow> go_error + string list" where
  "node_getVolumeDirectories hpn w = getStoragePoolDataDirectories (cfg_StoragePoolInfo (hpn_cfg hpn)) w"

definition removeEphemeralPath :: "hostPathNode \<Rightarrow> string \<Rightarrow> os \<Rightarrow> go_error option \<times> os" where
  "removeEphemeralPath hpn volumeId w =
     (case node_getVolumeDirectories hpn w of
        Inl err \<Rightarrow> (Some err, w)
      | Inr volumeDirs \<Rightarrow>
          (let volumePath = find_volume volumeId volumeDirs []
           in if volumePath \<noteq> []
              then (case DeleteVolume (Dir volumePath) volumeId w of
                      (Some err, w') \<Rightarrow>
                        (Some (ErrorString (''failed to delete ephemeral volume '' @ volumeId @ '': '' @ error_msg err)), w')
                    | (None, w') \<Rightarrow> (None, w'))
              else (None, w)))"

definition remove_target :: "hostPathNode \<Rightarrow> NodeUnpublishVolumeRequest \<Rightarrow> os \<Rightarrow> unit outcome \<times> os" where
  \<comment> \<open>the part of \<open>NodeUnpublishVolume\<close> after the target is unmounted\<close>
  "remove_target hpn rq w =
     (case os_RemoveAll (nu_TargetPath rq) w of
        (Some err, w') \<Rightarrow> (Err (WrapError ''remove target path: '' err), w')
      | (None, w') \<Rightarrow>
          if isEphemeralVolumeId (nu_VolumeId rq) then
            (case removeEphemeralPath hpn (nu_VolumeId rq) w' of
               (Some err, w'') \<Rightarrow>
                 (Err (ErrorString (''failed to delete ephemeral volume: '' @ nu_VolumeId rq @ '', '' @ error_msg err)), w'')
             | (None, w'') \<Rightarrow> (Ok (), w''))
          else (Ok (), w'))"

definition NodeUnpublishVolume ::
    "hostPathNode \<Rightarrow> NodeUnpublishVolumeRequest option \<Rightarrow> os \<Rightarrow> unit outcome \<times> os" where
  "NodeUnpublishVolume hpn req w =
     (case validateNodeUnpublishRequest req of
        Some err \<Rightarrow> (Err err, w)
      | None \<Rightarrow>
     (case (req, cfg_Mounter (hpn_cfg hpn)) of
        (Some rq, Some mounter) \<Rightarrow>
          (case IsNotMountPoint mounter (nu_TargetPath rq) w of
             Inl err \<Rightarrow>
               if \<not> IsNotExist err then (Err (WrapError ''check target path: '' err), w)
               else remove_target hpn rq w
           | Inr notMnt \<Rightarrow>
               if \<not> notMnt then
                 (case mt_Unmount mounter (nu_TargetPath rq) w of
                    (Some err, w') \<Rightarrow> (Err (WrapError ''unmount target path: '' err), w')
                  | (None, w') \<Rightarrow> remove_target hpn rq w')
               else remove_target hpn rq w)
      | _ \<Rightarrow> (Panic nil_deref, w)))"

section \<open>Information\<close>

definition NodeStageVolume :: "unit outcome" where
  "NodeStageVolume = Err (StatusError Unimplemented ''NodeStageVolume is not supported'')"

definition NodeUnstageVolume :: "unit outcome" where
  "NodeUnstageVolume = Err (StatusError Unimplemented ''NodeUnstageVolume is not supported'')"

definition NodeExpandVolume :: "unit outcome" where
  "NodeExpandVolume = Err (StatusError Unimplemented ''NodeExpandVolume is not supported'')"

definition NodeGetInfo :: "hostPathNode \<Rightarrow> string \<times> Topology" where
  "NodeGetInfo hpn = (cfg_NodeID (hpn_cfg hpn), [(TopologyKeyNode, cfg_NodeID (hpn_cfg hpn))])"

datatype node_capability = NODE_VOLUME_CONDITION | GET_VOLUME_STATS

definition NodeGetCapabilities :: "node_capability list" where
  "NodeGetCapabilities = [NODE_VOLUME_CONDITION, GET_VOLUME_STATS]"

definition validateNodeGetVolumeStatsRequest :: "NodeGetVolumeStatsRequest option \<Rightarrow> go_error option" where
  "validateNodeGetVolumeStatsRequest req =
     (case req of
        None \<Rightarrow> Some (StatusError InvalidArgument ''volume ID not provided'')
      | Some rq \<Rightarrow>
          if ns_VolumeId rq = [] then Some (StatusError InvalidArgument ''volume ID not provided'')
          else if ns_VolumePath rq = [] then Some (StatusError InvalidArgument ''volume path not provided'')
          else None)"

definition NodeGetVolumeStats ::
    "decoder \<Rightarrow> NodeGetVolumeStatsRequest option \<Rightarrow> os \<Rightarrow> NodeGetVolumeStatsResponse outcome" where
  "NodeGetVolumeStats decode req w =
     (case validateNodeGetVolumeStatsRequest req of
        Some err \<Rightarrow> Err err
      | None \<Rightarrow>
     (case req of None \<Rightarrow> Panic nil_deref | Some rq \<Rightarrow>
     (case os_Stat (ns_VolumePath rq) w of
        Inl err \<Rightarrow> Err (StatusError NotFound
          (''Could not get file information from '' @ ns_VolumePath rq @ '': '' @ error_msg err))
      | Inr _ \<Rightarrow>
          (let (healthy, msg) = doHealthCheckInNodeSide decode (ns_VolumePath rq) w in
           case getPVStats (ns_VolumePath rq) w of
             Inl err \<Rightarrow> Err (WrapError ''get volume stats failed: '' err)
           | Inr st \<Rightarrow>
               Ok \<lparr>ns_Usage =
                     [\<lparr>vu_Available = pv_available st, vu_Used = pv_used st, vu_Total = pv_capacity st, vu_Unit = BYTES\<rparr>,
                      \<lparr>vu_Available = pv_inodesFree st, vu_Used = pv_inodesUsed st, vu_Total = pv_inodes st, vu_Unit = INODES\<rparr>],
                   ns_Abnormal = (\<not> healthy), ns_Message = msg\<rparr>))))"

section \<open>Facts\<close>

lemma os_Mkdir_ok:
  assumes "os_Mkdir s w = (None, w')" "os_ok w"
  shows "w' = w\<lparr>os_fs := os_fs w @ [(path_key s, Directory)]\<rparr>" and "lookup w (path_key s) = None"
    and "s \<noteq> []" and "lookup w (butlast (path_key s)) = Some Directory" and "os_ok w'"
proof -
  let ?k = "path_key s"
  have nb: "\<not> blocked (os_fs w) ?k" and none: "lookup w ?k = None" and par: "lookup w (butlast ?k) \<noteq> None"
    and w': "w' = w\<lparr>os_fs := os_fs w @ [(?k, Directory)]\<rparr>" and ne: "s \<noteq> []"
    using assms(1) by (auto simp: os_Mkdir_def Let_def split: if_splits option.splits)
  have kne: "?k \<noteq> []" using none by auto
  have "length (butlast ?k) < length ?k" using kne by simp
  then have "butlast ?k \<noteq> ?k" by (metis less_irrefl)
  moreover have "prefix (butlast ?k) ?k" by (rule prefixeq_butlast)
  ultimately have dir: "lookup w (butlast ?k) = Some Directory"
    using nb par by (cases "lookup w (butlast ?k)"; cases "the (lookup w (butlast ?k))") (auto simp: blocked_iff)
  have "fs_wf (os_fs w @ [(butlast ?k @ [last ?k], Directory)])"
    using os_okD [OF assms(2)] none dir path_key_elems [of _ s] kne
    by (intro fs_wf_append) (auto dest: in_set_butlastD)
  then show "os_ok w'" using assms(2) kne by (simp add: os_ok_def w')
  show "w' = w\<lparr>os_fs := os_fs w @ [(?k, Directory)]\<rparr>" "lookup w ?k = None" "s \<noteq> []"
    "lookup w (butlast ?k) = Some Directory" by (fact w', fact none, fact ne, fact dir)
qed

lemma CreateVolumeDirectory_stat:
  assumes "CreateVolumeDirectory b i w = (e, w')" "os_ok w" "os_Stat t w = Inr n"
  shows "os_Stat t w' = Inr n" and "os_mounts w' = os_mounts w"
proof -
  obtain e' where mk: "os_MkdirAll (Join [b, i]) w = (e', w')"
    using assms(1) by (auto simp: CreateVolumeDirectory_def createVolumeDirectoryFunc_def split: prod.splits option.splits)
  have env: "same_env w w'" by (rule os_MkdirAll_env [OF mk])
  have l: "lookup w' (path_key t) = Some n" by (rule os_MkdirAll_keeps [OF mk os_Stat_Inr [OF assms(3)]])
  have "\<not> blocked (os_fs w') (path_key t)" by (rule not_blocked [OF os_MkdirAll_wf [OF mk os_okD [OF assms(2)]] l])
  then show "os_Stat t w' = Inr n" using assms(3) env l
    by (auto simp: os_Stat_def same_env_def Let_def split: if_splits option.splits)
  show "os_mounts w' = os_mounts w" using env by (simp add: same_env_def)
qed

definition publish_source :: "hostPathNode \<Rightarrow> NodePublishVolumeRequest \<Rightarrow> string" where
  \<comment> \<open>the directory that is mounted\<close>
  "publish_source hpn rq =
     (let pool = getStoragePoolNameFromMap (np_VolumeContext rq)
      in if isEphemeralVolumeRequest rq then getEphemeralVolumePath hpn pool (np_VolumeId rq)
         else Join [Path (pool_info (cfg_StoragePoolInfo (hpn_cfg hpn)) pool), np_VolumeId rq])"

context mount_service
begin

lemma canMount_True:
  assumes "canMountVolume mnt t w = (Inr True, w1)" "os_ok w"
  shows "os_ok w1" and "os_mounts w1 = os_mounts w" and "\<exists>n. os_Stat t w1 = Inr n"
    and "os_fs w1 = os_fs w \<or> os_fs w1 = os_fs w @ [(path_key t, Directory)] \<and> lookup w (path_key t) = None \<and>
           lookup w (butlast (path_key t)) = Some Directory"
proof -
  from assms(1) consider "IsNotMountPoint mnt t w = Inr True" "w1 = w"
    | e where "IsNotMountPoint mnt t w = Inl e" "IsNotExist e" "os_Mkdir t w = (None, w1)"
    by (auto simp: canMountVolume_def split: sum.splits if_splits prod.splits option.splits)
  then have "os_ok w1 \<and> os_mounts w1 = os_mounts w \<and> (\<exists>n. os_Stat t w1 = Inr n) \<and>
    (os_fs w1 = os_fs w \<or> os_fs w1 = os_fs w @ [(path_key t, Directory)] \<and> lookup w (path_key t) = None \<and>
       lookup w (butlast (path_key t)) = Some Directory)"
  proof cases
    case 1
    then show ?thesis using IsNotMountPoint_Inr(2) [OF 1(1)] assms(2) by simp
  next
    case 2
    note mk = os_Mkdir_ok [OF 2(3) assms(2)]
    obtain e' where e': "os_Stat t w = Inl e'" "IsNotExist e'" using IsNotMountPoint_missing [OF 2(1,2)] by blast
    then have "os_fault w SysStat (path_key t) = None"
      using assms(2) mk(3) by (auto simp: os_Stat_def Let_def os_ok_def split: option.splits)
    moreover have l: "lookup w1 (path_key t) = Some Directory" using mk(1,2) by (simp add: fs_lookup_append)
    ultimately have "os_Stat t w1 = Inr Directory"
      using mk(1,3) not_blocked [OF os_okD [OF mk(5)] l] by (simp add: os_Stat_def Let_def)
    then show ?thesis using mk by simp
  qed
  then show "os_ok w1" and "os_mounts w1 = os_mounts w" and "\<exists>n. os_Stat t w1 = Inr n"
    and "os_fs w1 = os_fs w \<or> os_fs w1 = os_fs w @ [(path_key t, Directory)] \<and> lookup w (path_key t) = None \<and>
           lookup w (butlast (path_key t)) = Some Directory" by blast+
qed

lemma canMount_False:
  assumes "canMountVolume mnt t w = (Inr False, w1)"
  shows "w1 = w" and "list_ex (\<lambda>mp. isMountPointMatch mp (Clean t)) (os_mounts w)" and "\<exists>n. os_Stat t w = Inr n"
proof -
  have "IsNotMountPoint mnt t w = Inr False" "w1 = w"
    using assms by (auto simp: canMountVolume_def split: sum.splits if_splits prod.splits option.splits)
  then show "w1 = w" and "list_ex (\<lambda>mp. isMountPointMatch mp (Clean t)) (os_mounts w)" and "\<exists>n. os_Stat t w = Inr n"
    using IsNotMountPoint_Inr [of t w False] by blast+
qed

text \<open>What a successful publish has done: nothing on a mount point, and otherwise one mount on the
  target, which is made when it is missing, after the directory of an ephemeral volume is made.\<close>

lemma publish_steps:
  assumes "NodePublishVolume hpn (Some rq) w = (Ok (), w')" "cfg_Mounter (hpn_cfg hpn) = Some mnt" "os_ok w"
  obtains (skip) "w' = w" "canMountVolume mnt (np_TargetPath rq) w = (Inr False, w)"
  | (attach) w1 w2 mp n where "canMountVolume mnt (np_TargetPath rq) w = (Inr True, w1)"
      "if isEphemeralVolumeRequest rq
       then CreateVolumeDirectory (Dir (publish_source hpn rq)) (np_VolumeId rq) w1 = (None, w2) else w2 = w1"
      "os_Stat (np_TargetPath rq) w2 = Inr n" "w' = w2\<lparr>os_mounts := os_mounts w @ [mp]\<rparr>"
      "mp_Path mp = Clean (np_TargetPath rq)" "mp_Opts mp = publish_options (np_Readonly rq)"
      "publish_source hpn rq \<notin> mp_Path ` set (os_mounts w) \<longrightarrow> mp_Device mp = publish_source hpn rq"
proof -
  let ?t = "np_TargetPath rq" and ?path = "publish_source hpn rq"
  obtain b w1 where can: "canMountVolume mnt ?t w = (Inr b, w1)"
    and go: "if \<not> b then w' = w1 else mountVolume hpn mnt ?t rq w1 = (Ok (), w')"
    using assms(1,2) by (auto simp: NodePublishVolume_def split: option.splits prod.splits sum.splits if_splits)
  show thesis
  proof (cases b)
    case False
    then have "canMountVolume mnt ?t w = (Inr False, w1)" using can by simp
    then show thesis using canMount_False [of ?t w w1] go False by (intro skip) simp_all
  next
    case True
    then have can: "canMountVolume mnt ?t w = (Inr True, w1)" using can by simp
    note c = canMount_True [OF can assms(3)]
    obtain n where n: "os_Stat ?t w1 = Inr n" using c(3) by blast
    obtain f w2 where dir: "if isEphemeralVolumeRequest rq
       then CreateVolumeDirectory (Dir ?path) (np_VolumeId rq) w1 = (None, w2) else w2 = w1"
      and m: "mt_Mount mnt ?path ?t f (publish_options (np_Readonly rq)) w2 = (None, w')"
      using go True
      by (auto simp: mountVolume_def mount_failed_def publish_source_def Let_def
          split: prod.splits option.splits sum.splits if_splits)
    have w2: "os_Stat ?t w2 = Inr n" "os_mounts w2 = os_mounts w"
      using dir n c(2) CreateVolumeDirectory_stat [OF _ c(1) n] by (auto split: if_splits)
    obtain mp where mp: "os_mounts w' = os_mounts w2 @ [mp]" "mp_Path mp = Clean ?t"
      "mp_Opts mp = publish_options (np_Readonly rq)" "?path \<notin> mp_Path ` set (os_mounts w2) \<longrightarrow> mp_Device mp = ?path"
      using mount_ok [OF m w2(1)] by blast
    have "w' = w2\<lparr>os_mounts := os_mounts w @ [mp]\<rparr>" using mount_only [OF m] mp(1) w2(2) by simp
    then show thesis using attach [OF can dir w2(1)] mp w2(2) by simp
  qed
qed

text \<open>A mount on a target that exists is not repeated.\<close>

lemma publish_settled:
  assumes "os_Stat (np_TargetPath rq) w = Inr n"
    and "list_ex (\<lambda>mp. isMountPointMatch mp (Clean (np_TargetPath rq))) (os_mounts w)"
    and "cfg_Mounter (hpn_cfg hpn) = Some mnt" "NodePublishVolume hpn (Some rq) w = (r, w')"
  shows "w' = w"
proof -
  have "canMountVolume mnt (np_TargetPath rq) w = (Inr False, w) \<or>
        (\<exists>e. canMountVolume mnt (np_TargetPath rq) w = (Inl e, w))"
  proof (cases "IsNotMountPoint mnt (np_TargetPath rq) w")
    case (Inr b)
    then show ?thesis using IsNotMountPoint_Inr(1) [OF Inr] assms(2) by (simp add: canMountVolume_def)
  next
    case (Inl e)
    then have "\<not> IsNotExist e" using IsNotMountPoint_missing [OF Inl] assms(1) by auto
    then show ?thesis using Inl by (simp add: canMountVolume_def)
  qed
  then show ?thesis
    using assms(3,4) by (auto simp: NodePublishVolume_def split: option.splits)
qed

lemma unpublish_steps:
  assumes "NodeUnpublishVolume hpn (Some rq) w = (r, w')" "cfg_Mounter (hpn_cfg hpn) = Some mnt" "os_ok w"
  obtains (stop) "w' = w\<lparr>os_mounts := os_mounts w'\<rparr>" "r \<noteq> Ok ()"
  | (remove) w1 where "w1 = w\<lparr>os_mounts := os_mounts w1\<rparr>" "remove_target hpn rq w1 = (r, w')"
    "nu_TargetPath rq \<noteq> []" "nu_VolumeId rq \<noteq> []"
    "Clean (nu_TargetPath rq) \<in> mp_Path ` set (os_mounts w1) \<Longrightarrow> lookup w (path_key (nu_TargetPath rq)) = None"
    "os_mounts w1 = os_mounts w \<or>
     mp_Path ` set (os_mounts w1) = mp_Path ` set (os_mounts w) - {Clean (nu_TargetPath rq)}"
proof (cases "validateNodeUnpublishRequest (Some rq)")
  case (Some e)
  then show ?thesis using assms(1) that(1) by (auto simp: NodeUnpublishVolume_def)
next
  case None
  let ?t = "nu_TargetPath rq"
  have val: "?t \<noteq> []" "nu_VolumeId rq \<noteq> []"
    using None by (auto simp: validateNodeUnpublishRequest_def split: if_splits)
  from None assms(1,2) consider (fails) "w' = w" "r \<noteq> Ok ()"
    | (missing) e where "IsNotMountPoint mnt ?t w = Inl e" "IsNotExist e" "remove_target hpn rq w = (r, w')"
    | (free) "IsNotMountPoint mnt ?t w = Inr True" "remove_target hpn rq w = (r, w')"
    | (busy) e where "mt_Unmount mnt ?t w = (Some e, w')" "r \<noteq> Ok ()"
    | (mounted) w1 where "IsNotMountPoint mnt ?t w = Inr False" "mt_Unmount mnt ?t w = (None, w1)" "remove_target hpn rq w1 = (r, w')"
    by (auto simp: NodeUnpublishVolume_def split: option.splits sum.splits if_splits prod.splits)
  then show ?thesis
  proof cases
    case fails
    then show ?thesis using that(1) by simp
  next
    case busy
    then show ?thesis using that(1) unmount_only [OF busy(1)] by simp
  next
    case missing
    obtain e' where e': "os_Stat ?t w = Inl e'" "IsNotExist e'" using IsNotMountPoint_missing [OF missing(1,2)] by blast
    then have "errors_Is_NotExist e'" by (cases e') auto
    then have "lookup w (path_key ?t) = None" using os_Stat_missing [OF assms(3) e'(1)] val(1) by blast
    then show ?thesis using that(2) [of w] missing(3) val by simp
  next
    case free
    then have "Clean ?t \<notin> mp_Path ` set (os_mounts w)"
      using IsNotMountPoint_Inr(1) [OF free(1)] by (auto simp: list_ex_iff isMountPointMatch_def)
    then show ?thesis using that(2) [of w] free(2) val by simp
  next
    case (mounted w1)
    obtain n where "os_Stat ?t w = Inr n" using IsNotMountPoint_Inr(2) [OF mounted(1)] by blast
    then have "mp_Path ` set (os_mounts w1) = mp_Path ` set (os_mounts w) - {Clean ?t}" by (rule unmount_ok [OF mounted(2)])
    then show ?thesis using that(2) [of w1] unmount_only [OF mounted(2)] mounted(3) val by auto
  qed
qed

end

lemma remove_target_steps:
  assumes "remove_target hpn rq w = (r, w')"
  obtains (kept) e where "os_RemoveAll (nu_TargetPath rq) w = (Some e, w')" "r \<noteq> Ok ()"
  | (plain) "os_RemoveAll (nu_TargetPath rq) w = (None, w')" "r = Ok ()" "\<not> isEphemeralVolumeId (nu_VolumeId rq)"
  | (ephemeral) w1 e where "os_RemoveAll (nu_TargetPath rq) w = (None, w1)" "isEphemeralVolumeId (nu_VolumeId rq)"
      "removeEphemeralPath hpn (nu_VolumeId rq) w1 = (e, w')" "r = Ok () \<longleftrightarrow> e = None"
  using assms by (auto simp: remove_target_def split: prod.splits option.splits if_splits)

text \<open>Removing an ephemeral volume is \<open>DeleteVolume\<close> of the controller on the same pools.\<close>

lemma removeEphemeralPath_eq:
  assumes "i \<noteq> []" "removeEphemeralPath hpn i w = (e, w')"
  shows "\<exists>r. DeleteVolume_rpc \<lparr>hpc_cfg = hpn_cfg hpn, hpc_snapshotproviders = []\<rparr> (Some i) w = (r, w') \<and>
    (r = Ok () \<longleftrightarrow> e = None)"
  using assms
  by (auto simp: removeEphemeralPath_def node_getVolumeDirectories_def DeleteVolume_rpc_def
      validateDeleteVolumeRequest_def getVolumeDirectories_def Let_def
      split: sum.splits prod.splits option.splits if_splits)

lemma removeEphemeralPath_env:
  assumes "removeEphemeralPath hpn i w = (e, w')"
  shows "same_env w w'"
proof -
  have *: "same_env x y" if del: "DeleteVolume b j x = (d, y)" for b j x d y
  proof -
    obtain d' where "os_RemoveAll (Join [b, j]) x = (d', y)" by (rule DeleteVolume_util_result [OF del])
    then show ?thesis by (rule os_RemoveAll_env)
  qed
  show ?thesis
    using assms * by (auto simp: removeEphemeralPath_def Let_def split: sum.splits prod.splits option.splits if_splits)
qed

end
