(* ===== verification/Volume_Properties.thy ===== *)
theory Volume_Properties
  imports Controller_Server
begin

text \<open>
  The properties of creating, deleting and listing volumes (\<open>pkg/hostpath/controllerserver.go\<close>,
  \<open>pkg/hostpath/utils.go\<close>), each with an application to the small cluster node below.
\<close>

section \<open>A node with two pools\<close>

definition demo_info :: "string \<Rightarrow> string \<Rightarrow> StoragePoolInfo" where
  "demo_info n p = \<lparr>Name = n, Path = p, SnapshotPath = Some (p @ ''-snap''),
                    SnapshotProvider = Some ReflinkProvider, Shared = False\<rparr>"

definition demo_pools :: pools where
  "demo_pools = [(''legacy'', demo_info ''legacy'' ''/a''), (''other'', demo_info ''other'' ''/b'')]"

definition demo_cfg :: Config where
  "demo_cfg = \<lparr>cfg_DriverName = ''hostpath'', cfg_Endpoint = ''unix:///csi/csi.sock'', cfg_NodeID = ''n1'',
     cfg_StoragePoolInfo = demo_pools, cfg_DefaultStoragePoolName = ''legacy'', cfg_Version = ''1'',
     cfg_Mounter = Some FakeMounter\<rparr>"

definition demo_hpc :: hostPathController where
  "demo_hpc = \<lparr>hpc_cfg = demo_cfg, hpc_snapshotproviders =
     map (\<lambda>(k, info). (k, reflink_provider cp_rp
            \<lparr>r_nodeName = ''n1'', r_path = Path info @ ''-snap'', r_sourcePath = Path info\<rparr>)) demo_pools\<rparr>"

definition demo_statfs :: Statfs_t where
  "demo_statfs = \<lparr>Bavail = 10, Blocks = 20, Bfree = 12, Files = 100, Ffree = 50, Bsize = 4096\<rparr>"

definition demo_os :: "fs \<Rightarrow> os" where
  "demo_os f = \<lparr>os_fs = f, os_fault = (\<lambda>_ _. None), os_ctim = (\<lambda>_ _. (7, 9)),
                os_statfs = (\<lambda>_ _. Inr demo_statfs), os_mode = (\<lambda>_ _. ''drwxr-xr-x''), os_LookPath = (\<lambda>_. Inl (ErrorString ''none'')),
                os_Command = (\<lambda>_ _ _. Inl (ErrorString ''none'')),
                os_mounts = []\<rparr>"

definition demo_fs :: fs where
  "demo_fs = [([''a''], Directory), ([''b''], Directory), ([''a'', ''v1''], Directory),
              ([''a'', ''v1'', ''f''], RegularFile ''x''), ([''b'', ''v2''], Directory)]"

definition demo_request :: "string \<Rightarrow> CreateVolumeRequest" where
  "demo_request n = \<lparr>cv_Name = n, cv_VolumeCapabilities = Some [MountVolume ''ext4'' []],
     cv_Parameters = [], cv_VolumeContentSource = None, cv_AccessibilityRequirements = None\<rparr>"

lemma demo_ok: "fs_wf f \<Longrightarrow> os_ok (demo_os f)"
  by (simp add: os_ok_def demo_os_def)

lemma demo_fs_wf: "fs_wf demo_fs"
  by code_simp

lemma demo_entry: "pool_entry demo_hpc i p \<longleftrightarrow> p = [''a'', i] \<or> p = [''b'', i]"
proof -
  have "pool_entry demo_hpc i p \<longleftrightarrow> (\<exists>e \<in> set demo_pools. p = path_key (Path (snd e)) @ [i])"
    by (force simp: pool_entry_def demo_hpc_def demo_cfg_def)
  moreover have "path_key ''/a'' = [''a'']" "path_key ''/b'' = [''b'']" by code_simp+
  ultimately show ?thesis by (simp add: demo_pools_def demo_info_def)
qed

lemma run_ok: "is_ok (fst x) \<Longrightarrow> (\<And>v w'. x = (Ok v, w') \<Longrightarrow> thesis) \<Longrightarrow> thesis"
  by (cases x) (auto simp: is_ok_iff)

lemma run_none: "fst x = None \<Longrightarrow> (\<And>w'. x = (None, w') \<Longrightarrow> thesis) \<Longrightarrow> thesis"
  by (cases x) auto

section \<open>Creating a volume\<close>

abbreviation volume_key :: "hostPathController \<Rightarrow> CreateVolumeRequest \<Rightarrow> path" where
  "volume_key hpc rq \<equiv> path_key (Path (request_pool hpc rq)) @ [cv_Name rq]"

text \<open>C1: A successful \<open>CreateVolume\<close> without a snapshot source leaves the directory of the volume in
  the requested pool, pinned to the node unless the pool is shared. It changes no existing file
  and makes no directory but the volume's and its missing ancestors.\<close>
theorem create_volume_correct:
  assumes "os_ok w" "simple_name (cv_Name rq)" "no_snapshot_source rq"
    and "CreateVolume hpc (Some rq) w = (Ok v, w')"
  shows "v_VolumeId v = cv_Name rq \<and>
    v_AccessibleTopology v =
      (if Shared (request_pool hpc rq) then [] else [[(TopologyKeyNode, cfg_NodeID (hpc_cfg hpc))]]) \<and>
    lookup w' (volume_key hpc rq) =
      (case lookup w (volume_key hpc rq) of Some n \<Rightarrow> Some n | None \<Rightarrow> Some Directory) \<and>
    (\<forall>q n. lookup w q = Some n \<longrightarrow> lookup w' q = Some n) \<and>
    (\<forall>q n. lookup w q = None \<and> lookup w' q = Some n \<longrightarrow> n = Directory \<and> prefix q (volume_key hpc rq)) \<and>
    os_ok w'"
proof -
  from assms(4) obtain w1 where mk: "make_directory hpc rq w w1"
    and pop: "populate hpc (getStoragePoolNameFromMap (cv_Parameters rq)) rq w1 = (None, w')"
    and v: "v_VolumeId v = cv_Name rq" "v_AccessibleTopology v =
      (if Shared (request_pool hpc rq) then [] else [[(TopologyKeyNode, cfg_NodeID (hpc_cfg hpc))]])"
    by (rule CreateVolume_Ok)
  have "w' = w1" using pop populate_no_source [OF assms(3)] by simp
  then show ?thesis using make_directory_facts [OF mk assms(1,2)] v by blast
qed

theorem create_volume_correct_witness:
  "\<exists>v w'. CreateVolume demo_hpc (Some (demo_request ''v9'')) (demo_os demo_fs) = (Ok v, w') \<and>
     v_VolumeId v = ''v9'' \<and> lookup w' [''a'', ''v9''] = Some Directory"
proof -
  have "is_ok (fst (CreateVolume demo_hpc (Some (demo_request ''v9'')) (demo_os demo_fs)))" by code_simp
  then obtain v w' where run: "CreateVolume demo_hpc (Some (demo_request ''v9'')) (demo_os demo_fs) = (Ok v, w')"
    by (rule run_ok)
  have n: "simple_name (cv_Name (demo_request ''v9''))" "no_snapshot_source (demo_request ''v9'')"
    by (simp_all add: demo_request_def simple_name_def no_snapshot_source_def)
  have k: "volume_key demo_hpc (demo_request ''v9'') = [''a'', ''v9'']"
    and l: "lookup (demo_os demo_fs) [''a'', ''v9''] = None" by code_simp+
  show ?thesis
    using create_volume_correct [OF demo_ok [OF demo_fs_wf] n run] run unfolding k l
    by (auto simp: demo_request_def)
qed

text \<open>C3: A repeated \<open>CreateVolume\<close> is idempotent for a plain volume name and a request without a snapshot as
  content source: after a success, the same request changes nothing, and as long as the capacity of
  the pool can be read it succeeds again and describes the same volume with that capacity. A request with a snapshot
  source is excluded: its repetition restores the snapshot again, and deletes the volume when that
  fails.\<close>
theorem create_volume_idempotent:
  assumes "os_ok w" "simple_name (cv_Name rq)" "no_snapshot_source rq"
    and "CreateVolume hpc (Some rq) w = (Ok v, w')" "CreateVolume hpc (Some rq) w' = (r, w'')"
  shows "w'' = w' \<and> (\<forall>v2. r = Ok v2 \<longrightarrow> v2\<lparr>v_CapacityBytes := v_CapacityBytes v\<rparr> = v) \<and>
    (\<forall>cap. getVolumeDirCapacity (Path (request_pool hpc rq)) w' = Inr cap \<longrightarrow> r = Ok (v\<lparr>v_CapacityBytes := cap\<rparr>))"
proof -
  let ?s = "Join [Path (request_pool hpc rq), cv_Name rq]"
  from assms(4) obtain w1 where mk: "make_directory hpc rq w w1"
    and pop: "populate hpc (getStoragePoolNameFromMap (cv_Parameters rq)) rq w1 = (None, w')"
    and v: "v_VolumeId v = cv_Name rq" "v_VolumeContext v = cv_Parameters rq"
      "v_ContentSource v = cv_VolumeContentSource rq" "v_AccessibleTopology v =
      (if Shared (request_pool hpc rq) then [] else [[(TopologyKeyNode, cfg_NodeID (hpc_cfg hpc))]])"
    by (rule CreateVolume_Ok)
  have w1: "w' = w1" using pop populate_no_source [OF assms(3)] by simp
  note mkf = make_directory_facts [OF mk assms(1,2)]
  obtain b where "checkPathExist ?s w = Inr b" using mk by (auto simp: make_directory_def)
  then have ex: "checkPathExist ?s w' = Inr True"
    using checkPathExist_same [OF mkf(2,1), of ?s b] mkf(5) assms(2) w1 by (auto split: option.splits)
  then have same: "w'' = w'"
    using assms(5) populate_no_source [OF assms(3)]
    by (auto simp: CreateVolume_def Let_def request_pool_def split: option.splits if_splits sum.splits)
  have "v2\<lparr>v_CapacityBytes := v_CapacityBytes v\<rparr> = v" if "r = Ok v2" for v2
  proof -
    from assms(5) [unfolded that] have "v_VolumeId v2 = cv_Name rq" "v_VolumeContext v2 = cv_Parameters rq"
      "v_ContentSource v2 = cv_VolumeContentSource rq" "v_AccessibleTopology v2 =
      (if Shared (request_pool hpc rq) then [] else [[(TopologyKeyNode, cfg_NodeID (hpc_cfg hpc))]])"
      by (blast elim: CreateVolume_Ok)+
    then show ?thesis using v by (cases v, cases v2) simp
  qed
  moreover have "r = Ok (v\<lparr>v_CapacityBytes := cap\<rparr>)" if "getVolumeDirCapacity (Path (request_pool hpc rq)) w' = Inr cap" for cap
    using assms(4,5) that ex populate_no_source [OF assms(3)] v
    by (cases v) (auto simp: CreateVolume_def Let_def request_pool_def split: option.splits if_splits sum.splits)
  ultimately show ?thesis using same by blast
qed

theorem create_volume_idempotent_witness:
  "\<exists>v w' r w''. CreateVolume demo_hpc (Some (demo_request ''v9'')) (demo_os demo_fs) = (Ok v, w') \<and>
     CreateVolume demo_hpc (Some (demo_request ''v9'')) w' = (r, w'') \<and> w'' = w'"
proof -
  have "is_ok (fst (CreateVolume demo_hpc (Some (demo_request ''v9'')) (demo_os demo_fs)))" by code_simp
  then obtain v w' where run: "CreateVolume demo_hpc (Some (demo_request ''v9'')) (demo_os demo_fs) = (Ok v, w')"
    by (rule run_ok)
  obtain r w'' where run2: "CreateVolume demo_hpc (Some (demo_request ''v9'')) w' = (r, w'')" by fastforce
  have n: "simple_name (cv_Name (demo_request ''v9''))" "no_snapshot_source (demo_request ''v9'')"
    by (simp_all add: demo_request_def simple_name_def no_snapshot_source_def)
  show ?thesis
    using create_volume_idempotent [OF demo_ok [OF demo_fs_wf] n run run2] run run2 by blast
qed

section \<open>Deleting a volume\<close>

text \<open>C2: \<open>DeleteVolume\<close> cannot leave the storage pools, whatever volume id it is given: every path it
  changes lies at or below an entry of a pool that has that id as its name.\<close>
theorem delete_volume_confined:
  assumes "fs_wf (os_fs w)" "DeleteVolume_rpc hpc (Some i) w = (r, w')" "lookup w' q \<noteq> lookup w q"
  shows "simple_name i \<and> lookup w' q = None \<and> (\<exists>p. pool_entry hpc i p \<and> prefix p q)"
  using assms(2,1)
proof (cases rule: DeleteVolume_rpc_cases)
  case none
  then show ?thesis using assms(3) by simp
next
  case (one p s e)
  have "prefix p q" using os_RemoveAll_outside [OF one(4)] one(5) assms(3) by blast
  moreover have "lookup w' q = None"
    using os_RemoveAll_shrinks [OF one(4), of q] assms(3) by (cases "lookup w' q") auto
  ultimately show ?thesis using one by blast
qed

theorem delete_volume_confined_witness:
  "\<exists>r w'. DeleteVolume_rpc demo_hpc (Some ''v1'') (demo_os demo_fs) = (r, w') \<and>
     lookup w' [''a'', ''v1'', ''f''] \<noteq> lookup (demo_os demo_fs) [''a'', ''v1'', ''f''] \<and>
     (\<exists>p. pool_entry demo_hpc ''v1'' p \<and> prefix p [''a'', ''v1'', ''f''])"
proof -
  have ne: "lookup (snd (DeleteVolume_rpc demo_hpc (Some ''v1'') (demo_os demo_fs))) [''a'', ''v1'', ''f''] \<noteq>
      lookup (demo_os demo_fs) [''a'', ''v1'', ''f'']" by code_simp
  obtain r w' where run: "DeleteVolume_rpc demo_hpc (Some ''v1'') (demo_os demo_fs) = (r, w')" by fastforce
  have wf: "fs_wf (os_fs (demo_os demo_fs))" using demo_ok [OF demo_fs_wf] by (rule os_okD)
  show ?thesis using delete_volume_confined [OF wf run, of "[''a'', ''v1'', ''f'']"] ne run by auto
qed

text \<open>C4: When the id names at most one pool directory, a successful \<open>DeleteVolume\<close> leaves nothing of
  the volume, no pool has a directory of that name any more, and a retry changes nothing.\<close>
theorem delete_volume_removes:
  assumes "fs_wf (os_fs w)" "DeleteVolume_rpc hpc (Some i) w = (Ok (), w')"
    and one_pool: "\<And>p p'. pool_entry hpc i p \<Longrightarrow> lookup w p = Some Directory \<Longrightarrow>
           pool_entry hpc i p' \<Longrightarrow> lookup w p' = Some Directory \<Longrightarrow> p' = p"
  shows "(\<forall>p q. pool_entry hpc i p \<and> lookup w p = Some Directory \<and> prefix p q \<longrightarrow> lookup w' q = None) \<and>
    (\<forall>p. pool_entry hpc i p \<longrightarrow> lookup w' p \<noteq> Some Directory) \<and>
    (\<forall>r w''. DeleteVolume_rpc hpc (Some i) w' = (r, w'') \<longrightarrow> w'' = w')"
proof -
  have gone: "lookup w' q = None" if p: "pool_entry hpc i p" "lookup w p = Some Directory" "prefix p q" for p q
    using assms(2,1)
  proof (cases rule: DeleteVolume_rpc_cases)
    case none
    then show ?thesis using p by blast
  next
    case (one p' s e)
    then have "p' = p" using one_pool p by blast
    then show ?thesis using os_RemoveAll_ok [of s w w' q] one p(3) by simp
  qed
  have none: "lookup w' p \<noteq> Some Directory" if "pool_entry hpc i p" for p
  proof
    assume d: "lookup w' p = Some Directory"
    then have "lookup w p = Some Directory" using DeleteVolume_rpc_shrinks assms(1,2) by blast
    then show False using gone [OF that, of p] d by simp
  qed
  have "w'' = w'" if "DeleteVolume_rpc hpc (Some i) w' = (r, w'')" for r w''
    using that DeleteVolume_rpc_wf [OF assms(2,1)] none by (rule DeleteVolume_rpc_idle)
  then show ?thesis using gone none by blast
qed

theorem delete_volume_removes_witness:
  "\<exists>w'. DeleteVolume_rpc demo_hpc (Some ''v1'') (demo_os demo_fs) = (Ok (), w') \<and>
     lookup w' [''a'', ''v1'', ''f''] = None"
proof -
  have "is_ok (fst (DeleteVolume_rpc demo_hpc (Some ''v1'') (demo_os demo_fs)))" by code_simp
  then obtain w' where run: "DeleteVolume_rpc demo_hpc (Some ''v1'') (demo_os demo_fs) = (Ok (), w')"
    by (auto elim: run_ok)
  have wf: "fs_wf (os_fs (demo_os demo_fs))" using demo_ok [OF demo_fs_wf] by (rule os_okD)
  have l: "lookup (demo_os demo_fs) [''a'', ''v1''] = Some Directory"
    "lookup (demo_os demo_fs) [''b'', ''v1''] = None" by code_simp+
  have one: "p' = p" if "pool_entry demo_hpc ''v1'' p" "lookup (demo_os demo_fs) p = Some Directory"
    "pool_entry demo_hpc ''v1'' p'" "lookup (demo_os demo_fs) p' = Some Directory" for p p'
    using that(1,3) unfolding demo_entry by (elim disjE) (use that(2,4) l in simp_all)
  have "lookup w' [''a'', ''v1'', ''f''] = None"
    by (rule delete_volume_removes [OF wf run one, THEN conjunct1, rule_format, of "[''a'', ''v1'']"])
       (simp_all add: demo_entry l)
  then show ?thesis using run by blast
qed

section \<open>The life of a volume\<close>

text \<open>C5: Creating a volume under a name that no pool uses, in an existing pool, and then deleting it
  gives back exactly the files there were.\<close>
theorem create_delete_restores:
  assumes "os_ok w" "simple_name (cv_Name rq)" "no_snapshot_source rq"
    and pool: "lookup w (path_key (Path (request_pool hpc rq))) = Some Directory"
    and unused: "\<And>p. pool_entry hpc (cv_Name rq) p \<Longrightarrow> lookup w p = None"
    and create: "CreateVolume hpc (Some rq) w = (Ok v, w1)"
    and delete: "DeleteVolume_rpc hpc (Some (cv_Name rq)) w1 = (Ok (), w2)"
  shows "lookup w2 = lookup w"
proof -
  let ?k = "volume_key hpc rq" and ?s = "Join [Path (request_pool hpc rq), cv_Name rq]"
  from create obtain w1' where mk: "make_directory hpc rq w w1'"
    and pop: "populate hpc (getStoragePoolNameFromMap (cv_Parameters rq)) rq w1' = (None, w1)"
    and m: "map_of (hpc_pools hpc) (getStoragePoolNameFromMap (cv_Parameters rq)) \<noteq> None"
    by (rule CreateVolume_Ok)
  have w1: "w1' = w1" using pop populate_no_source [OF assms(3)] by simp
  note mkf = make_directory_facts [OF mk assms(1,2), unfolded w1]
  have entry: "pool_entry hpc (cv_Name rq) ?k"
    using request_pool_member [OF m] by (auto simp: pool_entry_def)
  then have new: "lookup w ?k = None" using unused by blast
  have key: "path_key ?s = ?k" using assms(2) by simp
  have mkdir: "os_MkdirAll ?s w = (None, w1)"
    using mk new key w1 os_Stat_Inr [of ?s w] by (auto simp: make_directory_def checkPathExist_True)
  have above: "lookup w q = Some Directory" if "strict_prefix q ?k" for q
    using fs_dir_above [OF os_okD [OF assms(1)] pool] that unfolding strict_prefix_def prefix_snoc by blast
  have only: "p = ?k" if "pool_entry hpc (cv_Name rq) p" "lookup w1 p = Some Directory" for p
  proof -
    have "prefix p ?k" using mkf(4) [OF unused [OF that(1)] that(2)] by blast
    then show ?thesis using above [of p] unused [OF that(1)] by (cases "p = ?k") (auto simp: strict_prefix_def)
  qed
  from delete os_okD [OF mkf(1)] show ?thesis
  proof (cases rule: DeleteVolume_rpc_cases)
    case none
    then show ?thesis using entry mkf(5) new by simp
  next
    case (one p s e)
    then have "path_key s = path_key ?s" "os_RemoveAll s w1 = (None, w2)" using only key by auto
    then show ?thesis
      using os_dirs.mkdir_remove_restores [OF mkdir _ _ one(6)] above new
        fs_absent_below [OF os_okD [OF assms(1)] new] unfolding key by blast
  qed
qed

theorem create_delete_restores_witness:
  "\<exists>v w1 w2. CreateVolume demo_hpc (Some (demo_request ''v9'')) (demo_os demo_fs) = (Ok v, w1) \<and>
     DeleteVolume_rpc demo_hpc (Some ''v9'') w1 = (Ok (), w2) \<and> lookup w2 = lookup (demo_os demo_fs)"
proof -
  let ?run = "CreateVolume demo_hpc (Some (demo_request ''v9'')) (demo_os demo_fs)"
  have "is_ok (fst ?run)" and del: "is_ok (fst (DeleteVolume_rpc demo_hpc (Some ''v9'') (snd ?run)))" by code_simp+
  then obtain v w1 where run: "?run = (Ok v, w1)" by (auto elim: run_ok)
  with del obtain w2 where run2: "DeleteVolume_rpc demo_hpc (Some ''v9'') w1 = (Ok (), w2)"
    by (auto elim: run_ok)
  have n: "simple_name (cv_Name (demo_request ''v9''))" "no_snapshot_source (demo_request ''v9'')"
    and nm: "cv_Name (demo_request ''v9'') = ''v9''"
    by (simp_all add: demo_request_def simple_name_def no_snapshot_source_def)
  have pool: "lookup (demo_os demo_fs) (path_key (Path (request_pool demo_hpc (demo_request ''v9'')))) = Some Directory"
    by code_simp
  have "lookup (demo_os demo_fs) [''a'', ''v9''] = None" "lookup (demo_os demo_fs) [''b'', ''v9''] = None" by code_simp+
  then have unused: "lookup (demo_os demo_fs) p = None" if "pool_entry demo_hpc (cv_Name (demo_request ''v9'')) p" for p
    using that by (auto simp: nm demo_entry)
  show ?thesis
    using create_delete_restores [OF demo_ok [OF demo_fs_wf] n pool unused run, unfolded nm, OF _ run2] run run2
    by blast
qed

section \<open>Listing volumes\<close>

text \<open>C6: A \<open>ListVolumes\<close> request without token and limit lists exactly the directories of the pools,
  and says that there is no further page.\<close>
theorem list_volumes_complete:
  assumes "fs_wf (os_fs w)"
    and "ListVolumes hpc (Some \<lparr>lv_MaxEntries = 0, lv_StartingToken = []\<rparr>) w = Ok r"
  shows "lv_NextToken r = [] \<and>
    (\<forall>i. i \<in> e_VolumeId ` set (lv_Entries r) \<longleftrightarrow> (\<exists>p. pool_entry hpc i p \<and> lookup w p = Some Directory))"
proof -
  from assms(2) obtain m ds where ds: "getVolumeDirectories hpc w = Inr ds"
    and r: "r = \<lparr>lv_Entries = map (\<lambda>d. volume_entry_for hpc m w (Base d) d) ds, lv_NextToken = []\<rparr>"
    unfolding ListVolumes_Ok by (auto simp: volumes_page_first Let_def)
  have nt: "lv_NextToken r = []" and ids: "e_VolumeId ` set (lv_Entries r) = Base ` set ds"
    by (simp_all add: r image_image)
  have "i \<in> Base ` set ds \<longleftrightarrow> (\<exists>p. pool_entry hpc i p \<and> lookup w p = Some Directory)" for i
    using volume_directory(4,5) [OF assms(1) ds] pool_entry_listed [OF assms(1) ds] by blast
  then show ?thesis using nt ids by simp
qed

theorem list_volumes_complete_witness:
  "\<exists>r. ListVolumes demo_hpc (Some \<lparr>lv_MaxEntries = 0, lv_StartingToken = []\<rparr>) (demo_os demo_fs) = Ok r \<and>
     ''v1'' \<in> e_VolumeId ` set (lv_Entries r) \<and> ''f'' \<notin> e_VolumeId ` set (lv_Entries r)"
proof -
  let ?run = "ListVolumes demo_hpc (Some \<lparr>lv_MaxEntries = 0, lv_StartingToken = []\<rparr>) (demo_os demo_fs)"
  have "is_ok ?run" by code_simp
  then obtain r where run: "?run = Ok r" by (auto simp: is_ok_iff)
  have wf: "fs_wf (os_fs (demo_os demo_fs))" using demo_ok [OF demo_fs_wf] by (rule os_okD)
  have l: "lookup (demo_os demo_fs) [''a'', ''v1''] = Some Directory"
    "lookup (demo_os demo_fs) [''a'', ''f''] = None" "lookup (demo_os demo_fs) [''b'', ''f''] = None" by code_simp+
  show ?thesis
    using list_volumes_complete [OF wf run, THEN conjunct2, rule_format, of "''v1''"]
      list_volumes_complete [OF wf run, THEN conjunct2, rule_format, of "''f''"] run l
    unfolding demo_entry by auto
qed

text \<open>C7: The order in which Go's \<open>range\<close> visits the map of storage pools does not show in a listing.\<close>
theorem list_volumes_order_independent:
  assumes "mset ps = mset (hpc_pools hpc)" "ListVolumes hpc (Some rq) w = Ok r"
  shows "ListVolumes (hpc\<lparr>hpc_cfg := (hpc_cfg hpc)\<lparr>cfg_StoragePoolInfo := ps\<rparr>\<rparr>) (Some rq) w = Ok r"
proof -
  let ?h = "hpc\<lparr>hpc_cfg := (hpc_cfg hpc)\<lparr>cfg_StoragePoolInfo := ps\<rparr>\<rparr>"
  from assms(2) obtain m ds where m: "pool_capacities (hpc_pools hpc) [] w = Inr m"
    and ds: "getVolumeDirectories hpc w = Inr ds" and max: "0 \<le> lv_MaxEntries rq"
    and page: "volumes_page hpc m rq ds w = Ok r" unfolding ListVolumes_Ok by blast
  have set: "set ps = set (hpc_pools hpc)" using assms(1) by (rule mset_eq_setD)
  then obtain m' where m': "pool_capacities ps [] w = Inr m'"
    using m pool_capacities_Inr [of ps "[]" w] pool_capacities_Inr [of "hpc_pools hpc" "[]" w] by auto
  have mm: "map_of m' = map_of m"
    using pool_capacities_get [OF m] pool_capacities_get [OF m'] set by (auto simp: fun_eq_iff)
  have ds': "getVolumeDirectories ?h w = Inr ds"
    using data_directories_order [OF assms(1) [symmetric]] ds by (simp add: getVolumeDirectories_def)
  have entry: "volume_entry_for ?h m' w = volume_entry_for hpc m w"
    using mm by (simp add: volume_entry_for_def gomap_get_def fun_eq_iff)
  have page': "volumes_page ?h m' rq ds w = volumes_page hpc m rq ds w"
    by (simp only: volumes_page_def entry)
  show ?thesis
    using m' ds' max page by (simp add: ListVolumes_Ok page')
qed

theorem list_volumes_order_independent_witness:
  "\<exists>r. ListVolumes demo_hpc (Some \<lparr>lv_MaxEntries = 0, lv_StartingToken = []\<rparr>) (demo_os demo_fs) = Ok r \<and>
     ListVolumes (demo_hpc\<lparr>hpc_cfg := (hpc_cfg demo_hpc)\<lparr>cfg_StoragePoolInfo := rev demo_pools\<rparr>\<rparr>)
       (Some \<lparr>lv_MaxEntries = 0, lv_StartingToken = []\<rparr>) (demo_os demo_fs) = Ok r"
proof -
  let ?run = "ListVolumes demo_hpc (Some \<lparr>lv_MaxEntries = 0, lv_StartingToken = []\<rparr>) (demo_os demo_fs)"
  have "is_ok ?run" by code_simp
  then obtain r where run: "?run = Ok r" by (auto simp: is_ok_iff)
  have "mset (rev demo_pools) = mset (hpc_pools demo_hpc)" by (simp add: demo_hpc_def demo_cfg_def)
  then show ?thesis using list_volumes_order_independent [OF _ run] run by blast
qed

text \<open>C8: A page that leaves out exactly one volume carries no next token, so a client that follows the
  tokens never sees the last volume (the test is \<open>end < volumesLength-1\<close>).\<close>
theorem list_volumes_drops_last:
  assumes "getVolumeDirectories hpc w = Inr ds" "length ds \<ge> 2"
    and "ListVolumes hpc (Some \<lparr>lv_MaxEntries = int (length ds) - 1, lv_StartingToken = []\<rparr>) w = Ok r"
  shows "map e_VolumeId (lv_Entries r) = map Base (butlast ds) \<and> lv_NextToken r = []"
proof -
  obtain m where "volumes_page hpc m \<lparr>lv_MaxEntries = int (length ds) - 1, lv_StartingToken = []\<rparr> ds w = Ok r"
    using assms(1,3) by (auto simp: ListVolumes_Ok)
  then have "r = \<lparr>lv_Entries = map (\<lambda>d. volume_entry_for hpc m w (Base d) d)
      (take (length ds - 1) ds), lv_NextToken = []\<rparr>"
    using volumes_page_first [of "\<lparr>lv_MaxEntries = int (length ds) - 1, lv_StartingToken = []\<rparr>" hpc m ds w]
      assms(2) by (cases ds) (auto simp: Let_def nat_diff_distrib)
  then show ?thesis by (simp add: butlast_conv_take comp_def)
qed

theorem list_volumes_drops_last_witness:
  "\<exists>r. ListVolumes demo_hpc (Some \<lparr>lv_MaxEntries = 1, lv_StartingToken = []\<rparr>) (demo_os demo_fs) = Ok r \<and>
     map e_VolumeId (lv_Entries r) = [''v1''] \<and> lv_NextToken r = []"
proof -
  let ?run = "ListVolumes demo_hpc (Some \<lparr>lv_MaxEntries = 1, lv_StartingToken = []\<rparr>) (demo_os demo_fs)"
  have "is_ok ?run" by code_simp
  then obtain r where run: "?run = Ok r" by (auto simp: is_ok_iff)
  have ds: "getVolumeDirectories demo_hpc (demo_os demo_fs) = Inr [''/a/v1'', ''/b/v2'']"
    and b: "Base ''/a/v1'' = ''v1''" by code_simp+
  show ?thesis using list_volumes_drops_last [OF ds, of r] run b by simp
qed

text \<open>C9: \<open>ListVolumes\<close> refuses its own tokens: the next token is a directory name, and a token that is not
  a decimal number is answered with \<open>Aborted\<close>.\<close>
theorem list_volumes_rejects_own_token:
  assumes "ListVolumes hpc (Some rq) w = Ok r" "lv_NextToken r \<noteq> []" "ParseUint32 (lv_NextToken r) = None"
  shows "ListVolumes hpc (Some (rq\<lparr>lv_StartingToken := lv_NextToken r\<rparr>)) w =
    Err (StatusError Aborted ''the type of startingToken should be integer'')"
proof -
  obtain m ds where "pool_capacities (hpc_pools hpc) [] w = Inr m" "getVolumeDirectories hpc w = Inr ds"
    "0 \<le> lv_MaxEntries rq"
    using assms(1) unfolding ListVolumes_Ok by blast
  then show ?thesis
    using assms(2,3) by (simp add: ListVolumes_def validateListVolumesRequest_def volumes_page_def)
qed

theorem list_volumes_rejects_own_token_witness:
  "let w = demo_os (demo_fs @ [([''b'', ''v3''], Directory)]); rq = \<lparr>lv_MaxEntries = 1, lv_StartingToken = []\<rparr> in
   \<exists>r. ListVolumes demo_hpc (Some rq) w = Ok r \<and> lv_NextToken r = ''v2'' \<and>
     ListVolumes demo_hpc (Some (rq\<lparr>lv_StartingToken := ''v2''\<rparr>)) w =
       Err (StatusError Aborted ''the type of startingToken should be integer'')"
proof -
  let ?w = "demo_os (demo_fs @ [([''b'', ''v3''], Directory)])" and ?rq = "\<lparr>lv_MaxEntries = 1, lv_StartingToken = []\<rparr>"
  have "(case ListVolumes demo_hpc (Some ?rq) ?w of Ok r \<Rightarrow> lv_NextToken r = ''v2'' | _ \<Rightarrow> False)" by code_simp
  then obtain r where run: "ListVolumes demo_hpc (Some ?rq) ?w = Ok r" and t: "lv_NextToken r = ''v2''"
    by (auto split: outcome.splits)
  have "ParseUint32 ''v2'' = None" by code_simp
  then show ?thesis using list_volumes_rejects_own_token [OF run] run t by auto
qed

text \<open>C10: The capacity that \<open>ControllerGetVolume\<close> reports is looked up under the cleaned path of the pool:
  it is the rounded capacity when that is how the pool is configured, and zero when the pool is
  configured with another spelling of its path, for instance with a trailing slash.\<close>
theorem get_volume_capacity:
  assumes "fs_wf (os_fs w)" "ControllerGetVolume hpc (Some i) w = Ok e"
  shows "\<exists>k info. (k, info) \<in> set (hpc_pools hpc) \<and>
    lookup w (path_key (Path info) @ [i]) = Some Directory \<and> e_VolumeId e = i \<and>
    e_CapacityBytes e =
      (if Clean (Path info) \<in> (\<lambda>e. Path (snd e)) ` set (hpc_pools hpc)
       then (case getVolumeDirCapacity (Clean (Path info)) w of Inr c \<Rightarrow> c | Inl _ \<Rightarrow> 0) else 0)"
proof -
  obtain m ds where m: "pool_capacities (hpc_pools hpc) [] w = Inr m"
    and ds: "getVolumeDirectories hpc w = Inr ds" and f: "find_volume i ds [] \<noteq> []"
    and e: "e = volume_entry_for hpc m w i (find_volume i ds [])"
    using assms(2) by (auto simp: ControllerGetVolume_def Let_def split: if_splits sum.splits)
  let ?d = "find_volume i ds []"
  have mem: "?d \<in> set ds" and b: "Base ?d = i" using find_volume_mem f by blast+
  obtain k info n where info: "(k, info) \<in> set (hpc_pools hpc)" and d: "?d = Join [Path info, n]"
    and l: "lookup w (path_key (Path info) @ [n]) = Some Directory"
    using data_directories_iff [OF assms(1) ds [unfolded getVolumeDirectories_def]] mem by blast
  have n: "simple_name n" using fs_wf_parent(2) [OF assms(1) l] .
  then have "n = i" and dir: "Dir ?d = Clean (Path info)" using b d by simp_all
  moreover have "gomap_get 0 m (Clean (Path info)) =
      (if Clean (Path info) \<in> (\<lambda>e. Path (snd e)) ` set (hpc_pools hpc)
       then (case getVolumeDirCapacity (Clean (Path info)) w of Inr c \<Rightarrow> c | Inl _ \<Rightarrow> 0) else 0)"
    by (simp add: gomap_get_def pool_capacities_get [OF m] split: sum.splits)
  ultimately show ?thesis using info l e by (intro exI [of _ k] exI [of _ info]) simp
qed

theorem get_volume_capacity_witness:
  "\<exists>e. ControllerGetVolume demo_hpc (Some ''v1'') (demo_os demo_fs) = Ok e \<and>
     (\<exists>k info. (k, info) \<in> set (hpc_pools demo_hpc) \<and>
        lookup (demo_os demo_fs) (path_key (Path info) @ [''v1'']) = Some Directory) \<and> e_VolumeId e = ''v1''"
proof -
  have "is_ok (ControllerGetVolume demo_hpc (Some ''v1'') (demo_os demo_fs))" by code_simp
  then obtain e where run: "ControllerGetVolume demo_hpc (Some ''v1'') (demo_os demo_fs) = Ok e"
    by (auto simp: is_ok_iff)
  have wf: "fs_wf (os_fs (demo_os demo_fs))" using demo_ok [OF demo_fs_wf] by (rule os_okD)
  show ?thesis using get_volume_capacity [OF wf run] run by blast
qed

end
