(* ===== verification/Snapshot_Properties.thy ===== *)
theory Snapshot_Properties
  imports Volume_Properties
begin

text \<open>
  The properties of snapshots: what \<open>CreateSnapshot\<close>, \<open>DeleteSnapshot\<close>, \<open>ListSnapshots\<close> and the restore
  in \<open>CreateVolume\<close> (\<open>pkg/hostpath/controllerserver.go\<close>) do with the \<open>Reflink\<close> provider
  (\<open>pkg/hostpath/reflink.go\<close>), for every copy program that behaves as \<open>cp_spec\<close> says.
\<close>

section \<open>Snapshots of the demo node\<close>

definition demo_snap :: "string \<Rightarrow> string \<Rightarrow> CreateSnapshotRequest" where
  "demo_snap i v = \<lparr>cs_Name = i, cs_SourceVolumeId = v, cs_Parameters = []\<rparr>"

definition demo_restore :: "string \<Rightarrow> string \<Rightarrow> CreateVolumeRequest" where
  "demo_restore n i = (demo_request n)\<lparr>cv_VolumeContentSource := Some (VCS_Snapshot (Some i))\<rparr>"

lemma demo_controller: "NewHostPathController cp_rp demo_cfg = Ok demo_hpc"
  by (simp add: NewHostPathController_def demo_hpc_def demo_cfg_def demo_pools_def demo_info_def)

lemma demo_pools_wf: "gomap_wf (cfg_StoragePoolInfo demo_cfg)"
  by (simp add: gomap_wf_def demo_cfg_def demo_pools_def)

section \<open>Snapshot and restore\<close>

lemma restore_run:
  assumes "CreateVolume hpc (Some vr) w = (Ok v, w')"
    and "cv_VolumeContentSource vr = Some (VCS_Snapshot (Some i))"
    and "map_of (hpc_snapshotproviders hpc) (getStoragePoolNameFromMap (cv_Parameters vr)) = Some (reflink_provider cp r)"
  obtains w1 where "make_directory hpc vr w w1"
    and "Reflink_RestoreSnapshot cp r i (Join [Path (request_pool hpc vr), cv_Name vr]) w1 = (None, w')"
proof -
  from assms(1) obtain w1 where mk: "make_directory hpc vr w w1"
    and pop: "populate hpc (getStoragePoolNameFromMap (cv_Parameters vr)) vr w1 = (None, w')"
    by (rule CreateVolume_Ok)
  have "Reflink_RestoreSnapshot cp r i (Join [Path (request_pool hpc vr), cv_Name vr]) w1 = (None, w')"
    using pop assms(2,3)
    by (auto simp: populate_def restoreFromSnapshot_def reflink_provider_def request_pool_def
        split: prod.splits option.splits)
  with mk show ?thesis by (rule that)
qed

lemma make_directory_frame:
  assumes "make_directory hpc vr w w1" "os_ok w" "simple_name (cv_Name vr)" "\<not> prefix q (volume_key hpc vr)"
  shows "lookup w1 q = lookup w q"
proof (cases "lookup w q")
  case None
  then show ?thesis
    using make_directory_facts(4) [OF assms(1-3) None] assms(4) by (cases "lookup w1 q") auto
next
  case (Some n)
  then show ?thesis using make_directory_facts(3) [OF assms(1-3) Some] by simp
qed

text \<open>What a request for a snapshot id that is not in use has made when it succeeds.\<close>

lemma CreateSnapshot_data:
  assumes new: "NewHostPathController cp cfg = Ok hpc" "gomap_wf (cfg_StoragePoolInfo cfg)"
    and cp: "cp_spec cp" and ok: "os_ok w"
    and names: "simple_name (cs_Name rq)" "simple_name (cs_SourceVolumeId rq)" "cs_SourceVolumeId rq \<noteq> dataPath"
    and fresh: "lookup w (snap_key (snapshot_reflink hpc rq) (cs_Name rq)) = None"
    and snap: "CreateSnapshot hpc (Some rq) w = (Ok s, w1)"
  shows "os_ok w1" and "SnapshotId s = cs_Name rq" and "r_path (snapshot_reflink hpc rq) \<noteq> []"
    and "map_of (hpc_snapshotproviders hpc) (getStoragePoolNameFromMap (cs_Parameters rq)) =
           Some (reflink_provider cp (snapshot_reflink hpc rq))"
    and "\<not> prefix (snap_key (snapshot_reflink hpc rq) (cs_Name rq)) (path_key (r_sourcePath (snapshot_reflink hpc rq)))"
    and "rel \<noteq> [] \<Longrightarrow> lookup w1 (snap_key (snapshot_reflink hpc rq) (cs_Name rq) @ [dataPath] @ rel) =
           lookup w (source_key (snapshot_reflink hpc rq) (cs_SourceVolumeId rq) @ rel)"
proof -
  let ?r = "snapshot_reflink hpc rq" and ?i = "cs_Name rq" and ?v = "cs_SourceVolumeId rq"
  obtain w0 where w0: "os_ok w0" "\<forall>q n. lookup w q = Some n \<longrightarrow> lookup w0 q = Some n"
    "\<forall>q n. lookup w q = None \<longrightarrow> lookup w0 q = Some n \<longrightarrow> prefix q (path_key (r_path ?r))"
    and go: "get_or_create_snapshot (reflink_provider cp ?r) rq w0 = (Ok s, w1)" and path: "r_path ?r \<noteq> []"
    and m: "map_of (hpc_snapshotproviders hpc) (getStoragePoolNameFromMap (cs_Parameters rq)) =
           Some (reflink_provider cp ?r)"
    by (rule CreateSnapshot_reflink [OF new ok snap])
  have "lookup w0 (snap_key ?r ?i) = None"
    using w0(3) [rule_format, OF fresh] by (cases "lookup w0 (snap_key ?r ?i)") (auto dest: prefix_length_le)
  note fresh0 = this
  have crt: "Reflink_CreateSnapshot cp ?r ?i ?v w0 = (Inr s, w1)"
    using go fresh0 GetSnapshotById_Some(3) [of ?r ?i w0] names(1)
    by (auto simp: get_or_create_snapshot_def reflink_provider_def split: sum.splits option.splits prod.splits)
  show "os_ok w1" "SnapshotId s = ?i" "r_path ?r \<noteq> []" "map_of (hpc_snapshotproviders hpc)
    (getStoragePoolNameFromMap (cs_Parameters rq)) = Some (reflink_provider cp ?r)"
    using CreateSnapshot_env(1) [OF cp w0(1) crt] CreateSnapshot_fresh(1) [OF cp w0(1) path names(1,2) fresh0 crt]
      path m by blast+
  have "\<not> prefix (snap_key ?r ?i) (source_key ?r ?v)"
    using CreateSnapshot_source [OF crt names(2)] fs_absent_below [OF os_okD [OF w0(1)] fresh0] by (rule contrapos_nn)
  then show "\<not> prefix (snap_key ?r ?i) (path_key (r_sourcePath ?r))" using prefix_prefix by blast
  note cont = CreateSnapshot_contents [OF cp w0(1) path names fresh0 crt]
  assume rel: "rel \<noteq> []"
  have "lookup w0 (source_key ?r ?v @ rel) = lookup w (source_key ?r ?v @ rel)"
  proof (cases "lookup w (source_key ?r ?v @ rel)")
    case None
    have "prefix (source_key ?r ?v) (snap_key ?r ?i @ [dataPath])"
      if "prefix (source_key ?r ?v @ rel) (path_key (r_path ?r))"
      by (rule prefix_prefix, rule prefix_prefix, rule append_prefixD, rule that)
    then have "\<not> prefix (source_key ?r ?v @ rel) (path_key (r_path ?r))" using cont(1) by blast
    then show ?thesis using w0(3) [rule_format, OF None] None by (cases "lookup w0 (source_key ?r ?v @ rel)") auto
  next
    case (Some n)
    then show ?thesis using w0(2) [rule_format, OF Some] by simp
  qed
  then show "lookup w1 (snap_key ?r ?i @ [dataPath] @ rel) = lookup w (source_key ?r ?v @ rel)"
    using cont(2) [OF rel] by simp
qed

text \<open>C11: A snapshot restored into a new volume of the same pool gives that volume exactly the files the
  source volume had when the snapshot was taken.\<close>
theorem snapshot_restore_roundtrip:
  assumes new: "NewHostPathController cp cfg = Ok hpc" "gomap_wf (cfg_StoragePoolInfo cfg)"
    and cp: "cp_spec cp" and ok: "os_ok w"
    and names: "simple_name (cs_Name rq)" "simple_name (cs_SourceVolumeId rq)" "cs_SourceVolumeId rq \<noteq> dataPath"
    and fresh: "lookup w (snap_key (snapshot_reflink hpc rq) (cs_Name rq)) = None"
    and snap: "CreateSnapshot hpc (Some rq) w = (Ok s, w1)"
    and vr: "cv_VolumeContentSource vr = Some (VCS_Snapshot (Some (SnapshotId s)))" "cv_Parameters vr = cs_Parameters rq"
      "simple_name (cv_Name vr)"
    and unused: "lookup w1 (volume_key hpc vr) = None"
    and restore: "CreateVolume hpc (Some vr) w1 = (Ok v, w2)"
    and rel: "rel \<noteq> []"
  shows "lookup w2 (volume_key hpc vr @ rel) =
    lookup w (path_key (Path (request_pool hpc vr)) @ [cs_SourceVolumeId rq] @ rel)"
proof -
  let ?r = "snapshot_reflink hpc rq" and ?data = "snap_key (snapshot_reflink hpc rq) (cs_Name rq) @ [dataPath]"
  note data = CreateSnapshot_data [OF new cp ok names fresh snap]
  have pool: "Path (request_pool hpc vr) = r_sourcePath ?r" by (simp add: request_pool_def vr reflink_of_def)
  have t: "path_key (Join [Path (request_pool hpc vr), cv_Name vr]) = volume_key hpc vr" using vr(3) by simp
  obtain w1' where mk: "make_directory hpc vr w1 w1'"
    and rs: "Reflink_RestoreSnapshot cp ?r (cs_Name rq) (Join [Path (request_pool hpc vr), cv_Name vr]) w1' = (None, w2)"
    by (rule restore_run [OF restore vr(1)]) (use data(2,4) vr(2) in simp_all)
  note mkf = make_directory_facts [OF mk data(1) vr(3)] and frame = make_directory_frame [OF mk data(1) vr(3)]
  have dir: "lookup w1' (volume_key hpc vr) = Some Directory" using mkf(5) unused by simp
  have "lookup w1' (volume_key hpc vr @ rel) = None"
    using frame [of "volume_key hpc vr @ rel"] fs_absent_below [OF os_okD [OF data(1)] unused] rel by simp
  moreover have "lookup w1' (?data @ rel) = lookup w1 (?data @ rel)"
  proof (rule frame)
    show "\<not> prefix (?data @ rel) (volume_key hpc vr)"
      using data(5) prefix_strict_snoc [of "[dataPath] @ rel" "snap_key ?r (cs_Name rq)"] pool by fastforce
  qed
  ultimately show ?thesis
    using RestoreSnapshot_ok(2) [OF cp mkf(1) data(3) names(1) rs, unfolded t, OF dir rel] data(6) [OF rel] pool
    by (simp split: option.splits)
qed

theorem snapshot_restore_roundtrip_witness:
  "\<exists>s w1 v w2. CreateSnapshot demo_hpc (Some (demo_snap ''s1'' ''v1'')) (demo_os demo_fs) = (Ok s, w1) \<and>
     CreateVolume demo_hpc (Some (demo_restore ''v9'' ''s1'')) w1 = (Ok v, w2) \<and>
     lookup w2 [''a'', ''v9'', ''f''] = lookup (demo_os demo_fs) [''a'', ''v1'', ''f'']"
proof -
  let ?run = "CreateSnapshot demo_hpc (Some (demo_snap ''s1'' ''v1'')) (demo_os demo_fs)"
  let ?vr = "demo_restore ''v9'' ''s1''"
  have ok1: "is_ok (fst ?run)" and ok2: "is_ok (fst (CreateVolume demo_hpc (Some ?vr) (snd ?run)))"
    and un: "lookup (snd ?run) (volume_key demo_hpc ?vr) = None"
    and fresh: "lookup (demo_os demo_fs) (snap_key (snapshot_reflink demo_hpc (demo_snap ''s1'' ''v1''))
                  (cs_Name (demo_snap ''s1'' ''v1''))) = None"
    and sid: "(case fst ?run of Ok s \<Rightarrow> SnapshotId s = ''s1'' | _ \<Rightarrow> False)"
    and k: "volume_key demo_hpc ?vr = [''a'', ''v9'']" "path_key (Path (request_pool demo_hpc ?vr)) = [''a'']"
    by code_simp+
  obtain s w1 where r1: "?run = (Ok s, w1)" using ok1 by (rule run_ok)
  then have "is_ok (fst (CreateVolume demo_hpc (Some ?vr) w1))" using ok2 by simp
  then obtain v w2 where r2: "CreateVolume demo_hpc (Some ?vr) w1 = (Ok v, w2)" by (rule run_ok)
  have vr: "cv_VolumeContentSource ?vr = Some (VCS_Snapshot (Some (SnapshotId s)))"
    "cv_Parameters ?vr = cs_Parameters (demo_snap ''s1'' ''v1'')" "simple_name (cv_Name ?vr)"
    using sid r1 by (simp_all add: demo_restore_def demo_request_def demo_snap_def simple_name_def)
  have n: "simple_name (cs_Name (demo_snap ''s1'' ''v1''))" "simple_name (cs_SourceVolumeId (demo_snap ''s1'' ''v1''))"
    "cs_SourceVolumeId (demo_snap ''s1'' ''v1'') \<noteq> dataPath"
    by (simp_all add: demo_snap_def simple_name_def dataPath_def)
  have "lookup w2 (volume_key demo_hpc ?vr @ [''f'']) =
      lookup (demo_os demo_fs) (path_key (Path (request_pool demo_hpc ?vr)) @
        [cs_SourceVolumeId (demo_snap ''s1'' ''v1'')] @ [''f''])"
    by (rule snapshot_restore_roundtrip [OF demo_controller demo_pools_wf cp_rp_spec demo_ok [OF demo_fs_wf]
          n fresh r1 vr _ r2]) (use un r1 in simp_all)
  then have "lookup w2 [''a'', ''v9'', ''f''] = lookup (demo_os demo_fs) [''a'', ''v1'', ''f'']"
    unfolding k by (simp add: demo_snap_def demo_restore_def demo_request_def)
  then show ?thesis using r1 r2 by blast
qed

section \<open>Retries and conflicts\<close>

lemma snapshot_path_kept:
  assumes new: "NewHostPathController cp cfg = Ok hpc" "gomap_wf (cfg_StoragePoolInfo cfg)"
    and ok: "os_ok w'" and pool: "SnapshotPath (snapshot_pool hpc rq) = Some (r_path (snapshot_reflink hpc rq))"
    and dir: "lookup w' (path_key (r_path (snapshot_reflink hpc rq))) \<noteq> None"
    and path: "r_path (snapshot_reflink hpc rq) \<noteq> []"
    and m: "map_of (hpc_snapshotproviders hpc) (getStoragePoolNameFromMap (cs_Parameters rq)) =
           Some (reflink_provider cp (snapshot_reflink hpc rq))"
    and run: "CreateSnapshot hpc (Some rq) w' = (r, w'')"
  shows "(w'' = w' \<and> (\<exists>e. r = Err e)) \<or>
    get_or_create_snapshot (reflink_provider cp (snapshot_reflink hpc rq)) rq w' = (r, w'')"
proof -
  have "checkPathExist (r_path (snapshot_reflink hpc rq)) w' \<noteq> Inr False"
    using checkPathExist_False [OF ok path] dir by blast
  then show ?thesis
    using run pool m
    by (auto simp: CreateSnapshot_def Let_def split: option.splits if_splits sum.splits bool.splits)
qed

lemma snapshot_dir_exists:
  assumes "os_ok w'" "simple_name i" "GetSnapshotById r i w' = Inr (Some s)"
  shows "lookup w' (path_key (r_path r)) = Some Directory"
  using GetSnapshotById_Some(3) [OF assms(3)] assms(2) fs_wf_parent(1) [OF os_okD [OF assms(1)]] by simp

lemma create_snapshot_state:
  assumes new: "NewHostPathController cp cfg = Ok hpc" "gomap_wf (cfg_StoragePoolInfo cfg)"
    and cp: "cp_spec cp" and ok: "os_ok w"
    and names: "simple_name (cs_Name rq)" "simple_name (cs_SourceVolumeId rq)" "cs_SourceVolumeId rq \<noteq> dataPath"
    and snap: "CreateSnapshot hpc (Some rq) w = (Ok s, w1)"
    and rq': "cs_Name rq' = cs_Name rq" "getStoragePoolNameFromMap (cs_Parameters rq') = getStoragePoolNameFromMap (cs_Parameters rq)"
    and again: "CreateSnapshot hpc (Some rq') w1 = (r, w2)"
  shows "w2 = w1" and "SnapshotId s = cs_Name rq \<and> SourceVolumeId s = cs_SourceVolumeId rq"
    and "r = Ok s2 \<Longrightarrow> SnapshotId s2 = cs_Name rq \<and> SourceVolumeId s2 = cs_SourceVolumeId rq \<and>
           cs_SourceVolumeId rq' = cs_SourceVolumeId rq"
proof -
  let ?r = "snapshot_reflink hpc rq"
  obtain w0 where w0: "os_ok w0"
    and go: "get_or_create_snapshot (reflink_provider cp ?r) rq w0 = (Ok s, w1)" and path: "r_path ?r \<noteq> []"
    and sp: "SnapshotPath (snapshot_pool hpc rq) = Some (r_path ?r)"
    and m: "map_of (hpc_snapshotproviders hpc) (getStoragePoolNameFromMap (cs_Parameters rq)) =
           Some (reflink_provider cp ?r)"
    by (rule CreateSnapshot_reflink [OF new ok snap])
  have inv: "os_ok w0 \<and> cp_spec cp \<and> r_path ?r \<noteq> []" using w0 cp path by blast
  have v: "simple_name (cs_SourceVolumeId rq) \<and> cs_SourceVolumeId rq \<noteq> dataPath" using names by blast
  note res = reflink.get_or_create_result [OF inv names(1) v go]
  have ok1: "os_ok w1" using res(1) by blast
  have "lookup w1 (path_key (r_path ?r)) \<noteq> None"
  proof (cases "GetSnapshotById ?r (cs_Name rq) w0 = Inr None")
    case True
    then have c: "Reflink_CreateSnapshot cp ?r (cs_Name rq) (cs_SourceVolumeId rq) w0 = (Inr s, w1)"
      using go by (auto simp: get_or_create_snapshot_def reflink_provider_def split: prod.splits sum.splits)
    have "lookup w1 (snap_key ?r (cs_Name rq) @ [dataPath]) = Some Directory"
      using CreateSnapshot_fresh(3) [OF cp w0 path names(1,2) GetSnapshotById_None [OF w0 names(1) True] c] by simp
    then have "lookup w1 (snap_key ?r (cs_Name rq)) = Some Directory" using fs_wf_parent(1) [OF os_okD [OF ok1]] by blast
    then show ?thesis using fs_wf_parent(1) [OF os_okD [OF ok1]] by blast
  next
    case False
    then obtain s0 where "GetSnapshotById ?r (cs_Name rq) w0 = Inr (Some s0)" "w1 = w0"
      using go by (auto simp: get_or_create_snapshot_def reflink_provider_def split: sum.splits option.splits if_splits)
    then show ?thesis using snapshot_dir_exists [OF w0 names(1)] by simp
  qed
  note dir = this
  have "(w2 = w1 \<and> (\<exists>e. r = Err e)) \<or> get_or_create_snapshot (reflink_provider cp ?r) rq' w1 = (r, w2)"
    using snapshot_path_kept [of cp cfg hpc w1 rq' r w2] new ok1 sp dir path m again unfolding rq'(2) by blast
  then show "w2 = w1" and "SnapshotId s = cs_Name rq \<and> SourceVolumeId s = cs_SourceVolumeId rq"
    and "r = Ok s2 \<Longrightarrow> SnapshotId s2 = cs_Name rq \<and> SourceVolumeId s2 = cs_SourceVolumeId rq \<and>
           cs_SourceVolumeId rq' = cs_SourceVolumeId rq"
    using reflink.get_or_create_again [OF inv names(1) v go rq'(1), of r w2] res(2,3) by auto
qed

text \<open>C12: After a successful \<open>CreateSnapshot\<close> with plain names (and a source that is not called \<open>data\<close>), any
  further request for the same snapshot name in the same storage pool leaves the files as they are;
  when it succeeds it describes the same snapshot, which it only does for the same source volume. In
  another pool the same name is a new snapshot, so the pool has to be the same.\<close>
theorem create_snapshot_idempotent:
  assumes "NewHostPathController cp cfg = Ok hpc" "gomap_wf (cfg_StoragePoolInfo cfg)" "cp_spec cp" "os_ok w"
    and "simple_name (cs_Name rq)" "simple_name (cs_SourceVolumeId rq)" "cs_SourceVolumeId rq \<noteq> dataPath"
    and "CreateSnapshot hpc (Some rq) w = (Ok s, w1)"
    and "cs_Name rq' = cs_Name rq" "getStoragePoolNameFromMap (cs_Parameters rq') = getStoragePoolNameFromMap (cs_Parameters rq)"
    and "CreateSnapshot hpc (Some rq') w1 = (r, w2)"
  shows "w2 = w1 \<and> SnapshotId s = cs_Name rq \<and> SourceVolumeId s = cs_SourceVolumeId rq \<and>
    (\<forall>s2. r = Ok s2 \<longrightarrow> SnapshotId s2 = SnapshotId s \<and> SourceVolumeId s2 = SourceVolumeId s \<and>
       cs_SourceVolumeId rq' = cs_SourceVolumeId rq)"
  using create_snapshot_state [OF assms] by simp

theorem create_snapshot_idempotent_witness:
  "\<exists>s w1 r w2. CreateSnapshot demo_hpc (Some (demo_snap ''s1'' ''v1'')) (demo_os demo_fs) = (Ok s, w1) \<and>
     CreateSnapshot demo_hpc (Some (demo_snap ''s1'' ''v2'')) w1 = (r, w2) \<and> w2 = w1 \<and> \<not> is_ok r"
proof -
  let ?run = "CreateSnapshot demo_hpc (Some (demo_snap ''s1'' ''v1'')) (demo_os demo_fs)"
  have "is_ok (fst ?run)" by code_simp
  then obtain s w1 where r1: "?run = (Ok s, w1)" by (rule run_ok)
  obtain r w2 where r2: "CreateSnapshot demo_hpc (Some (demo_snap ''s1'' ''v2'')) w1 = (r, w2)" by fastforce
  have n: "simple_name (cs_Name (demo_snap ''s1'' ''v1''))" "simple_name (cs_SourceVolumeId (demo_snap ''s1'' ''v1''))"
    "cs_SourceVolumeId (demo_snap ''s1'' ''v1'') \<noteq> dataPath"
    and e: "cs_Name (demo_snap ''s1'' ''v2'') = cs_Name (demo_snap ''s1'' ''v1'')"
    "getStoragePoolNameFromMap (cs_Parameters (demo_snap ''s1'' ''v2'')) = getStoragePoolNameFromMap (cs_Parameters (demo_snap ''s1'' ''v1''))"
    "cs_SourceVolumeId (demo_snap ''s1'' ''v2'') \<noteq> cs_SourceVolumeId (demo_snap ''s1'' ''v1'')"
    by (simp_all add: demo_snap_def simple_name_def dataPath_def)
  show ?thesis
    using create_snapshot_idempotent [OF demo_controller demo_pools_wf cp_rp_spec demo_ok [OF demo_fs_wf]
        n r1 e(1,2) r2] r1 r2 e(3) by (auto simp: is_ok_iff)
qed

section \<open>Deleting a snapshot\<close>

lemma gomap_put_subset: "set (gomap_put m k v) \<subseteq> insert (k, v) (set m)"
  by (induction m k v rule: gomap_put.induct) auto

lemma new_providers_reflink:
  assumes "new_providers cp node ps acc = Ok sps" "(k, sp) \<in> set sps"
  shows "(k, sp) \<in> set acc \<or>
    (\<exists>info. (k, info) \<in> set ps \<and> SnapshotPath info \<noteq> None \<and> sp = reflink_provider cp (reflink_of node info))"
  using assms
proof (induction cp node ps acc rule: new_providers.induct)
  case (2 cp node pool info ps acc)
  show ?case
  proof (cases "SnapshotProvider info")
    case None
    then show ?thesis using 2 by auto
  next
    case (Some p)
    then obtain path where sp: "p = ReflinkProvider" "SnapshotPath info = Some path"
      and run: "new_providers cp node ps (gomap_put acc pool
         (reflink_provider cp \<lparr>r_nodeName = node, r_path = path, r_sourcePath = Path info\<rparr>)) = Ok sps"
      using 2(3) by (auto split: if_splits option.splits)
    have r: "\<lparr>r_nodeName = node, r_path = path, r_sourcePath = Path info\<rparr> = reflink_of node info"
      using sp by (simp add: reflink_of_def)
    show ?thesis using 2(2) [OF Some sp run 2(4)] gomap_put_subset sp(2) unfolding r by fastforce
  qed
qed simp

definition snapshot_entry :: "hostPathController \<Rightarrow> string \<Rightarrow> path \<Rightarrow> bool" where
  \<comment> \<open>the directory of the snapshot \<open>i\<close> in the snapshot repository of a pool\<close>
  "snapshot_entry hpc i p \<longleftrightarrow>
     (\<exists>k info sp. (k, info) \<in> set (hpc_pools hpc) \<and> SnapshotPath info = Some sp \<and> p = path_key sp @ [i])"

lemma delete_in_providers_ok:
  assumes "delete_in_providers ps i w = (res, w')" "os_ok w" "simple_name i"
    and "\<forall>(k, sp) \<in> set ps. \<exists>r. sp = reflink_provider cp r \<and> P (snap_key r i)"
  shows "os_ok w'" and "\<And>q. \<forall>p. P p \<longrightarrow> \<not> prefix p q \<Longrightarrow> lookup w' q = lookup w q"
    and "\<And>q n. lookup w' q = Some n \<Longrightarrow> lookup w q = Some n"
    and "res = Ok () \<Longrightarrow> (k, reflink_provider cp r) \<in> set ps \<Longrightarrow> prefix (snap_key r i) q \<Longrightarrow> lookup w' q = None"
proof -
  have "os_ok w' \<and> (\<forall>q. (\<forall>p. P p \<longrightarrow> \<not> prefix p q) \<longrightarrow> lookup w' q = lookup w q) \<and>
    (\<forall>q n. lookup w' q = Some n \<longrightarrow> lookup w q = Some n) \<and>
    (res = Ok () \<longrightarrow> (\<forall>k r q. (k, reflink_provider cp r) \<in> set ps \<and> prefix (snap_key r i) q \<longrightarrow> lookup w' q = None))"
    using assms
  proof (induction ps i w rule: delete_in_providers.induct)
    case (2 k0 sp ps i w)
    obtain r0 where r0: "sp = reflink_provider cp r0" "P (snap_key r0 i)" using 2(5) by auto
    obtain e w1 where d: "sp_DeleteSnapshot sp i w = (e, w1)" by (meson surj_pair)
    then have dr: "Reflink_DeleteSnapshot r0 i w = (e, w1)" by (simp add: r0 reflink_provider_def)
    note env = DeleteSnapshot_env [OF 2(3) dr]
    show ?case
    proof (cases e)
      case (Some err)
      then have "w' = w1" "res = Err err" using 2(2) d by simp_all
      then show ?thesis using env 2(4) r0(2) by blast
    next
      case None
      then have tail: "delete_in_providers ps i w1 = (res, w')" using 2(2) d by simp
      have "\<forall>(k, sp) \<in> set ps. \<exists>r. sp = reflink_provider cp r \<and> P (snap_key r i)" using 2(5) by auto
      note IH = 2(1) [OF d [symmetric] None tail env(1) 2(4) this]
      have "lookup w' q = None" if "(k, reflink_provider cp r) \<in> set ((k0, sp) # ps)" "prefix (snap_key r i) q" "res = Ok ()" for k r q
      proof (cases "(k, reflink_provider cp r) \<in> set ps")
        case True
        then show ?thesis using IH that by blast
      next
        case False
        then have "Reflink_DeleteSnapshot r i w = (None, w1)" using that(1) d None by (auto simp: reflink_provider_def)
        then have "lookup w1 q = None" using DeleteSnapshot_ok [OF 2(3,4)] that(2) by blast
        then show ?thesis using IH by (cases "lookup w' q") auto
      qed
      moreover have "lookup w' q = lookup w q" if "\<forall>p. P p \<longrightarrow> \<not> prefix p q" for q
        using IH env(3) [OF 2(4)] r0(2) that by simp
      ultimately show ?thesis using IH env(4) by blast
    qed
  qed simp
  then show "os_ok w'" and "\<And>q. \<forall>p. P p \<longrightarrow> \<not> prefix p q \<Longrightarrow> lookup w' q = lookup w q"
    and "\<And>q n. lookup w' q = Some n \<Longrightarrow> lookup w q = Some n"
    and "res = Ok () \<Longrightarrow> (k, reflink_provider cp r) \<in> set ps \<Longrightarrow> prefix (snap_key r i) q \<Longrightarrow> lookup w' q = None"
    by blast+
qed

text \<open>C13: A successful \<open>DeleteSnapshot\<close> with a plain id removes the snapshot from every pool, data
  included, and whatever its outcome it changes nothing outside the directories of that snapshot.\<close>
theorem delete_snapshot_removes:
  assumes "NewHostPathController cp cfg = Ok hpc" "gomap_wf (cfg_StoragePoolInfo cfg)" "os_ok w" "simple_name i"
    and "DeleteSnapshot hpc (Some i) w = (r, w')"
  shows "(\<forall>q. (\<forall>p. snapshot_entry hpc i p \<longrightarrow> \<not> prefix p q) \<longrightarrow> lookup w' q = lookup w q) \<and>
    (r = Ok () \<longrightarrow> (\<forall>k info sp q. map_of (hpc_pools hpc) k = Some info \<and> SnapshotProvider info \<noteq> None \<and>
       SnapshotPath info = Some sp \<and> prefix (path_key sp @ [i]) q \<longrightarrow> lookup w' q = None))"
proof -
  obtain sps where sps: "new_providers cp (cfg_NodeID cfg) (cfg_StoragePoolInfo cfg) [] = Ok sps"
    and hpc: "hpc = \<lparr>hpc_cfg = cfg, hpc_snapshotproviders = sps\<rparr>"
    using assms(1) by (auto simp: NewHostPathController_def split: outcome.splits)
  have run: "delete_in_providers sps i w = (r, w')"
    using assms(4,5) by (simp add: DeleteSnapshot_def hpc simple_name_def)
  have all: "\<forall>(k, sp) \<in> set sps. \<exists>r. sp = reflink_provider cp r \<and> snapshot_entry hpc i (snap_key r i)"
  proof clarify
    fix k sp
    assume "(k, sp) \<in> set sps"
    then obtain info path where "(k, info) \<in> set (cfg_StoragePoolInfo cfg)" "SnapshotPath info = Some path"
      "sp = reflink_provider cp (reflink_of (cfg_NodeID cfg) info)"
      using new_providers_reflink [OF sps] by fastforce
    then show "\<exists>r. sp = reflink_provider cp r \<and> snapshot_entry hpc i (snap_key r i)"
      by (intro exI [of _ "reflink_of (cfg_NodeID cfg) info"]) (auto simp: snapshot_entry_def hpc reflink_of_def)
  qed
  note del = delete_in_providers_ok [OF run assms(3,4) all]
  have "lookup w' q = None" if "map_of (hpc_pools hpc) k = Some info" "SnapshotProvider info \<noteq> None"
    "SnapshotPath info = Some sp" "prefix (path_key sp @ [i]) q" "r = Ok ()" for k info sp q
  proof -
    have "map_of sps k = Some (reflink_provider cp (reflink_of (cfg_NodeID cfg) info))"
      using new_providers_get [OF sps assms(2), of k] that(1,2) by (simp add: hpc)
    then show ?thesis using del(4) [OF that(5) map_of_SomeD] that(3,4) by (simp add: reflink_of_def)
  qed
  then show ?thesis using del(2) by blast
qed

theorem delete_snapshot_removes_witness:
  "\<exists>w'. DeleteSnapshot demo_hpc (Some ''s1'') (demo_os (demo_fs @
       [([''a-snap''], Directory), ([''a-snap'', ''s1''], Directory), ([''a-snap'', ''s1'', ''data''], Directory)])) =
       (Ok (), w') \<and> lookup w' [''a-snap'', ''s1'', ''data''] = None"
proof -
  let ?f = "demo_fs @ [([''a-snap''], Directory), ([''a-snap'', ''s1''], Directory), ([''a-snap'', ''s1'', ''data''], Directory)]"
  have "is_ok (fst (DeleteSnapshot demo_hpc (Some ''s1'') (demo_os ?f)))" and wf: "fs_wf ?f"
    and k: "path_key ''/a-snap'' = [''a-snap'']" by code_simp+
  then obtain w' where run: "DeleteSnapshot demo_hpc (Some ''s1'') (demo_os ?f) = (Ok (), w')" by (auto elim: run_ok)
  have n: "simple_name ''s1''" by (simp add: simple_name_def)
  have "map_of (hpc_pools demo_hpc) ''legacy'' = Some (demo_info ''legacy'' ''/a'')"
    by (simp add: demo_hpc_def demo_cfg_def demo_pools_def)
  then have "lookup w' [''a-snap'', ''s1'', ''data''] = None"
    by (intro delete_snapshot_removes [OF demo_controller demo_pools_wf demo_ok [OF wf] n run, THEN conjunct2,
          rule_format, OF refl, of "''legacy''" "demo_info ''legacy'' ''/a''" "''/a-snap''"])
       (simp add: demo_info_def k)
  then show ?thesis using run by blast
qed

section \<open>What goes wrong\<close>

lemma ends_with_dot_Join: "simple_name n \<Longrightarrow> \<not> ends_with_dot (Join [p, n])"
proof
  assume n: "simple_name n" and dot: "ends_with_dot (Join [p, n])"
  obtain pre where J: "Join [p, n] = pre @ n" using Join_simple_string [OF n] by blast
  have ne: "n \<noteq> []" "n \<noteq> ''.''" "CHR ''/'' \<notin> set n" using n by (auto simp: simple_name_def)
  have "last (Join [p, n]) = CHR ''.''" using dot by (auto simp: ends_with_dot_def suffix_def)
  then have last: "last n = CHR ''.''" using J ne(1) by simp
  then obtain m where m: "n = m @ ''.''" using ne(1) by (metis append_butlast_last_id)
  then have "m \<noteq> []" using ne(2) by auto
  then obtain m' c where c: "m = m' @ [c]" by (metis rev_exhaust)
  have "c = CHR ''/''" using dot J m c ne(2) by (auto simp: ends_with_dot_def suffix_def)
  then show False using ne(3) m c by simp
qed

lemma os_RemoveAll_no_fault:
  assumes "os_ok w" "simple_name n" "lookup w (path_key p @ [n]) = Some nd" "os_fault w SysUnlink = (\<lambda>_. None)"
  obtains w' where "os_RemoveAll (Join [p, n]) w = (None, w')"
proof -
  have "fs_stuck (\<lambda>_. None) (os_fs w) (path_key p @ [n]) = []"
    by (simp add: fs_stuck_def refuses_def)
  then have "\<exists>w'. os_RemoveAll (Join [p, n]) w = (None, w')"
    using assms not_blocked [OF os_okD [OF assms(1)] assms(3)] ends_with_dot_Join [OF assms(2)]
    by (simp add: os_RemoveAll_def Let_def)
  then show ?thesis using that by blast
qed

text \<open>C14: A \<open>CreateVolume\<close> request with a snapshot that cannot be restored deletes the volume of that name,
  even when it existed before the request (a repeated request after the snapshot is gone destroys
  the data of the volume it made).\<close>
theorem failed_restore_deletes_existing_volume:
  assumes "os_ok w" "simple_name (cv_Name rq)" "os_fault w SysUnlink = (\<lambda>_. None)"
    and "validateCreateVolumeRequest (Some rq) = None" "validateCreateVolumeRequestTopology hpc rq = None"
    and "map_of (hpc_pools hpc) (getStoragePoolNameFromMap (cv_Parameters rq)) \<noteq> None"
    and "getVolumeDirCapacity (Path (request_pool hpc rq)) w = Inr c"
    and ex: "checkPathExist (Join [Path (request_pool hpc rq), cv_Name rq]) w = Inr True"
    and src: "cv_VolumeContentSource rq = Some (VCS_Snapshot (Some i))"
    and bad: "restoreFromSnapshot hpc i (getStoragePoolNameFromMap (cv_Parameters rq)) (cv_Name rq) w = (Some err, w)"
  shows "lookup w (volume_key hpc rq) \<noteq> None \<and>
    (\<exists>w'. CreateVolume hpc (Some rq) w = (Err err, w') \<and>
       (\<forall>q. prefix (volume_key hpc rq) q \<longrightarrow> lookup w' q = None))"
proof -
  let ?s = "Join [Path (request_pool hpc rq), cv_Name rq]"
  obtain nd where nd: "lookup w (volume_key hpc rq) = Some nd"
    using ex os_Stat_Inr [of ?s w] assms(2) by (auto simp: checkPathExist_True)
  obtain w' where rm: "os_RemoveAll ?s w = (None, w')"
    using os_RemoveAll_no_fault [OF assms(1,2) nd assms(3)] by blast
  then have "DeleteVolume (Path (request_pool hpc rq)) (cv_Name rq) w = (None, w')"
    by (simp add: DeleteVolume_def)
  then have "populate hpc (getStoragePoolNameFromMap (cv_Parameters rq)) rq w = (Some err, w')"
    by (simp add: populate_def src bad request_pool_def [symmetric])
  then have "CreateVolume hpc (Some rq) w = (Err err, w')"
    using assms(4-7) ex by (auto simp: CreateVolume_def request_pool_def Let_def)
  moreover have "lookup w' q = None" if "prefix (volume_key hpc rq) q" for q
    using os_RemoveAll_ok [OF rm] that assms(2) by simp
  ultimately show ?thesis using nd by blast
qed

theorem failed_restore_deletes_existing_volume_witness:
  "\<exists>w'. CreateVolume demo_hpc (Some (demo_restore ''v1'' ''gone'')) (demo_os demo_fs) =
       (Err (StatusError NotFound ''snapshot gone not found, unable to restore into volume''), w') \<and>
     lookup (demo_os demo_fs) [''a'', ''v1'', ''f''] = Some (RegularFile ''x'') \<and>
     lookup w' [''a'', ''v1'', ''f''] = None"
proof -
  let ?rq = "demo_restore ''v1'' ''gone''" and ?w = "demo_os demo_fs"
  let ?e = "StatusError NotFound ''snapshot gone not found, unable to restore into volume''"
  have n: "simple_name (cv_Name ?rq)" and src: "cv_VolumeContentSource ?rq = Some (VCS_Snapshot (Some ''gone''))"
    and f: "os_fault ?w SysUnlink = (\<lambda>_. None)"
    by (simp_all add: demo_restore_def demo_request_def simple_name_def demo_os_def)
  have v: "validateCreateVolumeRequest (Some ?rq) = None" "validateCreateVolumeRequestTopology demo_hpc ?rq = None"
    "map_of (hpc_pools demo_hpc) (getStoragePoolNameFromMap (cv_Parameters ?rq)) \<noteq> None"
    by code_simp+
  have c: "getVolumeDirCapacity (Path (request_pool demo_hpc ?rq)) ?w = Inr 81920"
    and ex: "checkPathExist (Join [Path (request_pool demo_hpc ?rq), cv_Name ?rq]) ?w = Inr True"
    and k: "volume_key demo_hpc ?rq = [''a'', ''v1'']" and l: "lookup ?w [''a'', ''v1'', ''f''] = Some (RegularFile ''x'')"
    by code_simp+
  have no: "checkPathExist ''/a-snap/gone/data'' ?w = Inr False" "Join [''/a-snap'', ''gone'', dataPath] = ''/a-snap/gone/data''"
    and nm: "cv_Name ?rq = ''v1''"
    by code_simp+
  have pl: "map_of (hpc_snapshotproviders demo_hpc) (getStoragePoolNameFromMap (cv_Parameters ?rq)) =
      Some (reflink_provider cp_rp \<lparr>r_nodeName = ''n1'', r_path = ''/a-snap'', r_sourcePath = ''/a''\<rparr>)"
    by (simp add: demo_restore_def demo_request_def getStoragePoolNameFromMap_def legacyStoragePoolName_def
        demo_hpc_def demo_pools_def demo_info_def)
  have bad: "restoreFromSnapshot demo_hpc ''gone'' (getStoragePoolNameFromMap (cv_Parameters ?rq)) (cv_Name ?rq) ?w = (Some ?e, ?w)"
    unfolding restoreFromSnapshot_def pl
    by (simp add: reflink_provider_def Reflink_RestoreSnapshot_def no)
  have "lookup ?w (volume_key demo_hpc ?rq) \<noteq> None \<and> (\<exists>w'. CreateVolume demo_hpc (Some ?rq) ?w = (Err ?e, w') \<and>
       (\<forall>q. prefix (volume_key demo_hpc ?rq) q \<longrightarrow> lookup w' q = None))"
    by (rule failed_restore_deletes_existing_volume [OF demo_ok [OF demo_fs_wf] n f v c ex src bad])
  then show ?thesis using l unfolding k by auto
qed

lemma first_source_some: "(n, Directory) \<in> set es \<Longrightarrow> n \<noteq> dataPath \<Longrightarrow> first_source es \<noteq> None"
  by (induction es rule: first_source.induct) auto

lemma os_Stat_no_fault:
  "os_ok w \<Longrightarrow> os_fault w = (\<lambda>_ _. None) \<Longrightarrow> lookup w (path_key s) = Some n \<Longrightarrow> s \<noteq> [] \<Longrightarrow> os_Stat s w = Inr n"
  using not_blocked [OF os_okD, of w "path_key s" n] by (simp add: os_Stat_def Let_def)

lemma os_ReadDir_no_fault:
  "os_ok w \<Longrightarrow> os_fault w = (\<lambda>_ _. None) \<Longrightarrow> lookup w (path_key s) = Some Directory \<Longrightarrow> s \<noteq> [] \<Longrightarrow>
     \<exists>es. os_ReadDir s w = Inr es"
  using not_blocked [OF os_okD, of w "path_key s" Directory] by (simp add: os_ReadDir_def Let_def)

text \<open>The error of a copy that failed is the only wrapped error of \<open>CreateSnapshot\<close>.\<close>

lemma failed_copy_steps:
  assumes run: "Reflink_CreateSnapshot cp r i v w = (Inl (WrapError m e), w1)"
  obtains w' w2 where "os_MkdirAll (Join [r_path r, i, dataPath]) w = (None, w')"
    and "os_MkdirAll (Join [r_path r, i, v]) w' = (None, w2)"
    and "reflinkCopy cp (Join [r_sourcePath r, v] @ ''/.'') (Join [r_path r, i, dataPath]) w2 = (Some (WrapError m e), w1)"
proof -
  have np: "checkPathExist s x \<noteq> Inl (WrapError m e)" for s x
    by (auto simp: checkPathExist_def checkPathExistFunc_def os_Stat_def Let_def
        split: sum.splits option.splits if_splits)
  have nc: "createSnapshotFromDir r i v s x \<noteq> Inl (WrapError m e)" for s x
    by (auto simp: createSnapshotFromDir_def getFileCreationTimeFunc_def syscall_Stat_ctim_def os_Stat_def Let_def
        split: sum.splits go_error.splits option.splits if_splits)
  have nm: "os_MkdirAll s x \<noteq> (Some (WrapError m e), y)" for s x y
    by (auto simp: os_MkdirAll_def split: prod.splits if_splits)
  show ?thesis
    using that run np nc nm
    by (auto simp: Reflink_CreateSnapshot_def Let_def
        split: sum.splits bool.splits prod.splits option.splits)
qed

lemma failed_copy_handler:
  assumes new: "NewHostPathController cp cfg = Ok hpc" "gomap_wf (cfg_StoragePoolInfo cfg)" and ok: "os_ok w"
    and run: "CreateSnapshot hpc (Some rq) w = (Err (WrapError m e), w1)"
  obtains w0 where "os_ok w0" and "same_env w w0" and "r_path (snapshot_reflink hpc rq) \<noteq> []"
    and "SnapshotPath (snapshot_pool hpc rq) = Some (r_path (snapshot_reflink hpc rq))"
    and "map_of (hpc_snapshotproviders hpc) (getStoragePoolNameFromMap (cs_Parameters rq)) =
           Some (reflink_provider cp (snapshot_reflink hpc rq))"
    and "GetSnapshotById (snapshot_reflink hpc rq) (cs_Name rq) w0 = Inr None"
    and "Reflink_CreateSnapshot cp (snapshot_reflink hpc rq) (cs_Name rq) (cs_SourceVolumeId rq) w0 =
           (Inl (WrapError m e), w1)"
    and "validateCreateSnapshotRequest (Some rq) = None"
proof -
  let ?pool = "getStoragePoolNameFromMap (cs_Parameters rq)" and ?r = "snapshot_reflink hpc rq"
  have val: "validateCreateSnapshotRequest (Some rq) = None"
    using run by (auto simp: CreateSnapshot_def validateCreateSnapshotRequest_def split: if_splits)
  obtain path where p: "SnapshotPath (snapshot_pool hpc rq) = Some path"
    using run val by (auto simp: CreateSnapshot_def Let_def split: option.splits if_splits)
  obtain sp where mp: "map_of (hpc_snapshotproviders hpc) ?pool = Some sp"
    using run val p by (auto simp: CreateSnapshot_def Let_def split: option.splits if_splits)
  have sp: "sp = reflink_provider cp ?r" using controller_provider [OF new] mp by blast
  have path: "r_path ?r = path" using p by (simp add: reflink_of_def)
  have np: "checkPathExist path w \<noteq> Inl (WrapError m e)"
    by (auto simp: checkPathExist_def checkPathExistFunc_def os_Stat_def Let_def
        split: sum.splits option.splits if_splits)
  obtain w0 where w0: "checkPathExist path w = Inr True \<and> w0 = w \<or> os_MkdirAll path w = (None, w0)"
    and go: "get_or_create_snapshot (reflink_provider cp ?r) rq w0 = (Err (WrapError m e), w1)"
    using run val p mp np
    by (auto simp: CreateSnapshot_def Let_def sp reflink_provider_def Reflink_Initialize_def ensurePathExists_def path
        split: sum.splits bool.splits if_splits option.splits prod.splits)
  have ne: "path \<noteq> []"
    using w0 by (auto simp: checkPathExist_True os_Stat_def os_MkdirAll_def)
  have env: "os_ok w0 \<and> same_env w w0"
    using w0 os_ok_env [OF ok] os_MkdirAll_env [of path w None w0] os_MkdirAll_wf [of path w None w0] os_okD [OF ok] ok
    by auto
  have "GetSnapshotById ?r (cs_Name rq) w0 = Inr None \<and>
      Reflink_CreateSnapshot cp ?r (cs_Name rq) (cs_SourceVolumeId rq) w0 = (Inl (WrapError m e), w1)"
    using go by (auto simp: get_or_create_snapshot_def reflink_provider_def
        split: sum.splits option.splits if_splits prod.splits)
  then show ?thesis using that env ne p mp val unfolding sp path by blast
qed

text \<open>C15: When the copy of a \<open>CreateSnapshot\<close> request fails, the same request succeeds when it is repeated:
  the directories that the failed attempt left count as a snapshot that is ready to use, and
  nothing more is copied.\<close>
theorem failed_copy_reported_ready:
  assumes new: "NewHostPathController cp cfg = Ok hpc" "gomap_wf (cfg_StoragePoolInfo cfg)"
    and cp: "cp_spec cp" and ok: "os_ok w" and nf: "os_fault w = (\<lambda>_ _. None)"
    and names: "simple_name (cs_Name rq)" "simple_name (cs_SourceVolumeId rq)" "cs_SourceVolumeId rq \<noteq> dataPath"
    and fail: "CreateSnapshot hpc (Some rq) w = (Err (WrapError m e), w1)"
  shows "\<exists>s. CreateSnapshot hpc (Some rq) w1 = (Ok s, w1) \<and> ReadyToUse s"
proof -
  let ?r = "snapshot_reflink hpc rq"
  obtain w0 where w0: "os_ok w0" "same_env w w0" and path: "r_path ?r \<noteq> []"
    and sp: "SnapshotPath (snapshot_pool hpc rq) = Some (r_path ?r)"
    and mp: "map_of (hpc_snapshotproviders hpc) (getStoragePoolNameFromMap (cs_Parameters rq)) = Some (reflink_provider cp ?r)"
    and g: "GetSnapshotById ?r (cs_Name rq) w0 = Inr None"
    and c: "Reflink_CreateSnapshot cp ?r (cs_Name rq) (cs_SourceVolumeId rq) w0 = (Inl (WrapError m e), w1)"
    and val: "validateCreateSnapshotRequest (Some rq) = None"
    by (rule failed_copy_handler [OF new ok fail])
  have ok1: "os_ok w1" and env: "same_env w0 w1" using CreateSnapshot_env [OF cp w0(1) c] by blast+
  have nf1: "os_fault w1 = (\<lambda>_ _. None)" using same_env_trans [OF w0(2) env] nf by (simp add: same_env_def)
  have kids: "lookup w1 (snap_key ?r (cs_Name rq) @ [k]) = Some nd \<longleftrightarrow>
      (k = dataPath \<or> k = cs_SourceVolumeId rq) \<and> nd = Directory" for k nd
    using failed_copy_steps [OF c] snapshot_children [OF cp w0(1) path names(1,2) GetSnapshotById_None [OF w0(1) names(1) g]]
    by metis
  have d: "lookup w1 (path_key (Join [r_path ?r, cs_Name rq])) = Some Directory"
    using fs_wf_parent(1) [OF os_okD [OF ok1], of "snap_key ?r (cs_Name rq)" dataPath] kids names(1) by simp
  then have dp: "lookup w1 (path_key (r_path ?r)) = Some Directory"
    using fs_wf_parent(1) [OF os_okD [OF ok1], of "path_key (r_path ?r)" "cs_Name rq"] names(1) by simp
  obtain es where es: "os_ReadDir (Join [r_path ?r, cs_Name rq]) w1 = Inr es"
    using os_ReadDir_no_fault [OF ok1 nf1 d] names(1) by auto
  have mem: "(k, nd) \<in> set es \<longleftrightarrow> (k = dataPath \<or> k = cs_SourceVolumeId rq) \<and> nd = Directory" for k nd
    using os_ReadDir_entries(1) [OF os_okD [OF ok1] es] kids names(1) by simp
  then obtain v where v: "first_source es = Some v"
    using first_source_some [of "cs_SourceVolumeId rq" es] names(3) by auto
  then have "v = cs_SourceVolumeId rq" using first_source_mem [OF v] mem by auto
  then obtain s where s: "GetSnapshotById ?r (cs_Name rq) w1 = Inr (Some s)" "ReadyToUse s" "SourceVolumeId s = cs_SourceVolumeId rq"
    using os_Stat_no_fault [OF ok1 nf1 d] names(1) es v by (simp add: GetSnapshotById_def getSourceVolumeId_def)
  have "checkPathExist (r_path ?r) w1 = Inr True"
    using os_Stat_no_fault [OF ok1 nf1 dp path] by (simp add: checkPathExist_True)
  moreover have "map_of (hpc_pools hpc) (getStoragePoolNameFromMap (cs_Parameters rq)) \<noteq> None"
    using controller_provider(2) [OF new mp] by blast
  ultimately have "CreateSnapshot hpc (Some rq) w1 = (Ok s, w1)"
    using s val sp mp by (auto simp: CreateSnapshot_def get_or_create_snapshot_def reflink_provider_def)
  then show ?thesis using s(2) by blast
qed

definition demo_failing :: copier where
  \<comment> \<open>a \<open>cp\<close> that always fails and writes nothing\<close>
  "demo_failing src dst w = (Some (ErrorString ''exit status 1''), w)"

definition demo_hpc_failing :: hostPathController where
  "demo_hpc_failing = \<lparr>hpc_cfg = demo_cfg, hpc_snapshotproviders =
     map (\<lambda>(k, info). (k, reflink_provider demo_failing
            \<lparr>r_nodeName = ''n1'', r_path = Path info @ ''-snap'', r_sourcePath = Path info\<rparr>)) demo_pools\<rparr>"

theorem failed_copy_reported_ready_witness:
  "\<exists>m e w1 s. CreateSnapshot demo_hpc_failing (Some (demo_snap ''s1'' ''v1'')) (demo_os demo_fs) = (Err (WrapError m e), w1) \<and>
     CreateSnapshot demo_hpc_failing (Some (demo_snap ''s1'' ''v1'')) w1 = (Ok s, w1) \<and> ReadyToUse s"
proof -
  have new: "NewHostPathController demo_failing demo_cfg = Ok demo_hpc_failing"
    by (simp add: NewHostPathController_def demo_hpc_failing_def demo_cfg_def demo_pools_def demo_info_def)
  have cp: "cp_spec demo_failing" by (auto simp: cp_spec_def demo_failing_def)
  let ?run = "CreateSnapshot demo_hpc_failing (Some (demo_snap ''s1'' ''v1'')) (demo_os demo_fs)"
  have "(case fst ?run of Err (WrapError m e) \<Rightarrow> True | _ \<Rightarrow> False)" by code_simp
  then obtain m e w1 where run: "?run = (Err (WrapError m e), w1)"
    by (cases ?run) (auto split: outcome.splits go_error.splits)
  have n: "simple_name (cs_Name (demo_snap ''s1'' ''v1''))" "simple_name (cs_SourceVolumeId (demo_snap ''s1'' ''v1''))"
    "cs_SourceVolumeId (demo_snap ''s1'' ''v1'') \<noteq> dataPath"
    and nf: "os_fault (demo_os demo_fs) = (\<lambda>_ _. None)"
    by (simp_all add: demo_snap_def simple_name_def dataPath_def demo_os_def)
  show ?thesis
    using failed_copy_reported_ready [OF new demo_pools_wf cp demo_ok [OF demo_fs_wf] nf n run] run by blast
qed

lemma path_key_Join_dotdot: "path_key (Join [p, ''..'']) = butlast (path_key p)"
proof -
  have "split_on CHR ''/'' ''..'' = [''..'']" by code_simp
  moreover have "foldl (clean_push True) (rev (path_key p)) [''..''] = tl (rev (path_key p))"
    using path_key_elems [of _ p] by (cases "rev (path_key p)") (auto simp: simple_name_def)
  ultimately show ?thesis by (simp only: path_key_Join2) (simp add: butlast_rev [symmetric])
qed

text \<open>C16: The snapshot id of \<open>DeleteSnapshot\<close> is not checked: with the id \<open>..\<close> a success has removed the
  whole directory that holds the snapshot repository of the pool.\<close>
theorem delete_snapshot_escapes:
  assumes "os_ok w" "r_path r \<noteq> []"
    and "DeleteSnapshot \<lparr>hpc_cfg = cfg, hpc_snapshotproviders = [(k, reflink_provider cp r)]\<rparr> (Some ''..'') w = (Ok (), w')"
    and "prefix (butlast (path_key (r_path r))) q"
  shows "lookup w' q = None"
proof -
  let ?s = "Join [r_path r, ''..'']"
  have ne: "?s \<noteq> []" using assms(2) by (simp add: Join2)
  have run: "Reflink_DeleteSnapshot r ''..'' w = (None, w')"
    using assms(3) by (auto simp: DeleteSnapshot_def reflink_provider_def split: prod.splits option.splits)
  show ?thesis
  proof (cases "checkPathExist ?s w = Inr False")
    case True
    then have "lookup w (path_key ?s) = None" "w' = w"
      using checkPathExist_False [OF assms(1) ne] run by (simp_all add: Reflink_DeleteSnapshot_def)
    then show ?thesis using fs_absent_below [OF os_okD [OF assms(1)]] assms(4) by (simp add: path_key_Join_dotdot)
  next
    case False
    then have "os_RemoveAll ?s w = (None, w')"
      using run by (auto simp: Reflink_DeleteSnapshot_def Let_def split: sum.splits if_splits)
    then show ?thesis using ne assms(4) os_RemoveAll_ok [of ?s w w' q] by (simp add: path_key_Join_dotdot)
  qed
qed

theorem delete_snapshot_escapes_witness:
  "\<exists>w'. DeleteSnapshot \<lparr>hpc_cfg = demo_cfg, hpc_snapshotproviders = [(''p'', reflink_provider cp_rp
       \<lparr>r_nodeName = ''n1'', r_path = ''/a/v1/snap'', r_sourcePath = ''/b''\<rparr>)]\<rparr> (Some ''..'') (demo_os demo_fs) = (Ok (), w') \<and>
     lookup w' [''a'', ''v1'', ''f''] = None"
proof -
  let ?r = "\<lparr>r_nodeName = ''n1'', r_path = ''/a/v1/snap'', r_sourcePath = ''/b''\<rparr>"
  let ?run = "DeleteSnapshot \<lparr>hpc_cfg = demo_cfg, hpc_snapshotproviders = [(''p'', reflink_provider cp_rp ?r)]\<rparr>
    (Some ''..'') (demo_os demo_fs)"
  have "is_ok (fst ?run)" and k: "path_key ''/a/v1/snap'' = [''a'', ''v1'', ''snap'']" by code_simp+
  then obtain w' where run: "?run = (Ok (), w')" by (auto elim: run_ok)
  have "lookup w' [''a'', ''v1'', ''f''] = None"
    by (rule delete_snapshot_escapes [OF demo_ok [OF demo_fs_wf] _ run]) (simp_all add: k)
  then show ?thesis using run by blast
qed

section \<open>Pages of snapshots\<close>

definition page_token :: "ListSnapshotsRequest \<Rightarrow> string" where
  "page_token rq = (if ls_StartingToken rq = [] \<or> ls_StartingToken rq = ''0'' then ''1'' else ls_StartingToken rq)"

lemma snapshots_page_words:
  assumes "ss \<noteq> []" "int (length ss) < 2 ^ 31" "ParseUint32 (page_token rq) = Some n" "1 \<le> n" "n < 2 ^ 32"
    and "- (2 ^ 31) \<le> ls_MaxEntries rq" "ls_MaxEntries rq < 2 ^ 31"
  shows "snapshots_page rq ss =
    (let len = int (length ss);
         end = min (int n - 1 + (if ls_MaxEntries rq = 0 then len else ls_MaxEntries rq)) len
     in if end < int n - 1 then Panic ''slice bounds out of range''
        else Ok \<lparr>ls_Entries = drop (n - 1) (take (nat end) ss),
                 ls_NextToken = (if end < len - 1 then FormatInt (end + 1) else [])\<rparr>)"
proof -
  let ?len = "int (length ss)" and ?start = "of_nat n - 1 :: uint64"
  define mx where "mx = (if ls_MaxEntries rq = 0 then ?len else ls_MaxEntries rq)"
  define en where "en = min (int n - 1 + mx) ?len"
  have mx: "- (2 ^ 31) \<le> mx" "mx < 2 ^ 31" using assms by (auto simp: mx_def)
  have st: "?start = word_of_int (int n - 1)" by simp
  have us: "uint ?start = int n - 1"
    using assms(4,5) by (intro word_of_int_inverse [OF st [symmetric]]) simp_all
  then have un: "unat ?start = n - 1" by (simp only: unat_eq_nat_uint)
  have sl: "sint (int64_of_int ?len) = ?len" using assms(2) sint_int64 [of ?len] by (simp add: int64_of_int_def)
  have mxw: "(if ls_MaxEntries rq = 0 then int64_of_int ?len else int64_of_int (ls_MaxEntries rq)) = int64_of_int mx"
    by (simp add: mx_def)
  have e0: "?start + int64_of_int mx = word_of_int (int n - 1 + mx)" by (simp add: int64_of_int_def)
  have se0: "sint (?start + int64_of_int mx) = int n - 1 + mx"
    unfolding e0 using mx assms(4,5) by (intro sint_int64) auto
  have een: "(if sint (?start + int64_of_int mx) > ?len then int64_of_int ?len else ?start + int64_of_int mx) = word_of_int en"
    unfolding se0 by (simp add: en_def e0 int64_of_int_def min_def)
  have sen: "sint (word_of_int en :: int64) = en"
    using mx assms(2,4,5) by (intro sint_int64) (auto simp: en_def min_def)
  have se1: "sint (word_of_int en + 1 :: int64) = en + 1"
  proof -
    have "word_of_int en + 1 = (word_of_int (en + 1) :: int64)" by simp
    moreover have "sint (word_of_int (en + 1) :: int64) = en + 1"
      using mx assms(2,4,5) by (intro sint_int64) (auto simp: en_def min_def)
    ultimately show ?thesis by simp
  qed
  have sl1: "sint (int64_of_int ?len - 1) = ?len - 1"
    using assms(2) sint_int64 [of "?len - 1"] by (simp add: int64_of_int_def)
  show ?thesis
    using assms(1,4)
    unfolding snapshots_page_def page_token_def [symmetric] Let_def assms(3) option.case mxw een sl
      go_slice_def sen se1 sl1 us un mx_def [symmetric] en_def [symmetric]
    by (auto simp: en_def min_def)
qed

lemma snapshots_page_zero:
  assumes "ss \<noteq> []" "ParseUint32 (page_token rq) = Some 0"
  shows "snapshots_page rq ss = Panic ''slice bounds out of range''"
proof -
  have "uint (of_nat 0 - 1 :: uint64) = 2 ^ 64 - 1" by code_simp
  moreover have "sint e < 2 ^ 64 - 1" for e :: int64 using sint_int64_bounds(2) [of e] by simp
  ultimately have "go_slice ss (of_nat 0 - 1) e = Panic ''slice bounds out of range''" for e
    by (simp add: go_slice_def)
  then show ?thesis
    using assms(1) unfolding snapshots_page_def page_token_def [symmetric] Let_def assms(2) option.case by simp
qed

text \<open>C17: A \<open>ListSnapshots\<close> request with a numeric token \<open>n\<close> gives the page of \<open>MaxEntries\<close> snapshots from the
  \<open>n\<close>th on, and crashes the plugin when the token is a zero other than \<open>0\<close>, when \<open>MaxEntries\<close> is
  negative, or when the token is beyond the end by more than one. The next token is missing when
  exactly one snapshot is left.\<close>
theorem list_snapshots_page:
  assumes "collect_snapshots (hpc_snapshotproviders hpc) rq [] w = Ok ss" "ss \<noteq> []" "int (length ss) < 2 ^ 31"
    and "ParseUint32 (page_token rq) = Some n"
    and "- (2 ^ 31) \<le> ls_MaxEntries rq" "ls_MaxEntries rq < 2 ^ 31"
  shows "ListSnapshots hpc (Some rq) w =
    (let mx = (if ls_MaxEntries rq = 0 then length ss else nat (ls_MaxEntries rq)) in
     if n = 0 \<or> ls_MaxEntries rq < 0 \<or> n > length ss + 1 then Panic ''slice bounds out of range''
     else Ok \<lparr>ls_Entries = take mx (drop (n - 1) ss),
              ls_NextToken = (if n + mx < length ss then FormatInt (int (n + mx)) else [])\<rparr>)"
proof (cases "n = 0")
  case True
  then show ?thesis using assms snapshots_page_zero [OF assms(2)] by (simp add: ListSnapshots_def Let_def)
next
  case False
  have "n < 2 ^ 32" using assms(4) by (auto simp: ParseUint32_def split: if_splits option.splits)
  note page = snapshots_page_words [OF assms(2-4) _ this assms(5,6)]
  let ?mx = "if ls_MaxEntries rq = 0 then length ss else nat (ls_MaxEntries rq)"
  define en where "en = min (int n - 1 + (if ls_MaxEntries rq = 0 then int (length ss) else ls_MaxEntries rq)) (int (length ss))"
  have "1 \<le> n" using False by simp
  note pg = page [OF this, unfolded Let_def, folded en_def]
  have p: "ListSnapshots hpc (Some rq) w =
    (if en < int n - 1 then Panic ''slice bounds out of range''
     else Ok \<lparr>ls_Entries = drop (n - 1) (take (nat en) ss),
              ls_NextToken = (if en < int (length ss) - 1 then FormatInt (en + 1) else [])\<rparr>)"
    by (simp only: ListSnapshots_def option.case assms(1) outcome.case pg)
  have panic: "en < int n - 1 \<longleftrightarrow> ls_MaxEntries rq < 0 \<or> n > length ss + 1"
    using False by (auto simp: en_def min_def)
  have "drop (n - 1) (take (nat en) ss) = take ?mx (drop (n - 1) ss)" "en < int (length ss) - 1 \<longleftrightarrow> n + ?mx < length ss"
    "n + ?mx < length ss \<Longrightarrow> en + 1 = int (n + ?mx)" if "\<not> en < int n - 1"
  proof -
    have en: "nat en = min (n - 1 + ?mx) (length ss)" "0 \<le> ls_MaxEntries rq"
      using that False panic by (auto simp: en_def min_def nat_add_distrib)
    show "drop (n - 1) (take (nat en) ss) = take ?mx (drop (n - 1) ss)"
      unfolding en(1) by (simp add: drop_take min_def)
    show "en < int (length ss) - 1 \<longleftrightarrow> n + ?mx < length ss" "n + ?mx < length ss \<Longrightarrow> en + 1 = int (n + ?mx)"
      using that False en(2) by (auto simp: en_def min_def)
  qed
  then show ?thesis unfolding p using panic False by (auto simp: Let_def)
qed

theorem list_snapshots_page_witness:
  "let w = demo_os (demo_fs @ [([''a-snap''], Directory), ([''a-snap'', ''s1''], Directory), ([''a-snap'', ''s1'', ''v1''], Directory),
                               ([''b-snap''], Directory)]);
       rq = \<lparr>ls_MaxEntries = 0, ls_StartingToken = ''00'', ls_SourceVolumeId = [], ls_SnapshotId = []\<rparr>
   in ListSnapshots demo_hpc (Some rq) w = Panic ''slice bounds out of range''"
proof -
  let ?w = "demo_os (demo_fs @ [([''a-snap''], Directory), ([''a-snap'', ''s1''], Directory), ([''a-snap'', ''s1'', ''v1''], Directory),
                               ([''b-snap''], Directory)])"
  let ?rq = "\<lparr>ls_MaxEntries = 0, ls_StartingToken = ''00'', ls_SourceVolumeId = [], ls_SnapshotId = []\<rparr>"
  have "(case collect_snapshots (hpc_snapshotproviders demo_hpc) ?rq [] ?w of Ok ss \<Rightarrow> length ss = 1 | _ \<Rightarrow> False)"
    by code_simp
  moreover have t: "ParseUint32 (page_token ?rq) = Some 0"
    by (simp add: page_token_def ParseUint32_def digit_value_def)
  ultimately obtain ss where ss: "collect_snapshots (hpc_snapshotproviders demo_hpc) ?rq [] ?w = Ok ss" "length ss = 1"
    by (auto split: outcome.splits)
  then show ?thesis using list_snapshots_page [OF ss(1) _ _ t] by (cases ss) (simp_all add: Let_def)
qed

end
