(* ===== verification/Node_Properties.thy ===== *)
theory Node_Properties
  imports Node_Server Snapshot_Properties
begin

text \<open>
  The properties of publishing and unpublishing volumes (\<open>pkg/hostpath/nodeserver.go\<close>). The mounter
  is any mounter that keeps the contract \<open>mount_service\<close>; the applications use the in-memory mounter
  of \<open>k8s.io/utils/mount\<close>, which keeps it.
\<close>

section \<open>A node with two pools\<close>

definition demo_hpn :: hostPathNode where
  "demo_hpn = NewHostPathNode demo_cfg"

definition demo_publish :: "string \<Rightarrow> parameters \<Rightarrow> NodePublishVolumeRequest" where
  "demo_publish i c = \<lparr>np_VolumeId = i, np_TargetPath = ''/k/t'', np_VolumeCapability = Some (MountVolume ''ext4'' []),
     np_PublishContext = None, np_Readonly = True, np_VolumeContext = c\<rparr>"

definition demo_unpublish :: "string \<Rightarrow> NodeUnpublishVolumeRequest" where
  "demo_unpublish i = \<lparr>nu_VolumeId = i, nu_TargetPath = ''/k/t''\<rparr>"

definition node_fs :: fs where
  "node_fs = demo_fs @ [([''k''], Directory), ([''a'', ''csi-data''], Directory), ([''a'', ''csi-data'', ''f''], RegularFile ''x'')]"

lemma demo_mounter: "cfg_Mounter (hpn_cfg demo_hpn) = Some FakeMounter"
  by (simp add: demo_hpn_def NewHostPathNode_def demo_cfg_def)

lemma node_fs_ok: "os_ok (demo_os node_fs)"
proof -
  have "fs_wf node_fs" by code_simp
  then show ?thesis by (rule demo_ok)
qed

abbreviation mounted :: "string \<Rightarrow> os \<Rightarrow> bool" where
  "mounted t w \<equiv> list_ex (\<lambda>mp. isMountPointMatch mp (Clean t)) (os_mounts w)"

abbreviation node_pools :: "hostPathNode \<Rightarrow> hostPathController" where
  "node_pools hpn \<equiv> \<lparr>hpc_cfg = hpn_cfg hpn, hpc_snapshotproviders = []\<rparr>"

lemma os_Stat_mounts [simp]: "os_Stat s (w\<lparr>os_mounts := m\<rparr>) = os_Stat s w"
  by (auto simp: os_Stat_def Let_def split: option.splits)

section \<open>Publishing\<close>

lemma publish_persistent:
  assumes "mount_service mnt" "cfg_Mounter (hpn_cfg hpn) = Some mnt" "os_ok w" "\<not> isEphemeralVolumeRequest rq"
    and "NodePublishVolume hpn (Some rq) w = (Ok (), w')"
  shows publish_persistent_lookup: "lookup w' q = (if q = path_key (np_TargetPath rq) \<and> lookup w q = None then Some Directory else lookup w q)"
    and publish_persistent_ok: "os_ok w'"
    and publish_persistent_target: "lookup w' (path_key (np_TargetPath rq)) \<noteq> None"
proof -
  let ?k = "path_key (np_TargetPath rq)"
  have "lookup w' q = (if q = ?k \<and> lookup w q = None then Some Directory else lookup w q) \<and> os_ok w' \<and> lookup w' ?k \<noteq> None"
  proof (rule mount_service.publish_steps [OF assms(1,5,2,3)], goal_cases skip attach)
    case skip
    then obtain n where "os_Stat (np_TargetPath rq) w = Inr n" using mount_service.canMount_False(3) [OF assms(1) skip(2)] by blast
    then show ?case using os_Stat_Inr assms(3) skip(1) by fastforce
  next
    case (attach w1 w2 mp n)
    have w2: "w2 = w1" using attach(2) assms(4) by simp
    have n: "lookup w1 ?k = Some n" using os_Stat_Inr [OF attach(3)] w2 by simp
    have "lookup w1 q = (if q = ?k \<and> lookup w q = None then Some Directory else lookup w q)"
      using mount_service.canMount_True(4) [OF assms(1) attach(1) assms(3)]
    proof
      assume "os_fs w1 = os_fs w"
      then show ?thesis using n by auto
    next
      assume "os_fs w1 = os_fs w @ [(?k, Directory)] \<and> lookup w ?k = None \<and> lookup w (butlast ?k) = Some Directory"
      then show ?thesis by (simp add: fs_lookup_append split: option.splits)
    qed
    moreover have "os_ok w1" by (rule mount_service.canMount_True(1) [OF assms(1) attach(1) assms(3)])
    ultimately show ?case using attach(4) w2 n by (simp add: os_ok_def)
  qed
  then show "lookup w' q = (if q = ?k \<and> lookup w q = None then Some Directory else lookup w q)" "os_ok w'" "lookup w' ?k \<noteq> None"
    by blast+
qed

text \<open>C18: A successful publish of a persistent volume leaves a mount point alone, and otherwise adds exactly
  one mount: on the target, read-only when asked, of the directory of the volume in its pool. In
  the file tree only the target is added, when it was missing.\<close>
theorem publish_volume_correct:
  assumes "mount_service mnt" "cfg_Mounter (hpn_cfg hpn) = Some mnt" "os_ok w" "\<not> isEphemeralVolumeRequest rq"
    and "NodePublishVolume hpn (Some rq) w = (Ok (), w')"
  shows "mounted (np_TargetPath rq) w \<and> w' = w \<or>
    (\<exists>mp. os_mounts w' = os_mounts w @ [mp] \<and> mp_Path mp = Clean (np_TargetPath rq) \<and>
       mp_Opts mp = ''bind'' # (if np_Readonly rq then [''ro''] else []) \<and>
       (publish_source hpn rq \<notin> mp_Path ` set (os_mounts w) \<longrightarrow> mp_Device mp = publish_source hpn rq) \<and>
       (\<forall>q. lookup w' q = (if q = path_key (np_TargetPath rq) \<and> lookup w q = None then Some Directory else lookup w q)))"
proof (rule mount_service.publish_steps [OF assms(1,5,2,3)], goal_cases skip attach)
  case skip
  then show ?thesis using mount_service.canMount_False(2) [OF assms(1) skip(2)] by simp
next
  case (attach w1 w2 mp n)
  then show ?thesis using publish_persistent_lookup [OF assms] by (auto simp: publish_options_def)
qed

theorem publish_volume_correct_witness:
  "\<exists>w'. NodePublishVolume demo_hpn (Some (demo_publish ''v1'' [])) (demo_os node_fs) = (Ok (), w') \<and>
     mp_Device (last (os_mounts w')) = ''/a/v1'' \<and> lookup w' [''k'', ''t''] = Some Directory"
proof -
  let ?rq = "demo_publish ''v1'' []" and ?w = "demo_os node_fs"
  have "is_ok (fst (NodePublishVolume demo_hpn (Some ?rq) ?w))" by code_simp
  then obtain w' where run: "NodePublishVolume demo_hpn (Some ?rq) ?w = (Ok (), w')" by (rule run_ok) simp
  have s: "publish_source demo_hpn ?rq = ''/a/v1''" "\<not> isEphemeralVolumeRequest ?rq" "Clean (np_TargetPath ?rq) = ''/k/t''"
    "path_key (np_TargetPath ?rq) = [''k'', ''t'']" "lookup ?w [''k'', ''t''] = None" by code_simp+
  have "os_mounts ?w = []" by (simp add: demo_os_def)
  then show ?thesis
    using publish_volume_correct [OF fake.mount_service_axioms demo_mounter node_fs_ok s(2) run] run
    unfolding s using s(5) by auto
qed

text \<open>C19: Publishing again after a success, for a persistent or an ephemeral volume, changes neither the
  file tree nor the mounts: a target is never mounted twice.\<close>
theorem publish_idempotent:
  assumes "mount_service mnt" "cfg_Mounter (hpn_cfg hpn) = Some mnt" "os_ok w"
    and "NodePublishVolume hpn (Some rq) w = (Ok (), w')"
    and "NodePublishVolume hpn (Some rq) w' = (r, w'')"
  shows "w'' = w'"
proof (rule mount_service.publish_steps [OF assms(1,4,2,3)], goal_cases skip attach)
  case skip
  then show ?thesis using assms(4,5) by simp
next
  case (attach w1 w2 mp n)
  have "os_Stat (np_TargetPath rq) w' = Inr n" using attach(3,4) by simp
  moreover have "mounted (np_TargetPath rq) w'" using attach(4,5) by (simp add: isMountPointMatch_def)
  ultimately show ?thesis using mount_service.publish_settled [OF assms(1) _ _ assms(2,5)] by blast
qed

theorem publish_idempotent_witness:
  "\<exists>w' r w''. NodePublishVolume demo_hpn (Some (demo_publish ''csi-e'' [(ephemeralContextKey, ''true'')])) (demo_os node_fs)
       = (Ok (), w') \<and>
     NodePublishVolume demo_hpn (Some (demo_publish ''csi-e'' [(ephemeralContextKey, ''true'')])) w' = (r, w'') \<and> w'' = w'"
proof -
  let ?rq = "demo_publish ''csi-e'' [(ephemeralContextKey, ''true'')]"
  have "is_ok (fst (NodePublishVolume demo_hpn (Some ?rq) (demo_os node_fs)))" by code_simp
  then obtain w' where run: "NodePublishVolume demo_hpn (Some ?rq) (demo_os node_fs) = (Ok (), w')" by (rule run_ok) simp
  obtain r w'' where again: "NodePublishVolume demo_hpn (Some ?rq) w' = (r, w'')" by fastforce
  show ?thesis
    using publish_idempotent [OF fake.mount_service_axioms demo_mounter node_fs_ok run again] run again by blast
qed

section \<open>Unpublishing\<close>

lemma removeEphemeralPath_facts:
  assumes "removeEphemeralPath hpn i w = (e, w')" "i \<noteq> []" "fs_wf (os_fs w)"
  shows "lookup w' q \<noteq> lookup w q \<Longrightarrow> \<exists>p. pool_entry (node_pools hpn) i p \<and> lookup w p = Some Directory \<and> prefix p q"
    and "lookup w' q = Some n \<Longrightarrow> lookup w q = Some n" and "fs_wf (os_fs w')"
proof -
  obtain r where d: "DeleteVolume_rpc (node_pools hpn) (Some i) w = (r, w')"
    using removeEphemeralPath_eq [OF assms(2,1)] by blast
  show "lookup w' q = Some n \<Longrightarrow> lookup w q = Some n" by (rule DeleteVolume_rpc_shrinks [OF d assms(3)])
  show "fs_wf (os_fs w')" by (rule DeleteVolume_rpc_wf [OF d assms(3)])
  show "\<exists>p. pool_entry (node_pools hpn) i p \<and> lookup w p = Some Directory \<and> prefix p q" if "lookup w' q \<noteq> lookup w q"
    using d assms(3)
  proof (cases rule: DeleteVolume_rpc_cases)
    case none
    then show ?thesis using that by simp
  next
    case (one p s e)
    then have "prefix p q" using os_RemoveAll_outside [OF one(4)] that by blast
    then show ?thesis using one(1,2) by blast
  qed
qed

lemma os_RemoveAll_change:
  assumes "os_RemoveAll s w = (e, w')" "lookup w' q \<noteq> lookup w q" "fs_wf (os_fs w)"
  shows "prefix (path_key s) q" and "lookup w (path_key s) \<noteq> None"
proof -
  show p: "prefix (path_key s) q" using os_RemoveAll_outside [OF assms(1)] assms(2) by blast
  have "lookup w q \<noteq> None"
  proof
    assume "lookup w q = None"
    then obtain n where "lookup w' q = Some n" using assms(2) by auto
    then show False using os_RemoveAll_shrinks [OF assms(1)] \<open>lookup w q = None\<close> by simp
  qed
  then show "lookup w (path_key s) \<noteq> None" by (rule contrapos_nn) (rule fs_absent_below [OF assms(3) _ p])
qed

lemma unpublish_change:
  assumes "mount_service mnt" "cfg_Mounter (hpn_cfg hpn) = Some mnt" "os_ok w"
    and "NodeUnpublishVolume hpn (Some rq) w = (r, w')" "lookup w' q \<noteq> lookup w q"
  shows "prefix (path_key (nu_TargetPath rq)) q \<and> lookup w (path_key (nu_TargetPath rq)) \<noteq> None \<and>
    Clean (nu_TargetPath rq) \<notin> mp_Path ` set (os_mounts w') \<or>
    prefix ''csi'' (nu_VolumeId rq) \<and> (\<exists>p. pool_entry (node_pools hpn) (nu_VolumeId rq) p \<and> lookup w p = Some Directory \<and> prefix p q)"
proof (rule mount_service.unpublish_steps [OF assms(1,4,2,3)], goal_cases stop remove)
  case stop
  then have "lookup w' q = lookup w q" by (metis os.select_convs(1) os.surjective os.update_convs(8))
  then show ?case using assms(5) by simp
next
  case (remove w1)
  have fs: "os_fs w1 = os_fs w" by (subst remove(1)) simp
  have wf: "fs_wf (os_fs w1)" using os_okD [OF assms(3)] fs by simp
  have target: "prefix (path_key (nu_TargetPath rq)) q \<and> lookup w (path_key (nu_TargetPath rq)) \<noteq> None \<and>
      Clean (nu_TargetPath rq) \<notin> mp_Path ` set (os_mounts w')"
    if "os_RemoveAll (nu_TargetPath rq) w1 = (e, w2)" "lookup w2 q \<noteq> lookup w1 q" "os_mounts w' = os_mounts w2" for e w2
    using os_RemoveAll_change [OF that(1,2) wf] remove(5) fs that(3) os_RemoveAll_env [OF that(1)]
    by (auto simp: same_env_def)
  show ?case
    using remove(2)
  proof (cases rule: remove_target_steps)
    case (kept e)
    then show ?thesis using target [OF kept(1)] assms(5) fs by simp
  next
    case plain
    then show ?thesis using target [OF plain(1)] assms(5) fs by simp
  next
    case (ephemeral w2 e)
    show ?thesis
    proof (cases "lookup w2 q = lookup w1 q")
      case True
      then have "lookup w' q \<noteq> lookup w2 q" using assms(5) fs by simp
      then obtain p where "pool_entry (node_pools hpn) (nu_VolumeId rq) p" "lookup w2 p = Some Directory" "prefix p q"
        using removeEphemeralPath_facts(1) [OF ephemeral(3) remove(4) os_RemoveAll_wf [OF ephemeral(1) wf]] by blast
      then show ?thesis
        using os_RemoveAll_shrinks [OF ephemeral(1)] ephemeral(2) fs by (auto simp: isEphemeralVolumeId_def)
    next
      case False
      then show ?thesis
        using target [OF ephemeral(1)] removeEphemeralPath_env [OF ephemeral(3)] by (simp add: same_env_def)
    qed
  qed
qed

text \<open>C20: Whatever its outcome, unpublishing changes nothing but the target, which it never touches while
  it is mounted, and, for an id that starts with \<open>csi\<close>, the entries of that name in the pools.\<close>
theorem unpublish_safe:
  assumes "mount_service mnt" "cfg_Mounter (hpn_cfg hpn) = Some mnt" "os_ok w"
    and "NodeUnpublishVolume hpn (Some rq) w = (r, w')" "lookup w' q \<noteq> lookup w q"
  shows "prefix (path_key (nu_TargetPath rq)) q \<and> Clean (nu_TargetPath rq) \<notin> mp_Path ` set (os_mounts w') \<or>
    prefix ''csi'' (nu_VolumeId rq) \<and> (\<exists>p. pool_entry (node_pools hpn) (nu_VolumeId rq) p \<and> prefix p q)"
  using unpublish_change [OF assms] by blast

definition mounted_os :: "string \<Rightarrow> os" where
  \<comment> \<open>the volume \<open>i\<close> of the first pool is mounted\<close>
  "mounted_os i = (demo_os (node_fs @ [([''k'', ''t''], Directory)]))
     \<lparr>os_mounts := [\<lparr>mp_Device = ''/a/'' @ i, mp_Path = ''/k/t'', mp_Type = ''ext4'', mp_Opts = [''bind'']\<rparr>]\<rparr>"

lemma mounted_os_ok: "os_ok (mounted_os i)"
proof -
  have "fs_wf (node_fs @ [([''k'', ''t''], Directory)])" by code_simp
  then show ?thesis using demo_ok by (simp add: mounted_os_def os_ok_def)
qed

theorem unpublish_safe_witness:
  "\<exists>r w'. NodeUnpublishVolume demo_hpn (Some (demo_unpublish ''v1'')) (mounted_os ''v1'') = (r, w') \<and>
     lookup w' [''k'', ''t''] \<noteq> lookup (mounted_os ''v1'') [''k'', ''t''] \<and> ''/k/t'' \<notin> mp_Path ` set (os_mounts w')"
proof -
  let ?rq = "demo_unpublish ''v1''" and ?w = "mounted_os ''v1''"
  obtain r w' where run: "NodeUnpublishVolume demo_hpn (Some ?rq) ?w = (r, w')" by fastforce
  have "lookup (snd (NodeUnpublishVolume demo_hpn (Some ?rq) ?w)) [''k'', ''t''] \<noteq> lookup ?w [''k'', ''t'']"
    by code_simp
  then have ch: "lookup w' [''k'', ''t''] \<noteq> lookup ?w [''k'', ''t'']" using run by simp
  have s: "Clean (nu_TargetPath ?rq) = ''/k/t''" "\<not> prefix ''csi'' (nu_VolumeId ?rq)" by code_simp+
  show ?thesis
    using unpublish_safe [OF fake.mount_service_axioms demo_mounter mounted_os_ok run ch] run ch s by auto
qed

lemma unpublish_done:
  assumes "mount_service mnt" "cfg_Mounter (hpn_cfg hpn) = Some mnt" "os_ok w"
    and "NodeUnpublishVolume hpn (Some rq) w = (Ok (), w')"
    and "lookup w (path_key (nu_TargetPath rq)) = None \<longrightarrow> Clean (nu_TargetPath rq) \<notin> mp_Path ` set (os_mounts w)"
  obtains w1 w2 where "os_fs w1 = os_fs w" "os_ok w1" "os_RemoveAll (nu_TargetPath rq) w1 = (None, w2)" "os_ok w2"
    "nu_TargetPath rq \<noteq> []" "nu_VolumeId rq \<noteq> []"
    "mp_Path ` set (os_mounts w') = mp_Path ` set (os_mounts w) - {Clean (nu_TargetPath rq)}"
    "if isEphemeralVolumeId (nu_VolumeId rq) then removeEphemeralPath hpn (nu_VolumeId rq) w2 = (None, w') else w' = w2"
proof -
  show thesis
  proof (rule mount_service.unpublish_steps [OF assms(1,4,2,3)], goal_cases stop remove)
    case stop
    then show ?case by simp
  next
    case (remove w1)
    have fs: "os_fs w1 = os_fs w" by (subst remove(1)) simp
    have "os_fault w1 = os_fault w" by (subst remove(1)) simp
    then have ok: "os_ok w1" using assms(3) fs by (simp add: os_ok_def)
    obtain w2 where w2: "os_RemoveAll (nu_TargetPath rq) w1 = (None, w2)"
      and rest: "if isEphemeralVolumeId (nu_VolumeId rq) then removeEphemeralPath hpn (nu_VolumeId rq) w2 = (None, w') else w' = w2"
      using remove(2) by (cases rule: remove_target_steps) simp_all
    have "os_mounts w' = os_mounts w1"
      using rest removeEphemeralPath_env [of hpn "nu_VolumeId rq" w2 None w'] os_RemoveAll_env [OF w2]
      by (simp add: same_env_def split: if_splits)
    moreover have "mp_Path ` set (os_mounts w1) = mp_Path ` set (os_mounts w) - {Clean (nu_TargetPath rq)}"
      using remove(6)
    proof
      assume same: "os_mounts w1 = os_mounts w"
      have "Clean (nu_TargetPath rq) \<notin> mp_Path ` set (os_mounts w)"
      proof
        assume "Clean (nu_TargetPath rq) \<in> mp_Path ` set (os_mounts w)"
        then have "lookup w (path_key (nu_TargetPath rq)) = None" using remove(5) same by simp
        then show False using assms(5) \<open>Clean (nu_TargetPath rq) \<in> _\<close> by blast
      qed
      then show ?thesis using same by simp
    qed
    moreover have "os_ok w2" by (rule os_ok_env [OF ok os_RemoveAll_env [OF w2] os_RemoveAll_wf [OF w2 os_okD [OF ok]]])
    ultimately show ?case
      using that [OF fs ok w2 _ remove(3,4) _ rest] by simp
  qed
qed

lemma unpublish_facts:
  assumes "mount_service mnt" "cfg_Mounter (hpn_cfg hpn) = Some mnt" "os_ok w"
    and "NodeUnpublishVolume hpn (Some rq) w = (Ok (), w')"
    and "lookup w (path_key (nu_TargetPath rq)) = None \<longrightarrow> Clean (nu_TargetPath rq) \<notin> mp_Path ` set (os_mounts w)"
  shows unpublish_shrinks: "lookup w' q = Some n \<Longrightarrow> lookup w q = Some n"
    and unpublish_gone: "prefix (path_key (nu_TargetPath rq)) q \<Longrightarrow> lookup w' q = None"
    and unpublish_ok: "os_ok w'"
    and unpublish_mounts: "mp_Path ` set (os_mounts w') = mp_Path ` set (os_mounts w) - {Clean (nu_TargetPath rq)}"
proof -
  obtain w1 w2 where fs: "os_fs w1 = os_fs w" and rm: "os_RemoveAll (nu_TargetPath rq) w1 = (None, w2)"
    and ok: "os_ok w2" and ne: "nu_TargetPath rq \<noteq> []" "nu_VolumeId rq \<noteq> []"
    and ms: "mp_Path ` set (os_mounts w') = mp_Path ` set (os_mounts w) - {Clean (nu_TargetPath rq)}"
    and rest: "if isEphemeralVolumeId (nu_VolumeId rq) then removeEphemeralPath hpn (nu_VolumeId rq) w2 = (None, w') else w' = w2"
    by (rule unpublish_done [OF assms])
  have shrinks: "lookup w2 p = Some m" if "lookup w' p = Some m" for p m
    using rest that removeEphemeralPath_facts(2) [OF _ ne(2) os_okD [OF ok]] by (auto split: if_splits)
  show "lookup w q = Some n" if "lookup w' q = Some n"
    using os_RemoveAll_shrinks [OF rm shrinks [OF that]] fs by simp
  show "lookup w' q = None" if "prefix (path_key (nu_TargetPath rq)) q"
    using os_RemoveAll_ok [OF rm ne(1) that] shrinks [of q] by (cases "lookup w' q") auto
  show "os_ok w'"
    using rest ok os_ok_env [OF ok removeEphemeralPath_env] removeEphemeralPath_facts(3) [OF _ ne(2) os_okD [OF ok]]
    by (auto split: if_splits)
  show "mp_Path ` set (os_mounts w') = mp_Path ` set (os_mounts w) - {Clean (nu_TargetPath rq)}" by (fact ms)
qed

text \<open>C21: A successful unpublish leaves no mount on the target and nothing of it in the file tree, for a
  mounter whose \<open>Unmount\<close> removes every mount of the target, and provided that no mount is recorded
  for a missing target. A repeated request changes no file, with one exception: for an id that starts
  with \<open>csi\<close> it may delete a directory of that name that is still there in another pool.\<close>
theorem unpublish_cleans:
  assumes "mount_service mnt" "cfg_Mounter (hpn_cfg hpn) = Some mnt" "os_ok w"
    and "NodeUnpublishVolume hpn (Some rq) w = (Ok (), w')"
    and "lookup w (path_key (nu_TargetPath rq)) = None \<longrightarrow> Clean (nu_TargetPath rq) \<notin> mp_Path ` set (os_mounts w)"
  shows "(prefix (path_key (nu_TargetPath rq)) q \<longrightarrow> lookup w' q = None) \<and>
    mp_Path ` set (os_mounts w') = mp_Path ` set (os_mounts w) - {Clean (nu_TargetPath rq)} \<and>
    (NodeUnpublishVolume hpn (Some rq) w' = (r, w'') \<longrightarrow>
       lookup w'' q = lookup w' q \<or>
       prefix ''csi'' (nu_VolumeId rq) \<and>
         (\<exists>p. pool_entry (node_pools hpn) (nu_VolumeId rq) p \<and> lookup w' p = Some Directory \<and> prefix p q))"
proof -
  note run1 = assms
  have "prefix ''csi'' (nu_VolumeId rq) \<and>
      (\<exists>p. pool_entry (node_pools hpn) (nu_VolumeId rq) p \<and> lookup w' p = Some Directory \<and> prefix p q)"
    if run: "NodeUnpublishVolume hpn (Some rq) w' = (r, w'')" and "lookup w'' q \<noteq> lookup w' q"
    using unpublish_change [OF assms(1,2) unpublish_ok [OF run1] that] unpublish_gone [OF run1 prefix_order.refl] by blast
  then show ?thesis using unpublish_gone [OF run1, of q] unpublish_mounts [OF run1] by blast
qed

theorem unpublish_cleans_witness:
  "\<exists>w'. NodeUnpublishVolume demo_hpn (Some (demo_unpublish ''v1'')) (mounted_os ''v1'') = (Ok (), w') \<and>
     lookup w' [''k'', ''t''] = None \<and> mp_Path ` set (os_mounts w') = {}"
proof -
  let ?rq = "demo_unpublish ''v1''" and ?w = "mounted_os ''v1''"
  have "is_ok (fst (NodeUnpublishVolume demo_hpn (Some ?rq) ?w))" by code_simp
  then obtain w' where run: "NodeUnpublishVolume demo_hpn (Some ?rq) ?w = (Ok (), w')" by (rule run_ok) simp
  have s: "Clean (nu_TargetPath ?rq) = ''/k/t''" "path_key (nu_TargetPath ?rq) = [''k'', ''t'']"
    "lookup ?w [''k'', ''t''] \<noteq> None" by code_simp+
  have "mp_Path ` set (os_mounts ?w) = {''/k/t''}" by (simp add: mounted_os_def)
  then show ?thesis
    using unpublish_cleans [OF fake.mount_service_axioms demo_mounter mounted_os_ok run _, of "[''k'', ''t'']"] run s by auto
qed

text \<open>C22: Publishing a persistent volume whose id does not start with \<open>csi\<close> on a fresh target (no file and
  no mount there) and unpublishing it again, both without an error, gives back the file tree and the
  mount points there were; in particular the data of the volume is untouched. With an id that starts
  with \<open>csi\<close> the unpublish request deletes the volume from its pool.\<close>
theorem publish_unpublish_restores:
  assumes "mount_service mnt" "cfg_Mounter (hpn_cfg hpn) = Some mnt" "os_ok w" "\<not> isEphemeralVolumeRequest rq"
    and "lookup w (path_key (np_TargetPath rq)) = None" "Clean (np_TargetPath rq) \<notin> mp_Path ` set (os_mounts w)"
    and "\<not> prefix ''csi'' (np_VolumeId rq)"
    and pub: "NodePublishVolume hpn (Some rq) w = (Ok (), w')"
    and unpub: "NodeUnpublishVolume hpn (Some \<lparr>nu_VolumeId = np_VolumeId rq, nu_TargetPath = np_TargetPath rq\<rparr>) w' = (Ok (), w'')"
  shows "lookup w'' = lookup w \<and> mp_Path ` set (os_mounts w'') = mp_Path ` set (os_mounts w)"
proof -
  let ?t = "np_TargetPath rq" and ?un = "\<lparr>nu_VolumeId = np_VolumeId rq, nu_TargetPath = np_TargetPath rq\<rparr>"
  note p = publish_persistent [OF assms(1-4) pub]
  have there: "lookup w' (path_key (nu_TargetPath ?un)) = None \<longrightarrow> Clean (nu_TargetPath ?un) \<notin> mp_Path ` set (os_mounts w')"
    using p(3) by auto
  note u = unpublish_facts [OF assms(1,2) p(2) unpub there]
  have "lookup w'' q = lookup w q" for q
  proof (cases "prefix (path_key ?t) q")
    case True
    then show ?thesis using u(2) [of q] fs_absent_below [OF os_okD [OF assms(3)] assms(5) True] by simp
  next
    case False
    then have "lookup w'' q = lookup w' q" using unpublish_change [OF assms(1,2) p(2) unpub, of q] assms(7) by auto
    then show ?thesis using p(1) [of q] False by auto
  qed
  moreover have "mp_Path ` set (os_mounts w'') = mp_Path ` set (os_mounts w)"
  proof (rule mount_service.publish_steps [OF assms(1) pub assms(2,3)], goal_cases skip attach)
    case skip
    then show ?case using u(4) assms(6) by simp
  next
    case (attach w1 w2 mp n)
    then show ?case using u(4) assms(6) by auto
  qed
  ultimately show ?thesis by auto
qed

theorem publish_unpublish_restores_witness:
  "\<exists>w' w''. NodePublishVolume demo_hpn (Some (demo_publish ''v1'' [])) (demo_os node_fs) = (Ok (), w') \<and>
     NodeUnpublishVolume demo_hpn (Some (demo_unpublish ''v1'')) w' = (Ok (), w'') \<and>
     lookup w'' = lookup (demo_os node_fs)"
proof -
  let ?rq = "demo_publish ''v1'' []" and ?w = "demo_os node_fs" and ?un = "demo_unpublish ''v1''"
  have "is_ok (fst (NodePublishVolume demo_hpn (Some ?rq) ?w))" by code_simp
  then obtain w' where pub: "NodePublishVolume demo_hpn (Some ?rq) ?w = (Ok (), w')" by (rule run_ok) simp
  have "is_ok (fst (NodeUnpublishVolume demo_hpn (Some ?un) (snd (NodePublishVolume demo_hpn (Some ?rq) ?w))))" by code_simp
  then have "is_ok (fst (NodeUnpublishVolume demo_hpn (Some ?un) w'))" using pub by simp
  then obtain w'' where un: "NodeUnpublishVolume demo_hpn (Some ?un) w' = (Ok (), w'')" by (rule run_ok) simp
  have eq: "\<lparr>nu_VolumeId = np_VolumeId ?rq, nu_TargetPath = np_TargetPath ?rq\<rparr> = ?un"
    by (simp add: demo_publish_def demo_unpublish_def)
  have s: "\<not> isEphemeralVolumeRequest ?rq" "lookup ?w (path_key (np_TargetPath ?rq)) = None"
    "\<not> prefix ''csi'' (np_VolumeId ?rq)" by code_simp+
  have "Clean (np_TargetPath ?rq) \<notin> mp_Path ` set (os_mounts ?w)" by (simp add: demo_os_def)
  then show ?thesis
    using publish_unpublish_restores [OF fake.mount_service_axioms demo_mounter node_fs_ok s(1,2) _ s(3) pub] un pub
    unfolding eq by blast
qed

section \<open>Ephemeral volumes\<close>

lemma unpublish_csi:
  assumes "mount_service mnt" "cfg_Mounter (hpn_cfg hpn) = Some mnt" "os_ok w"
    and "NodeUnpublishVolume hpn (Some rq) w = (Ok (), w')"
    and "lookup w (path_key (nu_TargetPath rq)) = None \<longrightarrow> Clean (nu_TargetPath rq) \<notin> mp_Path ` set (os_mounts w)"
    and "prefix ''csi'' (nu_VolumeId rq)" "pool_entry (node_pools hpn) (nu_VolumeId rq) p" "lookup w p = Some Directory"
    and "\<forall>p'. pool_entry (node_pools hpn) (nu_VolumeId rq) p' \<and> lookup w p' = Some Directory \<longrightarrow> p' = p"
    and "prefix p q"
  shows "lookup w' q = None"
proof (rule unpublish_done [OF assms(1-5)], goal_cases unpublish)
  case (unpublish w1 w2)
  have run: "removeEphemeralPath hpn (nu_VolumeId rq) w2 = (None, w')"
    using unpublish(8) assms(6) by (simp add: isEphemeralVolumeId_def)
  obtain del: "DeleteVolume_rpc (node_pools hpn) (Some (nu_VolumeId rq)) w2 = (Ok (), w')"
    using removeEphemeralPath_eq [OF unpublish(6) run] by blast
  show ?case
    using del os_okD [OF unpublish(4)]
  proof (cases rule: DeleteVolume_rpc_cases)
    case none
    have "lookup w2 p \<noteq> Some m" for m
      using os_RemoveAll_shrinks [OF unpublish(3), of p m] none(2) assms(7,8) unpublish(1) by auto
    then have "lookup w2 p = None" by (cases "lookup w2 p") auto
    then show ?thesis using fs_absent_below [OF os_okD [OF unpublish(4)] _ assms(10)] none(1) by simp
  next
    case (one p' s e)
    have "lookup w p' = Some Directory" using os_RemoveAll_shrinks [OF unpublish(3) one(2)] unpublish(1) by simp
    then have "p' = p" using assms(9) one(1) by blast
    then have "prefix (path_key s) q" using one(5) assms(10) by simp
    then show ?thesis using os_RemoveAll_ok [of s w2 w' q] one(4,6,7) by simp
  qed
qed

text \<open>C24: The node tells an ephemeral volume by its id alone: a persistent volume whose id starts
  with \<open>csi\<close> is deleted from its pool with all its data when it is unpublished.\<close>
theorem persistent_csi_volume_lost:
  assumes "mount_service mnt" "cfg_Mounter (hpn_cfg hpn) = Some mnt" "os_ok w" "\<not> isEphemeralVolumeRequest rq"
    and "prefix ''csi'' (np_VolumeId rq)" "pool_entry (node_pools hpn) (np_VolumeId rq) p" "lookup w p = Some Directory"
    and "\<forall>p'. pool_entry (node_pools hpn) (np_VolumeId rq) p' \<and> lookup w p' = Some Directory \<longrightarrow> p' = p"
    and "\<not> pool_entry (node_pools hpn) (np_VolumeId rq) (path_key (np_TargetPath rq))"
    and pub: "NodePublishVolume hpn (Some rq) w = (Ok (), w')"
    and unpub: "NodeUnpublishVolume hpn (Some \<lparr>nu_VolumeId = np_VolumeId rq, nu_TargetPath = np_TargetPath rq\<rparr>) w' = (Ok (), w'')"
    and "prefix p q"
  shows "lookup w'' q = None"
proof -
  note l = publish_persistent [OF assms(1-4) pub]
  have "\<forall>p'. pool_entry (node_pools hpn) (np_VolumeId rq) p' \<and> lookup w' p' = Some Directory \<longrightarrow> p' = p"
    using assms(8,9) l(1) by (auto split: if_splits)
  then show ?thesis
    using l assms(5,6,7,12) by (intro unpublish_csi [OF assms(1,2) l(2) unpub]) auto
qed

lemma demo_node_entry: "pool_entry (node_pools demo_hpn) i p \<longleftrightarrow> p = [''a'', i] \<or> p = [''b'', i]"
  using demo_entry [of i p] by (simp add: pool_entry_def demo_hpc_def demo_hpn_def NewHostPathNode_def)

theorem persistent_csi_volume_lost_witness:
  "\<exists>w' w''. lookup (demo_os node_fs) [''a'', ''csi-data'', ''f''] = Some (RegularFile ''x'') \<and>
     NodePublishVolume demo_hpn (Some (demo_publish ''csi-data'' [])) (demo_os node_fs) = (Ok (), w') \<and>
     NodeUnpublishVolume demo_hpn (Some (demo_unpublish ''csi-data'')) w' = (Ok (), w'') \<and>
     lookup w'' [''a'', ''csi-data'', ''f''] = None"
proof -
  let ?rq = "demo_publish ''csi-data'' []" and ?w = "demo_os node_fs" and ?un = "demo_unpublish ''csi-data''"
  have "is_ok (fst (NodePublishVolume demo_hpn (Some ?rq) ?w))" by code_simp
  then obtain w' where pub: "NodePublishVolume demo_hpn (Some ?rq) ?w = (Ok (), w')" by (rule run_ok) simp
  have "is_ok (fst (NodeUnpublishVolume demo_hpn (Some ?un) (snd (NodePublishVolume demo_hpn (Some ?rq) ?w))))" by code_simp
  then have "is_ok (fst (NodeUnpublishVolume demo_hpn (Some ?un) w'))" using pub by simp
  then obtain w'' where un: "NodeUnpublishVolume demo_hpn (Some ?un) w' = (Ok (), w'')" by (rule run_ok) simp
  have eq: "\<lparr>nu_VolumeId = np_VolumeId ?rq, nu_TargetPath = np_TargetPath ?rq\<rparr> = ?un"
    by (simp add: demo_publish_def demo_unpublish_def)
  have s: "\<not> isEphemeralVolumeRequest ?rq" "prefix ''csi'' (np_VolumeId ?rq)" "np_VolumeId ?rq = ''csi-data''"
    "lookup ?w [''a'', ''csi-data''] = Some Directory" "lookup ?w [''b'', ''csi-data''] = None"
    "lookup ?w [''a'', ''csi-data'', ''f''] = Some (RegularFile ''x'')" "path_key (np_TargetPath ?rq) = [''k'', ''t'']" by code_simp+
  have "lookup w'' [''a'', ''csi-data'', ''f''] = None"
    by (rule persistent_csi_volume_lost [OF fake.mount_service_axioms demo_mounter node_fs_ok s(1,2) _ s(4) _ _ pub])
       (use s un eq in \<open>auto simp: demo_node_entry\<close>)
  then show ?thesis using pub un s(6) by blast
qed

lemma os_MkdirAll_leaf:
  assumes "os_MkdirAll s w = (None, w')" "path_key s = p @ [c]" "fs_wf (os_fs w)"
    and "lookup w p = Some Directory" "lookup w (p @ [c]) = None"
  shows "lookup w' x = (if x = p @ [c] then Some Directory else lookup w x)"
proof (cases "lookup w x")
  case (Some m)
  then show ?thesis using os_MkdirAll_keeps [OF assms(1) Some] assms(5) by auto
next
  case None
  have "lookup w' x = None" if "x \<noteq> p @ [c]"
  proof (rule ccontr)
    assume "lookup w' x \<noteq> None"
    then have "prefix x p" using os_MkdirAll_new [OF assms(1) None] assms(2) that by (auto simp: prefix_snoc)
    then have "lookup w x = Some Directory" by (rule fs_dir_above [OF assms(3,4)])
    then show False using None by simp
  qed
  then show ?thesis using os_MkdirAll_ok [OF assms(1)] None assms(2) by auto
qed

lemma publish_ephemeral_lookup:
  assumes "mount_service mnt" "cfg_Mounter (hpn_cfg hpn) = Some mnt" "os_ok w" "isEphemeralVolumeRequest rq"
    and "simple_name (np_VolumeId rq)" "publish_source hpn rq = Join [d, np_VolumeId rq]"
    and "lookup w (path_key d) = Some Directory" "lookup w (path_key d @ [np_VolumeId rq]) = None"
    and "lookup w (path_key (np_TargetPath rq)) = None" "path_key (np_TargetPath rq) \<noteq> path_key d @ [np_VolumeId rq]"
    and "NodePublishVolume hpn (Some rq) w = (Ok (), w')"
  shows "lookup w' q = (if q = path_key (np_TargetPath rq) \<or> q = path_key d @ [np_VolumeId rq] then Some Directory else lookup w q)"
    and "os_ok w'" and "mp_Path ` set (os_mounts w') = insert (Clean (np_TargetPath rq)) (mp_Path ` set (os_mounts w))"
proof -
  let ?k = "path_key (np_TargetPath rq)" and ?p = "path_key d @ [np_VolumeId rq]"
  have "lookup w' q = (if q = ?k \<or> q = ?p then Some Directory else lookup w q) \<and> os_ok w' \<and>
    mp_Path ` set (os_mounts w') = insert (Clean (np_TargetPath rq)) (mp_Path ` set (os_mounts w))"
  proof (rule mount_service.publish_steps [OF assms(1,11,2,3)], goal_cases skip attach)
    case skip
    then obtain n where "os_Stat (np_TargetPath rq) w = Inr n" using mount_service.canMount_False(3) [OF assms(1) skip(2)] by blast
    then show ?case using os_Stat_Inr assms(9) by fastforce
  next
    case (attach w1 w2 mp n)
    note can = mount_service.canMount_True [OF assms(1) attach(1) assms(3)]
    have mk: "os_MkdirAll (Join [Clean d, np_VolumeId rq]) w1 = (None, w2)"
      using attach(2) assms(4,5,6) by (simp add: CreateVolumeDirectory_def createVolumeDirectoryFunc_def)
    have key: "path_key (Join [Clean d, np_VolumeId rq]) = ?p" using assms(5) by simp
    have "os_fs w1 = os_fs w @ [(?k, Directory)]"
    proof -
      obtain m where "os_Stat (np_TargetPath rq) w1 = Inr m" using can(3) by blast
      then show ?thesis using can(4) os_Stat_Inr assms(9) by fastforce
    qed
    then have l1: "lookup w1 x = (if x = ?k then Some Directory else lookup w x)" for x
      using assms(9) by (simp add: fs_lookup_append split: option.splits)
    have ok2: "os_ok w2" by (rule os_ok_env [OF can(1) os_MkdirAll_env [OF mk] os_MkdirAll_wf [OF mk os_okD [OF can(1)]]])
    have "lookup w1 (path_key d) = Some Directory" "lookup w1 ?p = None" using l1 assms(7,8,9,10) by auto
    then have "lookup w2 x = (if x = ?p then Some Directory else lookup w1 x)" for x
      by (rule os_MkdirAll_leaf [OF mk key os_okD [OF can(1)]])
    then have "lookup w' x = (if x = ?k \<or> x = ?p then Some Directory else lookup w x)" for x using attach(4) l1 by simp
    then show ?case using ok2 attach(4,5) by (simp add: os_ok_def)
  qed
  then show "lookup w' q = (if q = ?k \<or> q = ?p then Some Directory else lookup w q)" "os_ok w'"
    "mp_Path ` set (os_mounts w') = insert (Clean (np_TargetPath rq)) (mp_Path ` set (os_mounts w))" by blast+
qed

text \<open>C23: Publishing an ephemeral volume on a fresh target in a configured pool, when no pool has an entry of
  its name, and unpublishing it, both without an error, gives back the mount points there were. With
  an id that starts with \<open>csi\<close>, as the kubelet makes them, the file tree is the one before, the directory
  of the volume included; with any other id that directory stays behind in the pool, and everything
  else is as before.\<close>
theorem ephemeral_volume_restores:
  assumes "mount_service mnt" "cfg_Mounter (hpn_cfg hpn) = Some mnt" "os_ok w" "isEphemeralVolumeRequest rq"
    and "simple_name (np_VolumeId rq)"
    and "(k, info) \<in> set (cfg_StoragePoolInfo (hpn_cfg hpn))" "publish_source hpn rq = Join [Path info, np_VolumeId rq]"
    and "lookup w (path_key (Path info)) = Some Directory"
    and "\<forall>p. pool_entry (node_pools hpn) (np_VolumeId rq) p \<longrightarrow> lookup w p = None \<and> p \<noteq> path_key (np_TargetPath rq)"
    and "lookup w (path_key (np_TargetPath rq)) = None" "Clean (np_TargetPath rq) \<notin> mp_Path ` set (os_mounts w)"
    and pub: "NodePublishVolume hpn (Some rq) w = (Ok (), w')"
    and unpub: "NodeUnpublishVolume hpn (Some \<lparr>nu_VolumeId = np_VolumeId rq, nu_TargetPath = np_TargetPath rq\<rparr>) w' = (Ok (), w'')"
  shows "mp_Path ` set (os_mounts w'') = mp_Path ` set (os_mounts w) \<and>
    (prefix ''csi'' (np_VolumeId rq) \<longrightarrow> lookup w'' = lookup w) \<and>
    (\<not> prefix ''csi'' (np_VolumeId rq) \<longrightarrow>
       lookup w'' = (lookup w)(path_key (Path info) @ [np_VolumeId rq] \<mapsto> Directory))"
proof -
  let ?k = "path_key (np_TargetPath rq)" and ?p = "path_key (Path info) @ [np_VolumeId rq]"
  let ?un = "\<lparr>nu_VolumeId = np_VolumeId rq, nu_TargetPath = np_TargetPath rq\<rparr>"
  have entry: "pool_entry (node_pools hpn) (np_VolumeId rq) ?p" using assms(6) by (auto simp: pool_entry_def)
  then have p: "lookup w ?p = None" "?k \<noteq> ?p" using assms(9) by auto
  note l = publish_ephemeral_lookup [OF assms(1-5,7,8) p(1) assms(10) p(2) pub]
  have there: "lookup w' (path_key (nu_TargetPath ?un)) = None \<longrightarrow> Clean (nu_TargetPath ?un) \<notin> mp_Path ` set (os_mounts w')"
    using l(1) by simp
  note u = unpublish_facts [OF assms(1,2) l(2) unpub there]
  have only: "\<forall>p'. pool_entry (node_pools hpn) (np_VolumeId rq) p' \<and> lookup w' p' = Some Directory \<longrightarrow> p' = ?p"
    using assms(9) l(1) by (auto split: if_splits)
  have gone: "lookup w'' q = None" if csi: "prefix ''csi'' (np_VolumeId rq)" and "prefix ?p q" for q
  proof (rule unpublish_csi [OF assms(1,2) l(2) unpub there, of ?p])
    show "lookup w' ?p = Some Directory" using l(1) [of ?p] by simp
    show "\<forall>p'. pool_entry (node_pools hpn) (nu_VolumeId ?un) p' \<and> lookup w' p' = Some Directory \<longrightarrow> p' = ?p"
      unfolding NodeUnpublishVolumeRequest.select_convs by (fact only)
  qed (simp_all only: NodeUnpublishVolumeRequest.select_convs csi entry that)
  have csi: "lookup w'' q = lookup w q" if "prefix ''csi'' (np_VolumeId rq)" for q
  proof (cases "lookup w q")
    case None
    then have "lookup w'' q \<noteq> Some n" for n
      using u(1) [of q n] l(1) [of q] u(2) [of q] gone [OF that, of q] by (auto split: if_splits)
    then show ?thesis using None by (cases "lookup w'' q") auto
  next
    case (Some n)
    have clear: "\<not> prefix x q" if "lookup w x = None" for x
      using fs_absent_below [OF os_okD [OF assms(3)] that] Some by auto
    have "lookup w'' q = lookup w' q"
      using unpublish_change [OF assms(1,2) l(2) unpub, of q] clear assms(9,10) by auto
    then show ?thesis using l(1) [of q] assms(10) p(1) Some by auto
  qed
  have "\<not> prefix ?k (path_key (Path info))"
    using fs_absent_below [OF os_okD [OF assms(3)] assms(10)] assms(8) by auto
  then have out: "\<not> prefix ?k ?p" using p(2) by (simp add: prefix_snoc)
  have other: "lookup w'' q = ((lookup w)(?p \<mapsto> Directory)) q" if "\<not> prefix ''csi'' (np_VolumeId rq)" for q
  proof (cases "prefix ?k q")
    case True
    then show ?thesis using u(2) [of q] fs_absent_below [OF os_okD [OF assms(3)] assms(10) True] out by auto
  next
    case False
    then have "lookup w'' q = lookup w' q" using unpublish_change [OF assms(1,2) l(2) unpub, of q] that by auto
    then show ?thesis using l(1) [of q] False by auto
  qed
  have "mp_Path ` set (os_mounts w'') = mp_Path ` set (os_mounts w)" using u(4) l(3) assms(11) by auto
  then show ?thesis using csi other by blast
qed

theorem ephemeral_volume_restores_witness:
  "\<exists>w' w''. NodePublishVolume demo_hpn (Some (demo_publish ''csi-e'' [(ephemeralContextKey, ''true'')])) (demo_os node_fs) = (Ok (), w') \<and>
     NodeUnpublishVolume demo_hpn (Some (demo_unpublish ''csi-e'')) w' = (Ok (), w'') \<and>
     lookup w'' = lookup (demo_os node_fs)"
proof -
  let ?rq = "demo_publish ''csi-e'' [(ephemeralContextKey, ''true'')]" and ?w = "demo_os node_fs" and ?un = "demo_unpublish ''csi-e''"
  have "is_ok (fst (NodePublishVolume demo_hpn (Some ?rq) ?w))" by code_simp
  then obtain w' where pub: "NodePublishVolume demo_hpn (Some ?rq) ?w = (Ok (), w')" by (rule run_ok) simp
  have "is_ok (fst (NodeUnpublishVolume demo_hpn (Some ?un) (snd (NodePublishVolume demo_hpn (Some ?rq) ?w))))" by code_simp
  then have "is_ok (fst (NodeUnpublishVolume demo_hpn (Some ?un) w'))" using pub by simp
  then obtain w'' where un: "NodeUnpublishVolume demo_hpn (Some ?un) w' = (Ok (), w'')" by (rule run_ok) simp
  have eq: "\<lparr>nu_VolumeId = np_VolumeId ?rq, nu_TargetPath = np_TargetPath ?rq\<rparr> = ?un"
    by (simp add: demo_publish_def demo_unpublish_def)
  have s: "isEphemeralVolumeRequest ?rq" "simple_name (np_VolumeId ?rq)" "prefix ''csi'' (np_VolumeId ?rq)"
    "publish_source demo_hpn ?rq = Join [Path (demo_info ''legacy'' ''/a''), np_VolumeId ?rq]"
    "lookup ?w (path_key (Path (demo_info ''legacy'' ''/a''))) = Some Directory"
    "lookup ?w (path_key (np_TargetPath ?rq)) = None" by code_simp+
  have t: "np_VolumeId ?rq = ''csi-e''" "lookup ?w [''a'', ''csi-e''] = None" "lookup ?w [''b'', ''csi-e''] = None"
    "path_key (np_TargetPath ?rq) = [''k'', ''t'']" by code_simp+
  have "mp_Path ` set (os_mounts w'') = mp_Path ` set (os_mounts ?w) \<and> (prefix ''csi'' (np_VolumeId ?rq) \<longrightarrow> lookup w'' = lookup ?w) \<and>
    (\<not> prefix ''csi'' (np_VolumeId ?rq) \<longrightarrow>
       lookup w'' = (lookup ?w)(path_key (Path (demo_info ''legacy'' ''/a'')) @ [np_VolumeId ?rq] \<mapsto> Directory))"
  proof (rule ephemeral_volume_restores [OF fake.mount_service_axioms demo_mounter node_fs_ok s(1,2) _ s(4,5) _ s(6) _ pub])
    show "(''legacy'', demo_info ''legacy'' ''/a'') \<in> set (cfg_StoragePoolInfo (hpn_cfg demo_hpn))"
      by (simp add: demo_hpn_def NewHostPathNode_def demo_cfg_def demo_pools_def)
    show "\<forall>p. pool_entry (node_pools demo_hpn) (np_VolumeId ?rq) p \<longrightarrow> lookup ?w p = None \<and> p \<noteq> path_key (np_TargetPath ?rq)"
      unfolding t(1,4) using t(2,3) by (auto simp: demo_node_entry)
  qed (use un eq in \<open>simp_all add: demo_os_def\<close>)
  then show ?thesis using pub un s(3) by blast
qed

section \<open>Failures and statistics\<close>

text \<open>C25: When the mount fails and the target cannot be examined any more, the handler dereferences the
  missing file information and the plugin crashes instead of answering with an error.\<close>
theorem failed_mount_panics:
  assumes "validateNodePublishRequest (Some rq) = None" "cfg_Mounter (hpn_cfg hpn) = Some mnt"
    and "\<not> isEphemeralVolumeRequest rq" "canMountVolume mnt (np_TargetPath rq) w = (Inr True, w1)"
    and "\<And>src fs opts. mt_Mount mnt src (np_TargetPath rq) fs opts w1 = (Some e, w2)"
    and "os_Stat (np_TargetPath rq) w2 = Inl e'"
  shows "NodePublishVolume hpn (Some rq) w = (Panic nil_deref, w2)"
  using assms by (simp add: NodePublishVolume_def mountVolume_def mount_failed_def Let_def)

definition racy_mounter :: mounter where
  \<comment> \<open>the target is removed by somebody else while the mount is attempted, and the mount fails\<close>
  "racy_mounter = FakeMounter\<lparr>mt_Mount := \<lambda>src t fs opts w. (Some (ErrorString ''mount failed''), snd (os_RemoveAll t w))\<rparr>"

theorem failed_mount_panics_witness:
  "\<exists>w2. NodePublishVolume (NewHostPathNode (demo_cfg\<lparr>cfg_Mounter := Some racy_mounter\<rparr>)) (Some (demo_publish ''v1'' []))
     (demo_os node_fs) = (Panic nil_deref, w2)"
proof -
  let ?rq = "demo_publish ''v1'' []" and ?w = "demo_os node_fs"
  let ?w1 = "snd (canMountVolume racy_mounter (np_TargetPath ?rq) ?w)"
  have s: "validateNodePublishRequest (Some ?rq) = None" "\<not> isEphemeralVolumeRequest ?rq"
    "fst (canMountVolume racy_mounter (np_TargetPath ?rq) ?w) = Inr True"
    "\<not> isl (os_Stat (np_TargetPath ?rq) ?w1)" "isl (os_Stat (np_TargetPath ?rq) (snd (os_RemoveAll (np_TargetPath ?rq) ?w1)))"
    by code_simp+
  obtain e' where e': "os_Stat (np_TargetPath ?rq) (snd (os_RemoveAll (np_TargetPath ?rq) ?w1)) = Inl e'"
    using s(5) by (auto simp: isl_def)
  have can: "canMountVolume racy_mounter (np_TargetPath ?rq) ?w = (Inr True, ?w1)" using s(3) by (simp add: prod_eq_iff)
  have m: "mt_Mount racy_mounter src (np_TargetPath ?rq) fs opts ?w1 =
    (Some (ErrorString ''mount failed''), snd (os_RemoveAll (np_TargetPath ?rq) ?w1))" for src fs opts
    by (simp add: racy_mounter_def)
  show ?thesis
    using failed_mount_panics [OF s(1) _ s(2) can m e', of "NewHostPathNode (demo_cfg\<lparr>cfg_Mounter := Some racy_mounter\<rparr>)"]
    by (auto simp: NewHostPathNode_def)
qed

lemma fsInfo_exact:
  assumes "unix_Statfs path w = Inr st" "0 < sint (Bsize st)" "uint (Blocks st) * sint (Bsize st) < 2 ^ 63"
    and "uint (Bavail st) \<le> uint (Bfree st)" "uint (Bfree st) \<le> uint (Blocks st)"
    and "uint (Ffree st) \<le> uint (Files st)" "uint (Files st) < 2 ^ 63"
  obtains p where "getPVStats path w = Inr p"
    and "sint (pv_available p) = uint (Bavail st) * sint (Bsize st)"
    and "sint (pv_capacity p) = uint (Blocks st) * sint (Bsize st)"
    and "sint (pv_used p) = (uint (Blocks st) - uint (Bfree st)) * sint (Bsize st)"
    and "sint (pv_inodes p) = uint (Files st)" "sint (pv_inodesFree p) = uint (Ffree st)"
    and "sint (pv_inodesUsed p) = uint (Files st) - uint (Ffree st)"
proof -
  have exact: "sint (x * Bsize st) = uint x * sint (Bsize st)" if "uint x \<le> uint (Blocks st)" for x
  proof (rule int64_mult_exact [OF _ assms(2)])
    show "uint x * sint (Bsize st) < 2 ^ 63"
      using mult_right_mono [OF that, of "sint (Bsize st)"] assms(2,3) by linarith
  qed
  have diff: "uint (Blocks st - Bfree st) = uint (Blocks st) - uint (Bfree st)"
    and idiff: "uint (Files st - Ffree st) = uint (Files st) - uint (Ffree st)"
    using assms(5,6) uint_sub_lem by blast+
  have "uint (Files st - Ffree st) < 2 ^ 63" using idiff assms(7) uint_nonnegative [of "Ffree st"] by linarith
  then have used: "sint (Files st - Ffree st) = uint (Files st) - uint (Ffree st)" using sint_word_small idiff by metis
  show ?thesis
  proof (rule that)
    show "getPVStats path w = Inr \<lparr>pv_available = Bavail st * Bsize st, pv_capacity = Blocks st * Bsize st,
        pv_used = (Blocks st - Bfree st) * Bsize st, pv_inodes = Files st, pv_inodesFree = Ffree st,
        pv_inodesUsed = Files st - Ffree st\<rparr>"
      using assms(1) by (simp add: getPVStats_def fsInfo_def)
  qed (use assms(4-7) uint_nonnegative [of "Bfree st"] uint_nonnegative [of "Ffree st"]
        in \<open>simp_all add: exact diff used sint_word_small\<close>)
qed

lemma node_health_iff:
  "fst (doHealthCheckInNodeSide decode path w) \<longleftrightarrow> checkMountPointExist decode path w = Inr True \<and> space_left path w"
  using checkIfSpaceAvailable_iff [of path w] by (auto simp: doHealthCheckInNodeSide_def split: sum.splits)

text \<open>C26: As long as the size of the file system fits in 63 bits, the usage that \<open>NodeGetVolumeStats\<close> reports
  is the exact one, with used and free inodes adding up, and the volume is reported abnormal
  exactly when it is not mounted at its path or when no block or no inode is left.\<close>
theorem node_volume_stats_exact:
  assumes "unix_Statfs (ns_VolumePath rq) w = Inr st" "0 < sint (Bsize st)" "uint (Blocks st) * sint (Bsize st) < 2 ^ 63"
    and "uint (Bavail st) \<le> uint (Bfree st)" "uint (Bfree st) \<le> uint (Blocks st)"
    and "uint (Ffree st) \<le> uint (Files st)" "uint (Files st) < 2 ^ 63"
    and "NodeGetVolumeStats decode (Some rq) w = Ok resp"
  shows "\<exists>bytes inodes. ns_Usage resp = [bytes, inodes] \<and> vu_Unit bytes = BYTES \<and> vu_Unit inodes = INODES \<and>
    sint (vu_Available bytes) = uint (Bavail st) * sint (Bsize st) \<and>
    sint (vu_Total bytes) = uint (Blocks st) * sint (Bsize st) \<and>
    sint (vu_Used bytes) = (uint (Blocks st) - uint (Bfree st)) * sint (Bsize st) \<and>
    sint (vu_Total inodes) = uint (Files st) \<and> sint (vu_Available inodes) = uint (Ffree st) \<and>
    sint (vu_Used inodes) + sint (vu_Available inodes) = sint (vu_Total inodes) \<and>
    (ns_Abnormal resp \<longleftrightarrow>
       checkMountPointExist decode (ns_VolumePath rq) w \<noteq> Inr True \<or> Bavail st = 0 \<or> Ffree st = 0)"
proof -
  obtain p where p: "getPVStats (ns_VolumePath rq) w = Inr p"
    "sint (pv_available p) = uint (Bavail st) * sint (Bsize st)"
    "sint (pv_capacity p) = uint (Blocks st) * sint (Bsize st)"
    "sint (pv_used p) = (uint (Blocks st) - uint (Bfree st)) * sint (Bsize st)"
    "sint (pv_inodes p) = uint (Files st)" "sint (pv_inodesFree p) = uint (Ffree st)"
    "sint (pv_inodesUsed p) = uint (Files st) - uint (Ffree st)"
    by (rule fsInfo_exact [OF assms(1-7)])
  have "pv_available p = Bavail st * Bsize st" using p(1) assms(1) by (auto simp: getPVStats_def fsInfo_def)
  then have "Bavail st * Bsize st = 0 \<longleftrightarrow> Bavail st = 0"
    using p(2) assms(2) by (auto simp: uint_0_iff)
  then have space: "space_left (ns_VolumePath rq) w \<longleftrightarrow> Bavail st \<noteq> 0 \<and> Ffree st \<noteq> 0"
    using assms(1) by (simp add: space_left_def)
  have "ns_Usage resp =
      [\<lparr>vu_Available = pv_available p, vu_Used = pv_used p, vu_Total = pv_capacity p, vu_Unit = BYTES\<rparr>,
       \<lparr>vu_Available = pv_inodesFree p, vu_Used = pv_inodesUsed p, vu_Total = pv_inodes p, vu_Unit = INODES\<rparr>]"
    and "ns_Abnormal resp \<longleftrightarrow> \<not> fst (doHealthCheckInNodeSide decode (ns_VolumePath rq) w)"
    using assms(8) p(1)
    by (auto simp: NodeGetVolumeStats_def Let_def split: option.splits sum.splits prod.splits)
  then show ?thesis using p space node_health_iff by auto
qed

definition findmnt_os :: os where
  \<comment> \<open>a node on which \<open>findmnt\<close> answers with the target it is asked for\<close>
  "findmnt_os = (demo_os demo_fs)\<lparr>os_LookPath := \<lambda>_. Inr ''/bin/findmnt'', os_Command := \<lambda>_ _ args. Inr (hd args)\<rparr>"

definition demo_decode :: decoder where
  "demo_decode out = Inr [\<lparr>mi_Target = out, mi_Source = [], mi_FsType = [], mi_Options = []\<rparr>]"

theorem node_volume_stats_exact_witness:
  "\<exists>resp. NodeGetVolumeStats demo_decode (Some \<lparr>ns_VolumeId = ''v1'', ns_VolumePath = ''/a/v1''\<rparr>) findmnt_os = Ok resp \<and>
     map (\<lambda>u. sint (vu_Total u)) (ns_Usage resp) = [81920, 100] \<and> \<not> ns_Abnormal resp"
proof -
  let ?rq = "\<lparr>ns_VolumeId = ''v1'', ns_VolumePath = ''/a/v1''\<rparr>"
  have "is_ok (NodeGetVolumeStats demo_decode (Some ?rq) findmnt_os)" by code_simp
  then obtain resp where run: "NodeGetVolumeStats demo_decode (Some ?rq) findmnt_os = Ok resp" by (auto simp: is_ok_iff)
  have st: "unix_Statfs (ns_VolumePath ?rq) findmnt_os = Inr demo_statfs"
    by (simp add: unix_Statfs_def findmnt_os_def demo_os_def)
  have "checkMountPointExist demo_decode (ns_VolumePath ?rq) findmnt_os = Inr True"
    by (simp add: checkMountPointExist_def getMountInfos_def parseMountInfo_def findmnt_os_def demo_decode_def)
  then show ?thesis
    using node_volume_stats_exact [OF st _ _ _ _ _ _ run] run by (auto simp: demo_statfs_def)
qed

end
