(* ===== verification/Driver.thy ===== *)
theory Driver
  imports Node_Server
begin

text \<open>
  The CSI driver around the services: the identity service (\<open>pkg/hostpath/identityserver.go\<close>), the
  gRPC server and its endpoint (\<open>server.go\<close>), the names in the certificate of the metrics server
  (\<open>tls.go\<close>), the construction of the driver (\<open>hostpath.go\<close>), the metric
  (\<open>pkg/monitoring/metrics\<close>) and the main function of the plugin (\<open>cmd/plugin/plugin.go\<close>). Decoding
  of JSON, the cryptography of the certificate and the gRPC library are parameters.
\<close>

section \<open>Identity service\<close>

record hostPathIdentity =
  hpi_cfg :: Config

definition NewHostPathIdentity :: "Config \<Rightarrow> hostPathIdentity" where
  "NewHostPathIdentity config = \<lparr>hpi_cfg = config\<rparr>"

record GetPluginInfoResponse =
  gpi_Name :: string
  gpi_VendorVersion :: string

definition GetPluginInfo :: "hostPathIdentity \<Rightarrow> GetPluginInfoResponse outcome" where
  "GetPluginInfo hpi =
     (if cfg_DriverName (hpi_cfg hpi) = [] then Err (StatusError Unavailable ''Driver name not configured'')
      else if cfg_Version (hpi_cfg hpi) = [] then Err (StatusError Unavailable ''Version not configured'')
      else Ok \<lparr>gpi_Name = cfg_DriverName (hpi_cfg hpi), gpi_VendorVersion = cfg_Version (hpi_cfg hpi)\<rparr>)"

definition Probe :: "hostPathIdentity \<Rightarrow> unit outcome" where
  "Probe hpi = Ok ()"

datatype plugin_capability = CONTROLLER_SERVICE | VOLUME_ACCESSIBILITY_CONSTRAINTS

definition GetPluginCapabilities :: "hostPathIdentity \<Rightarrow> plugin_capability list outcome" where
  "GetPluginCapabilities hpi = Ok ([CONTROLLER_SERVICE] @ [VOLUME_ACCESSIBILITY_CONSTRAINTS])"

section \<open>Endpoints\<close>

fun SplitN2 :: "string \<Rightarrow> string \<Rightarrow> string list" where
  \<comment> \<open>\<open>strings.SplitN(s, sep, 2)\<close>\<close>
  "SplitN2 sep [] = [[]]"
| "SplitN2 sep (c # cs) =
     (if prefix sep (c # cs) then [[], drop (length sep) (c # cs)]
      else (case SplitN2 sep cs of s # ss \<Rightarrow> (c # s) # ss | [] \<Rightarrow> []))"

definition parse :: "string \<Rightarrow> go_error + string \<times> string" where
  "parse ep =
     (if prefix ''unix://'' (ToLower ep) \<or> prefix ''tcp://'' (ToLower ep)
      then (case SplitN2 ''://'' ep of
              [proto, addr] \<Rightarrow>
                if addr \<noteq> [] then Inr (proto, addr) else Inl (ErrorString (''invalid endpoint: '' @ ep))
            | _ \<Rightarrow> Inl (ErrorString (''invalid endpoint: '' @ ep)))
      else Inr (''unix'', ep))"

definition os_Remove :: "string \<Rightarrow> os \<Rightarrow> go_error option \<times> os" where
  \<comment> \<open>\<open>os.Remove\<close>: a file, or an empty directory\<close>
  "os_Remove s w =
     (let k = path_key s; fail = (\<lambda>e. (Some (PathError ''remove'' s e), w)) in
      if s = [] then fail ENOENT
      else if k = [] then fail EBUSY
      else (case os_fault w SysUnlink k of
        Some e \<Rightarrow> fail e
      | None \<Rightarrow>
          if blocked (os_fs w) k then fail ENOTDIR
          else (case lookup w k of
                  None \<Rightarrow> fail ENOENT
                | Some n \<Rightarrow>
                    if n = Directory \<and> fs_children (os_fs w) k \<noteq> [] then fail ENOTEMPTY
                    else (None, w\<lparr>os_fs := filter (\<lambda>(p, _). p \<noteq> k) (os_fs w)\<rparr>))))"

definition net_Listen_unix :: "string \<Rightarrow> os \<Rightarrow> go_error option \<times> os" where
  \<comment> \<open>\<open>net.Listen("unix", addr)\<close>: the socket is a new file, or a name in the abstract namespace; the
      socket file has no content that this program reads\<close>
  "net_Listen_unix addr w =
     (let k = path_key addr; fail = (\<lambda>m. (Some (ErrorString (''listen unix '' @ addr @ '': bind: '' @ m)), w)) in
      if length addr > 107 then fail (strerror EINVAL)
      else if addr \<noteq> [] \<and> hd addr = CHR ''@'' then (None, w)
      else if blocked (os_fs w) k then fail (strerror ENOTDIR)
      else if lookup w k \<noteq> None then fail ''address already in use''
      else if lookup w (butlast k) = None then fail (strerror ENOENT)
      else (None, w\<lparr>os_fs := os_fs w @ [(k, RegularFile [])]\<rparr>))"

definition close_listener :: "string \<Rightarrow> os \<Rightarrow> os" where
  \<comment> \<open>\<open>Close\<close> of a \<open>net.UnixListener\<close> unlinks the socket file and ignores errors; an abstract name has no file\<close>
  "close_listener addr w =
     (let k = path_key addr in
      if addr \<noteq> [] \<and> hd addr = CHR ''@'' then w
      else (case lookup w k of
              Some (RegularFile _) \<Rightarrow>
                if os_fault w SysUnlink k = None then w\<lparr>os_fs := filter (\<lambda>(p, _). p \<noteq> k) (os_fs w)\<rparr> else w
            | _ \<Rightarrow> w))"

record grpc_listener =
  gl_addr :: string
  gl_cleanup :: "string option"  \<comment> \<open>the file that \<open>cleanup\<close> removes\<close>

definition listen :: "string \<Rightarrow> os \<Rightarrow> (go_error + grpc_listener) \<times> os" where
  "listen endpoint w =
     (case parse endpoint of
        Inl err \<Rightarrow> (Inl err, w)
      | Inr (proto, addr) \<Rightarrow>
          (let bind = (\<lambda>addr cleanup w.
                 case net_Listen_unix addr w of
                   (Some err, w') \<Rightarrow> (Inl err, w')
                 | (None, w') \<Rightarrow> (Inr \<lparr>gl_addr = addr, gl_cleanup = cleanup\<rparr>, w'))
           in if proto = ''unix'' then
                (case os_Remove (''/'' @ addr) w of
                   (Some err, w') \<Rightarrow>
                     if \<not> IsNotExist err then (Inl (ErrorString (''/'' @ addr @ '': '' @ quote (error_msg err))), w')
                     else bind (''/'' @ addr) (Some (''/'' @ addr)) w'
                 | (None, w') \<Rightarrow> bind (''/'' @ addr) (Some (''/'' @ addr)) w')
              else bind addr None w))"

section \<open>The gRPC server\<close>

datatype service = IdentityService | ControllerService | NodeService

record nonBlockingGRPCServer =
  gs_wg :: int  \<comment> \<open>the counter of the wait group\<close>
  gs_server :: "service list option"  \<comment> \<open>the registered services, once there is a server\<close>
  gs_listener :: "string option"  \<comment> \<open>the address on which the server accepts connections\<close>
  gs_cleanup :: "string option"

definition NewNonBlockingGRPCServer :: nonBlockingGRPCServer where
  "NewNonBlockingGRPCServer = \<lparr>gs_wg = 0, gs_server = None, gs_listener = None, gs_cleanup = None\<rparr>"

definition serve ::
    "string \<Rightarrow> bool \<Rightarrow> bool \<Rightarrow> bool \<Rightarrow> go_error option option \<Rightarrow> nonBlockingGRPCServer \<Rightarrow> os \<Rightarrow> nonBlockingGRPCServer outcome \<times> os" where
  \<comment> \<open>which services are given; \<open>served\<close> is \<open>None\<close> while \<open>server.Serve\<close> runs. When it returns it has closed the
      listener, and its result is only logged\<close>
  "serve ep ids cs ns served s w =
     (case listen ep w of
        (Inl err, w') \<Rightarrow> (Panic (''Failed to listen: '' @ error_msg err), w')
      | (Inr l, w') \<Rightarrow>
          (let s' = s\<lparr>gs_server := Some ((if ids then [IdentityService] else []) @ (if cs then [ControllerService] else [])
                                    @ (if ns then [NodeService] else [])),
                 gs_listener := Some (gl_addr l), gs_cleanup := gl_cleanup l\<rparr>
           in case served of
                None \<Rightarrow> (Ok s', w')
              | Some _ \<Rightarrow> (Ok (s'\<lparr>gs_listener := None\<rparr>), close_listener (gl_addr l) w')))"

definition Start :: "nonBlockingGRPCServer \<Rightarrow> nonBlockingGRPCServer" where
  \<comment> \<open>what happens before the goroutine that runs \<open>serve\<close> is started\<close>
  "Start s = s\<lparr>gs_wg := gs_wg s + 1\<rparr>"

definition Wait_returns :: "nonBlockingGRPCServer \<Rightarrow> bool" where
  "Wait_returns s \<longleftrightarrow> gs_wg s = 0"

definition Stop :: "nonBlockingGRPCServer \<Rightarrow> os \<Rightarrow> nonBlockingGRPCServer outcome \<times> os" where
  \<comment> \<open>\<open>GracefulStop\<close> (in \<open>Stop\<close>) and \<open>server.Stop\<close> (in \<open>ForceStop\<close>) both close the listener; the error of the
      cleanup is ignored\<close>
  "Stop s w =
     (case gs_server s of
        None \<Rightarrow> (Panic nil_deref, w)
      | Some _ \<Rightarrow>
          (let w1 = (case gs_listener s of Some addr \<Rightarrow> close_listener addr w | None \<Rightarrow> w)
           in (Ok (s\<lparr>gs_listener := None\<rparr>),
               case gs_cleanup s of None \<Rightarrow> w1 | Some addr \<Rightarrow> snd (os_Remove addr w1))))"

datatype ('q, 'r) grpc_log = CallLog string | RequestLog 'q | ErrorLog go_error | ResponseLog "'r option"
  | JsonLog string 'q "'r option" "go_error option"

definition logGRPC ::
    "int \<Rightarrow> string \<Rightarrow> ('q \<Rightarrow> 's \<Rightarrow> 'r outcome \<times> 's) \<Rightarrow> 'q \<Rightarrow> 's \<Rightarrow> 'r outcome \<times> 's \<times> ('q, 'r) grpc_log list" where
  \<comment> \<open>\<open>verbosity\<close> is the level of \<open>klog\<close>; a panic of the handler passes through\<close>
  "logGRPC verbosity FullMethod handler req s =
     (let pri = (if FullMethod = ''/csi.v1.Identity/Probe'' then 5 else 3);
          call = (if verbosity \<ge> pri then [CallLog FullMethod] else []);
          request = (if verbosity \<ge> 5 then [RequestLog req] else [])
      in case handler req s of
           (Panic m, s') \<Rightarrow> (Panic m, s', call @ request)
         | (r, s') \<Rightarrow>
             (let err = (case r of Err e \<Rightarrow> Some e | _ \<Rightarrow> None);
                  resp = (case r of Ok x \<Rightarrow> Some x | _ \<Rightarrow> None)
              in (r, s', call @ request @ (case err of Some e \<Rightarrow> [ErrorLog e] | None \<Rightarrow> [])
                   @ (if verbosity \<ge> 5 then [ResponseLog resp, JsonLog FullMethod req resp err] else []))))"

section \<open>IP addresses and the certificate of the metrics server\<close>

text \<open>\<open>net.ParseIP\<close> gives the 16 bytes of the address; an IPv4 address is mapped into \<open>::ffff:0:0/96\<close>.\<close>

definition octet :: "string \<Rightarrow> nat option" where
  "octet s =
     (if s = [] \<or> hd s = CHR ''0'' \<and> length s > 1 then None
      else (case decimal_value s 0 of None \<Rightarrow> None | Some n \<Rightarrow> if n \<le> 255 then Some n else None))"

definition parse_ipv4 :: "string \<Rightarrow> nat list option" where
  "parse_ipv4 s =
     (let os' = map octet (split_on CHR ''.'' s)
      in if length os' = 4 \<and> list_all (\<lambda>x. x \<noteq> None) os' then Some (map the os') else None)"

definition hex_value :: "char \<Rightarrow> nat option" where
  "hex_value c =
     (let n = (of_char c :: nat) in
      if 48 \<le> n \<and> n \<le> 57 then Some (n - 48)
      else if 97 \<le> n \<and> n \<le> 102 then Some (n - 87)
      else if 65 \<le> n \<and> n \<le> 70 then Some (n - 55) else None)"

definition hex_prefix :: "string \<Rightarrow> string" where
  "hex_prefix s = takeWhile (\<lambda>c. hex_value c \<noteq> None) s"

definition hex_number :: "string \<Rightarrow> nat" where
  "hex_number s = foldl (\<lambda>acc c. 16 * acc + (case hex_value c of Some d \<Rightarrow> d | None \<Rightarrow> 0)) 0 s"

fun parse_ipv6_groups :: "nat \<Rightarrow> string \<Rightarrow> nat list \<Rightarrow> nat option \<Rightarrow> (nat list \<times> nat option) option" where
  \<comment> \<open>the loop of \<open>netip.parseIPv6\<close> with at most 8 rounds left: the rest of the text, the bytes so far and
      the position of the ellipsis\<close>
  "parse_ipv6_groups 0 s ip ellipsis = (if s = [] then Some (ip, ellipsis) else None)"
| "parse_ipv6_groups (Suc n) s ip ellipsis =
     (let h = hex_prefix s; r = drop (length h) s in
      if length ip \<ge> 16 then (if s = [] then Some (ip, ellipsis) else None)
      else if h = [] \<or> length h > 4 then None
      else if r \<noteq> [] \<and> hd r = CHR ''.'' then
        (if ellipsis = None \<and> length ip \<noteq> 12 \<or> length ip + 4 > 16 then None
         else (case parse_ipv4 s of None \<Rightarrow> None | Some b \<Rightarrow> Some (ip @ b, ellipsis)))
      else
        (let ip' = ip @ [hex_number h div 256, hex_number h mod 256] in
         if r = [] then Some (ip', ellipsis)
         else if hd r \<noteq> CHR '':'' \<or> length r = 1 then None
         else if r ! 1 = CHR '':''
         then (if ellipsis \<noteq> None then None
               else if length r = 2 then Some (ip', Some (length ip'))
               else parse_ipv6_groups n (drop 2 r) ip' (Some (length ip')))
         else parse_ipv6_groups n (drop 1 r) ip' ellipsis))"

definition expand_ellipsis :: "nat list \<Rightarrow> nat option \<Rightarrow> nat list option" where
  "expand_ellipsis ip ellipsis =
     (case ellipsis of
        None \<Rightarrow> if length ip = 16 then Some ip else None
      | Some e \<Rightarrow>
          if length ip < 16 then Some (take e ip @ replicate (16 - length ip) 0 @ drop e ip) else None)"

definition parse_ipv6 :: "string \<Rightarrow> nat list option" where
  \<comment> \<open>without a zone; \<open>net.ParseIP\<close> accepts none\<close>
  "parse_ipv6 s =
     (if s = ''::'' then Some (replicate 16 0)
      else (case (if prefix ''::'' s then parse_ipv6_groups 8 (drop 2 s) [] (Some 0)
                  else parse_ipv6_groups 8 s [] None) of
              None \<Rightarrow> None
            | Some (ip, ellipsis) \<Rightarrow> expand_ellipsis ip ellipsis))"

definition v4_in_v6 :: "nat list" where
  "v4_in_v6 = replicate 10 0 @ [255, 255]"

definition ParseIP :: "string \<Rightarrow> nat list option" where
  "ParseIP s =
     (case dropWhile (\<lambda>c. c \<noteq> CHR ''.'' \<and> c \<noteq> CHR '':'' \<and> c \<noteq> CHR ''%'') s of
        [] \<Rightarrow> None
      | c # _ \<Rightarrow>
          if c = CHR ''.'' then map_option (\<lambda>b. v4_in_v6 @ b) (parse_ipv4 s)
          else if c = CHR '':'' then (if CHR ''%'' \<in> set s then None else parse_ipv6 s)
          else None)"

definition To4 :: "nat list \<Rightarrow> bool" where
  \<comment> \<open>whether \<open>ip.To4()\<close> is not nil, for an address of \<open>ParseIP\<close>\<close>
  "To4 ip \<longleftrightarrow> prefix v4_in_v6 ip"

definition pod_ip_name :: "string \<Rightarrow> string" where
  \<comment> \<open>\<open>ipWithDashes\<close>\<close>
  "pod_ip_name podIP =
     (if podIP = [] then []
      else (case ParseIP podIP of
              None \<Rightarrow> []
            | Some ip \<Rightarrow> if To4 ip then ReplaceAll CHR ''.'' CHR ''-'' podIP else ReplaceAll CHR '':'' CHR ''-'' podIP))"

definition certificate_sans :: "(string \<Rightarrow> string) \<Rightarrow> nat list list \<times> string list" where
  "certificate_sans getenv =
     (let podIP = getenv ''POD_IP''; podNamespace = getenv ''POD_NAMESPACE''; serviceName = getenv ''SERVICE_NAME'';
          ips = [[127, 0, 0, 1]]
                @ (if podIP = [] then [] else (case ParseIP podIP of None \<Rightarrow> [] | Some ip \<Rightarrow> [ip]));
          ipWithDashes = pod_ip_name podIP;
          dns1 = [''localhost'']
                @ (if ipWithDashes \<noteq> [] \<and> podNamespace \<noteq> []
                   then [ipWithDashes @ ''.'' @ podNamespace @ ''.pod.cluster.local''] else []);
          dns2 = (if serviceName \<noteq> [] \<and> podNamespace \<noteq> []
                  then [serviceName, serviceName @ ''.'' @ podNamespace, serviceName @ ''.'' @ podNamespace @ ''.svc'',
                        serviceName @ ''.'' @ podNamespace @ ''.svc.cluster.local''] else [])
      in (ips, dns1 @ dns2))"

definition generateSelfSignedCert ::
    "(string \<Rightarrow> nat list list \<Rightarrow> string list \<Rightarrow> go_error + 'pem \<times> 'pem) \<Rightarrow> ('pem \<Rightarrow> 'pem \<Rightarrow> go_error + 'cert) \<Rightarrow>
     (string \<Rightarrow> string) \<Rightarrow> go_error + 'cert" where
  \<comment> \<open>with \<open>certutil.GenerateSelfSignedCertKey\<close> and \<open>tls.X509KeyPair\<close>\<close>
  "generateSelfSignedCert GenerateSelfSignedCertKey X509KeyPair getenv =
     (let (ips, dnsNames) = certificate_sans getenv
      in case GenerateSelfSignedCertKey ''localhost'' ips dnsNames of
           Inl err \<Rightarrow> Inl (WrapError ''failed to generate self-signed certificate: '' err)
         | Inr (cert, key) \<Rightarrow>
             (case X509KeyPair cert key of
                Inl err \<Rightarrow> Inl (WrapError ''failed to create self-signed key pair: '' err)
              | Inr keyPair \<Rightarrow> Inr keyPair))"

section \<open>The driver\<close>

record hostPath =
  hpd_cfg :: Config
  hpd_node :: hostPathNode
  hpd_controller :: hostPathController
  hpd_identity :: hostPathIdentity

fun load_pools :: "StoragePoolInfo list \<Rightarrow> Config \<Rightarrow> Config" where
  "load_pools [] cfg = cfg"
| "load_pools (storagePool # ps) cfg =
     load_pools ps
       (cfg\<lparr>cfg_DefaultStoragePoolName :=
              (if cfg_DefaultStoragePoolName cfg = [] then Name storagePool else cfg_DefaultStoragePoolName cfg),
            cfg_StoragePoolInfo := gomap_put (cfg_StoragePoolInfo cfg) (Name storagePool) storagePool\<rparr>)"

fun make_pool_directories :: "pools \<Rightarrow> os \<Rightarrow> go_error option \<times> os" where
  "make_pool_directories [] w = (None, w)"
| "make_pool_directories ((k, v) # ps) w =
     (case os_MkdirAll (Path v) w of
        (Some err, w') \<Rightarrow>
          (Some (ErrorString (''failed to create dataRoot for storage pool '' @ k @ '': '' @ error_msg err)), w')
      | (None, w') \<Rightarrow> make_pool_directories ps w')"

definition NewHostPathDriver ::
    "(string \<Rightarrow> go_error + StoragePoolInfo list) \<Rightarrow> mounter \<Rightarrow> (pools \<Rightarrow> pools) \<Rightarrow> copier \<Rightarrow> Config \<Rightarrow> string \<Rightarrow> os \<Rightarrow>
     hostPath outcome \<times> os" where
  \<comment> \<open>\<open>unmarshal\<close> decodes the pools, \<open>mounter\<close> is \<open>mount.New("")\<close>, \<open>visit\<close> the order in which \<open>range\<close> visits a map\<close>
  "NewHostPathDriver unmarshal mounter visit cp cfg dataDir w =
     (if cfg_DriverName cfg = [] then (Err (ErrorString ''no driver name provided''), w)
      else if cfg_NodeID cfg = [] then (Err (ErrorString ''no node id provided''), w)
      else if cfg_Endpoint cfg = [] then (Err (ErrorString ''no driver endpoint provided''), w)
      else if cfg_Version cfg = [] then (Err (ErrorString ''no version provided''), w)
      else (let cfg1 = (case cfg_Mounter cfg of None \<Rightarrow> cfg\<lparr>cfg_Mounter := Some mounter\<rparr> | Some _ \<Rightarrow> cfg)
            in case unmarshal dataDir of
                 Inl _ \<Rightarrow> (Err (ErrorString ''unable to parse storage pool info''), w)
               | Inr storagePools \<Rightarrow>
                   (let cfg2 = load_pools storagePools (cfg1\<lparr>cfg_StoragePoolInfo := []\<rparr>)
                    in case make_pool_directories (visit (cfg_StoragePoolInfo cfg2)) w of
                         (Some err, w') \<Rightarrow> (Err err, w')
                       | (None, w') \<Rightarrow>
                           (case NewHostPathController cp cfg2 of
                              Ok controller \<Rightarrow>
                                (Ok \<lparr>hpd_cfg = cfg2, hpd_node = NewHostPathNode cfg2, hpd_controller = controller,
                                     hpd_identity = NewHostPathIdentity cfg2\<rparr>, w')
                            | Err err \<Rightarrow> (Err err, w')
                            | Panic m \<Rightarrow> (Panic m, w')))))"

section \<open>Running the driver\<close>

datatype run_end = Returned | BlocksForever | Exits string

definition driver_Run :: "hostPath \<Rightarrow> go_error option option \<Rightarrow> os \<Rightarrow> run_end \<times> nonBlockingGRPCServer \<times> os" where
  \<comment> \<open>\<open>served\<close> as for \<open>serve\<close>; the end of the call when the goroutine of the server has run as far as it goes\<close>
  "driver_Run hp served w =
     (let s = Start NewNonBlockingGRPCServer
      in case serve (cfg_Endpoint (hpd_cfg hp)) True True True served s w of
           (Ok s', w') \<Rightarrow> (if Wait_returns s' then Returned else BlocksForever, s', w')
         | (Err err, w') \<Rightarrow> (Exits (error_msg err), s, w')
         | (Panic m, w') \<Rightarrow> (Exits m, s, w'))"

definition SetPoolPathSharedWithOs :: "int \<Rightarrow> int \<Rightarrow> int" where
  \<comment> \<open>the new value of the gauge\<close>
  "SetPoolPathSharedWithOs val gauge = val"

definition GetPoolPathSharedWithOs :: "int \<Rightarrow> int" where
  "GetPoolPathSharedWithOs gauge = gauge"

fun watch_pools :: "decoder \<Rightarrow> pools \<Rightarrow> os list \<Rightarrow> int \<Rightarrow> int" where
  \<comment> \<open>the goroutine that evaluates the metric at once and after every minute, on the states it finds\<close>
  "watch_pools decode ps [] gauge = gauge"
| "watch_pools decode ps (w # ws) gauge =
     watch_pools decode ps ws (SetPoolPathSharedWithOs (evaluateSharedPathMetric decode ps w) gauge)"

record plugin_flags =
  pf_endpoint :: string
  pf_drivername :: string
  pf_datadir :: string
  pf_nodeid :: string
  pf_version :: string
  pf_metrics_cert_file :: string
  pf_metrics_key_file :: string
  pf_metrics_tls_version :: string

definition plugin_main ::
    "(string \<Rightarrow> go_error + StoragePoolInfo list) \<Rightarrow> mounter \<Rightarrow> (pools \<Rightarrow> pools) \<Rightarrow> copier \<Rightarrow> (go_error + 'cert) \<Rightarrow>
     plugin_flags \<Rightarrow> go_error option option \<Rightarrow> os \<Rightarrow> 'cert metrics_server option \<times> run_end \<times> os" where
  \<comment> \<open>the flags after \<open>flag.Parse\<close>; \<open>generated\<close> is the result of \<open>generateSelfSignedCert()\<close>\<close>
  "plugin_main unmarshal mounter visit cp generated flags served w =
     (let cfg = \<lparr>cfg_DriverName = pf_drivername flags, cfg_Endpoint = pf_endpoint flags, cfg_NodeID = pf_nodeid flags,
                 cfg_StoragePoolInfo = [], cfg_DefaultStoragePoolName = [], cfg_Version = pf_version flags, cfg_Mounter = None\<rparr>;
          ms = RunPrometheusServer generated '':8443'' (pf_metrics_cert_file flags) (pf_metrics_key_file flags)
                 (pf_metrics_tls_version flags)
      in case NewHostPathDriver unmarshal mounter visit cp cfg (pf_datadir flags) w of
           (Err err, w') \<Rightarrow> (ms, Exits (''Failed to initialize driver: '' @ error_msg err), w')
         | (Panic m, w') \<Rightarrow> (ms, Exits m, w')
         | (Ok hp, w') \<Rightarrow> (case driver_Run hp served w' of (r, s, w'') \<Rightarrow> (ms, r, w'')))"

end
