(* ===== verification/Driver_Properties.thy ===== *)
theory Driver_Properties
  imports Driver Volume_Properties
begin

text \<open>
  What a started driver can rely on, and what the server does with its endpoint: a driver that comes
  up has a directory for every storage pool and three services with one configuration; an endpoint
  is a Unix socket whatever its scheme, and only with \<open>unix\<close> in lower case is a stale socket replaced.
\<close>

section \<open>Starting the driver\<close>

lemma load_pools_facts:
  "cfg_Mounter (load_pools ps cfg) = cfg_Mounter cfg" "cfg_DriverName (load_pools ps cfg) = cfg_DriverName cfg"
  "cfg_NodeID (load_pools ps cfg) = cfg_NodeID cfg" "cfg_Version (load_pools ps cfg) = cfg_Version cfg"
  "cfg_Endpoint (load_pools ps cfg) = cfg_Endpoint cfg"
  by (induction ps arbitrary: cfg) simp_all

lemma load_pools_default:
  assumes "cfg_DefaultStoragePoolName cfg \<noteq> []"
  shows "cfg_DefaultStoragePoolName (load_pools ps cfg) = cfg_DefaultStoragePoolName cfg"
  using assms by (induction ps arbitrary: cfg) simp_all

lemma load_pools_get:
  "map_of (cfg_StoragePoolInfo (load_pools ps cfg)) k =
     (case filter (\<lambda>p. Name p = k) (rev ps) of p # _ \<Rightarrow> Some p | [] \<Rightarrow> map_of (cfg_StoragePoolInfo cfg) k)"
proof (induction ps arbitrary: cfg)
  case (Cons p ps)
  show ?case
    by (simp only: load_pools.simps Cons.IH) (auto simp: go_maps split: list.splits)
qed simp

lemma gomap_put_values: "v' \<in> snd ` set (gomap_put m k v) \<Longrightarrow> v' = v \<or> v' \<in> snd ` set m"
  by (induction m k v rule: gomap_put.induct) (auto split: if_splits)

lemma load_pools_values:
  "v \<in> snd ` set (cfg_StoragePoolInfo (load_pools ps cfg)) \<Longrightarrow> v \<in> set ps \<or> v \<in> snd ` set (cfg_StoragePoolInfo cfg)"
proof (induction ps arbitrary: cfg)
  case (Cons p ps)
  from Cons.IH [OF Cons.prems [unfolded load_pools.simps]] show ?case
    using gomap_put_values [of v "cfg_StoragePoolInfo cfg" "Name p" p] by auto
qed simp

lemma make_pool_directories_facts:
  assumes "make_pool_directories ps w = (r, w')"
  shows "lookup w q = Some n \<Longrightarrow> lookup w' q = Some n"
    and "lookup w q = None \<Longrightarrow> lookup w' q = Some n \<Longrightarrow> n = Directory \<and> (\<exists>v \<in> snd ` set ps. prefix q (path_key (Path v)))"
    and "r = None \<Longrightarrow> v \<in> snd ` set ps \<Longrightarrow> lookup w' (path_key (Path v)) = Some Directory"
proof -
  have "(\<forall>q n. lookup w q = Some n \<longrightarrow> lookup w' q = Some n) \<and>
    (\<forall>q n. lookup w q = None \<longrightarrow> lookup w' q = Some n \<longrightarrow> n = Directory \<and> (\<exists>v \<in> snd ` set ps. prefix q (path_key (Path v)))) \<and>
    (r = None \<longrightarrow> (\<forall>v \<in> snd ` set ps. lookup w' (path_key (Path v)) = Some Directory))"
    using assms
  proof (induction ps w rule: make_pool_directories.induct)
    case (2 k v ps w)
    obtain e w1 where mk: "os_MkdirAll (Path v) w = (e, w1)" by fastforce
    have keep: "lookup w1 q = Some n" if "lookup w q = Some n" for q n using os_MkdirAll_keeps [OF mk that] .
    have new: "n = Directory \<and> prefix q (path_key (Path v))" if "lookup w q = None" "lookup w1 q = Some n" for q n
      using os_MkdirAll_new [OF mk that] .
    show ?case
    proof (cases e)
      case (Some err)
      then have "w' = w1" "r \<noteq> None" using 2(2) mk by auto
      then show ?thesis using keep new by auto
    next
      case None
      then have run: "make_pool_directories ps w1 = (r, w')" using 2(2) mk by simp
      note ih = "2.IH" [OF mk [symmetric] None run]
      have "lookup w1 (path_key (Path v)) = Some Directory" using os_MkdirAll_ok mk None by simp
      moreover have "n = Directory \<and> (\<exists>x \<in> snd ` set ((k, v) # ps). prefix q (path_key (Path x)))"
        if q: "lookup w q = None" "lookup w' q = Some n" for q n
      proof (cases "lookup w1 q")
        case None
        then show ?thesis using ih q(2) by auto
      next
        case (Some m)
        then show ?thesis using new [OF q(1) Some] ih q(2) by auto
      qed
      ultimately show ?thesis using ih keep by auto
    qed
  qed simp
  then show "lookup w q = Some n \<Longrightarrow> lookup w' q = Some n"
    "lookup w q = None \<Longrightarrow> lookup w' q = Some n \<Longrightarrow> n = Directory \<and> (\<exists>v \<in> snd ` set ps. prefix q (path_key (Path v)))"
    "r = None \<Longrightarrow> v \<in> snd ` set ps \<Longrightarrow> lookup w' (path_key (Path v)) = Some Directory" by blast+
qed

lemma NewHostPathDriver_Ok:
  assumes "NewHostPathDriver unmarshal mounter visit cp cfg dataDir w = (Ok hp, w')"
  obtains pools where "unmarshal dataDir = Inr pools" "cfg_DriverName cfg \<noteq> []" "cfg_Version cfg \<noteq> []" "cfg_NodeID cfg \<noteq> []"
    and "hpd_cfg hp = load_pools pools ((case cfg_Mounter cfg of None \<Rightarrow> cfg\<lparr>cfg_Mounter := Some mounter\<rparr> | Some _ \<Rightarrow> cfg)
           \<lparr>cfg_StoragePoolInfo := []\<rparr>)"
    and "make_pool_directories (visit (cfg_StoragePoolInfo (hpd_cfg hp))) w = (None, w')"
    and "NewHostPathController cp (hpd_cfg hp) = Ok (hpd_controller hp)"
    and "hpd_node hp = NewHostPathNode (hpd_cfg hp)" "hpd_identity hp = NewHostPathIdentity (hpd_cfg hp)"
  using assms
  by (auto simp: NewHostPathDriver_def Let_def split: if_splits sum.splits prod.splits option.splits outcome.splits)

text \<open>C39: A driver that is constructed is ready to serve, in whatever order its map of storage pools is
  visited: the directory of every pool exists, everything that was on the node is still there and what
  is new are directories on the way to a pool; a pool listed twice has its last entry, the default
  pool is the first one listed; the three services share one configuration that has a mounter, and the
  identity service can name the plugin.\<close>
theorem new_driver_ready:
  assumes "\<And>ps. set (visit ps) = set ps" "cfg_DefaultStoragePoolName cfg = []"
    and "NewHostPathDriver unmarshal mounter visit cp cfg dataDir w = (Ok hp, w')"
  shows "\<exists>pools. unmarshal dataDir = Inr pools \<and>
    (\<forall>p \<in> set pools. \<exists>info. map_of (cfg_StoragePoolInfo (hpd_cfg hp)) (Name p) = Some info \<and>
       Name info = Name p \<and> lookup w' (path_key (Path info)) = Some Directory) \<and>
    (\<forall>q n. lookup w q = Some n \<longrightarrow> lookup w' q = Some n) \<and>
    (\<forall>q n. lookup w q = None \<and> lookup w' q = Some n \<longrightarrow> n = Directory \<and> (\<exists>p \<in> set pools. prefix q (path_key (Path p)))) \<and>
    (pools \<noteq> [] \<longrightarrow> Name (hd pools) \<noteq> [] \<longrightarrow> cfg_DefaultStoragePoolName (hpd_cfg hp) = Name (hd pools)) \<and>
    hpn_cfg (hpd_node hp) = hpd_cfg hp \<and> hpc_cfg (hpd_controller hp) = hpd_cfg hp \<and> cfg_Mounter (hpd_cfg hp) \<noteq> None \<and>
    GetPluginInfo (hpd_identity hp) = Ok \<lparr>gpi_Name = cfg_DriverName cfg, gpi_VendorVersion = cfg_Version cfg\<rparr>"
proof -
  obtain pools where d: "unmarshal dataDir = Inr pools" "cfg_DriverName cfg \<noteq> []" "cfg_Version cfg \<noteq> []"
    and cfg: "hpd_cfg hp = load_pools pools ((case cfg_Mounter cfg of None \<Rightarrow> cfg\<lparr>cfg_Mounter := Some mounter\<rparr> | Some _ \<Rightarrow> cfg)
           \<lparr>cfg_StoragePoolInfo := []\<rparr>)"
    and mk: "make_pool_directories (visit (cfg_StoragePoolInfo (hpd_cfg hp))) w = (None, w')"
    and ctl: "NewHostPathController cp (hpd_cfg hp) = Ok (hpd_controller hp)"
    and svc: "hpd_node hp = NewHostPathNode (hpd_cfg hp)" "hpd_identity hp = NewHostPathIdentity (hpd_cfg hp)"
    using assms(3) by (rule NewHostPathDriver_Ok)
  let ?ps = "cfg_StoragePoolInfo (hpd_cfg hp)"
  note dirs = make_pool_directories_facts [OF mk, unfolded assms(1)]
  have get: "map_of ?ps k = (case filter (\<lambda>p. Name p = k) (rev pools) of p # _ \<Rightarrow> Some p | [] \<Rightarrow> None)" for k
    unfolding cfg load_pools_get by (simp split: list.splits)
  have member: "v \<in> set pools" if "v \<in> snd ` set ?ps" for v
    using load_pools_values [OF that [unfolded cfg]] by simp
  have last: "\<exists>info. map_of ?ps (Name p) = Some info \<and> Name info = Name p \<and> lookup w' (path_key (Path info)) = Some Directory"
    if "p \<in> set pools" for p
  proof -
    have "p \<in> set (filter (\<lambda>q. Name q = Name p) (rev pools))" using that by simp
    then obtain info rest where f: "filter (\<lambda>q. Name q = Name p) (rev pools) = info # rest" by (cases "filter (\<lambda>q. Name q = Name p) (rev pools)") auto
    then have m: "map_of ?ps (Name p) = Some info" using get by simp
    have "info \<in> set (filter (\<lambda>q. Name q = Name p) (rev pools))" using f by simp
    moreover have "info \<in> snd ` set ?ps" using map_of_SomeD [OF m] by force
    ultimately show ?thesis using m dirs(3) by auto
  qed
  have default: "cfg_DefaultStoragePoolName (hpd_cfg hp) = Name (hd pools)" if "pools \<noteq> []" "Name (hd pools) \<noteq> []"
    using that assms(2) unfolding cfg by (cases pools) (simp_all add: load_pools_default split: option.splits)
  have mounter: "cfg_Mounter (hpd_cfg hp) \<noteq> None" unfolding cfg by (simp add: load_pools_facts split: option.splits)
  have info: "GetPluginInfo (hpd_identity hp) = Ok \<lparr>gpi_Name = cfg_DriverName cfg, gpi_VendorVersion = cfg_Version cfg\<rparr>"
    unfolding svc cfg using d(2,3) by (simp add: GetPluginInfo_def NewHostPathIdentity_def load_pools_facts split: option.splits)
  have controller: "hpc_cfg (hpd_controller hp) = hpd_cfg hp"
    using ctl by (cases "hpd_controller hp") (auto simp: NewHostPathController_def split: outcome.splits)
  have new: "n = Directory \<and> (\<exists>p \<in> set pools. prefix q (path_key (Path p)))" if "lookup w q = None \<and> lookup w' q = Some n" for q n
  proof -
    from dirs(2) [OF conjunct1 [OF that] conjunct2 [OF that]] obtain v
      where "n = Directory" and v: "v \<in> snd ` set ?ps" "prefix q (path_key (Path v))" by blast
    then show ?thesis using member [OF v(1)] by blast
  qed
  show ?thesis
    by (intro exI [of _ pools] conjI allI ballI impI d(1) last dirs(1) controller mounter info default)
      (use new svc(1) in \<open>simp_all add: NewHostPathNode_def\<close>)
qed

definition demo_flags :: Config where
  "demo_flags = demo_cfg\<lparr>cfg_DefaultStoragePoolName := [], cfg_Mounter := None\<rparr>"

theorem new_driver_ready_witness:
  "\<exists>hp w'. NewHostPathDriver (\<lambda>_. Inr [demo_info ''p1'' ''/a'', demo_info ''p2'' ''/c/d'']) FakeMounter rev cp_rp demo_flags ''x''
      (demo_os demo_fs) = (Ok hp, w') \<and> lookup w' [''c'', ''d''] = Some Directory \<and> cfg_DefaultStoragePoolName (hpd_cfg hp) = ''p1''"
proof -
  let ?pools = "[demo_info ''p1'' ''/a'', demo_info ''p2'' ''/c/d'']"
  let ?run = "NewHostPathDriver (\<lambda>_. Inr ?pools) FakeMounter rev cp_rp demo_flags ''x'' (demo_os demo_fs)"
  have "is_ok (fst ?run)" by code_simp
  then obtain hp w' where run: "?run = (Ok hp, w')" by (rule run_ok)
  have key: "path_key ''/c/d'' = [''c'', ''d'']" by code_simp
  have cfg: "cfg_DefaultStoragePoolName demo_flags = []" by (simp add: demo_flags_def)
  from new_driver_ready [OF set_rev cfg run] have "cfg_DefaultStoragePoolName (hpd_cfg hp) = ''p1''"
    and "\<exists>info. map_of (cfg_StoragePoolInfo (hpd_cfg hp)) ''p2'' = Some info \<and> lookup w' (path_key (Path info)) = Some Directory"
    by (auto simp: demo_info_def)
  moreover have "map_of (cfg_StoragePoolInfo (hpd_cfg hp)) ''p2'' = Some (demo_info ''p2'' ''/c/d'')"
    using run by (rule NewHostPathDriver_Ok) (simp add: load_pools_get demo_info_def)
  ultimately show ?thesis using run key by (auto simp: demo_info_def)
qed

section \<open>Endpoints\<close>

lemma net_Listen_unix_facts:
  assumes "net_Listen_unix addr w = (r, w')" "addr = [] \<or> hd addr \<noteq> CHR ''@''"
  shows "lookup w (path_key addr) \<noteq> None \<Longrightarrow> r \<noteq> None \<and> w' = w"
    and "r = None \<Longrightarrow> lookup w' (path_key addr) = Some (RegularFile []) \<and> lookup w (path_key addr) = None"
    and "q \<noteq> path_key addr \<Longrightarrow> lookup w' q = lookup w q"
  using assms
  by (auto simp: net_Listen_unix_def Let_def fs_lookup_def map_add_def split: if_splits option.splits)

lemma fs_lookup_filter: "fs_lookup (filter (\<lambda>(p, _). p \<noteq> k) f) q = (if q = k \<and> k \<noteq> [] then None else fs_lookup f q)"
proof -
  have "map_of (filter (\<lambda>(p, _). p \<noteq> k) f) q = (if q = k then None else map_of f q)" by (induction f) auto
  then show ?thesis by (auto simp: fs_lookup_def)
qed

lemma blocked_filter: "blocked (filter (\<lambda>(p, _). p \<noteq> k) f) k = blocked f k"
  by (auto simp: blocked_def list_ex_iff fs_lookup_filter)

lemma os_Remove_facts:
  assumes "os_Remove s w = (r, w')"
  shows "q \<noteq> path_key s \<Longrightarrow> lookup w' q = lookup w q" "r = None \<Longrightarrow> lookup w' (path_key s) = None"
    and "r = Some e \<Longrightarrow> w' = w"
  using assms by (auto simp: os_Remove_def Let_def fs_lookup_filter split: if_splits option.splits)

lemma path_key_slash [simp]: "path_key (CHR ''/'' # s) = path_key s"
  by (simp add: path_key_def clean_comps_def)

lemma listen_unix:
  assumes "parse ep = Inr (''unix'', addr)" "listen ep w = (r, w')"
  obtains (refused) e where "r = Inl e"
  | (bound) x u where "os_Remove (''/'' @ addr) w = (x, u)" "net_Listen_unix (''/'' @ addr) u = (None, w')"
      "r = Inr \<lparr>gl_addr = ''/'' @ addr, gl_cleanup = Some (''/'' @ addr)\<rparr>"
  using assms by (auto simp: listen_def Let_def split: prod.splits option.splits if_splits)

lemma listen_unix_stale:
  assumes "parse ep = Inr (''unix'', addr)" "length addr < 107" "fs_wf (os_fs w)"
    and "lookup w (path_key addr) = Some (RegularFile c)" "os_fault w SysUnlink (path_key addr) = None"
    and "\<not> blocked (os_fs w) (path_key addr)"
  shows "\<exists>l. fst (listen ep w) = Inr l"
proof -
  let ?k = "path_key addr" and ?u = "w\<lparr>os_fs := filter (\<lambda>(p, _). p \<noteq> path_key addr) (os_fs w)\<rparr>"
  have k: "?k \<noteq> []" using assms(4) by (auto simp: fs_lookup_def)
  have "?k \<in> fst ` set (os_fs w)" using assms(4) k by (force simp: fs_lookup_def dest: map_of_SomeD)
  then have parent: "lookup w (butlast ?k) = Some Directory" using assms(3) by (auto simp: fs_wf_def)
  have rem: "os_Remove (''/'' @ addr) w = (None, ?u)"
    using assms(4-6) k by (simp add: os_Remove_def Let_def)
  have "butlast ?k \<noteq> ?k" using k by (metis length_butlast length_greater_0_conv less_not_refl diff_less less_numeral_extra(1))
  then have "fst (net_Listen_unix (''/'' @ addr) ?u) = None"
    using assms(2,6) k parent by (simp add: net_Listen_unix_def Let_def fs_lookup_filter blocked_filter)
  then show ?thesis using assms(1) rem by (cases "net_Listen_unix (''/'' @ addr) ?u") (simp add: listen_def)
qed

lemma close_listener_lookup:
  assumes "lookup w (path_key addr) = Some (RegularFile c)" "addr = [] \<or> hd addr \<noteq> CHR ''@''" "os_fault w SysUnlink (path_key addr) = None"
  shows "lookup (close_listener addr w) = (lookup w)(path_key addr := None)"
proof -
  have "path_key addr \<noteq> []" using assms(1) by (auto simp: fs_lookup_def)
  then show ?thesis using assms by (auto simp: close_listener_def Let_def fs_lookup_filter)
qed

text \<open>What a listener is, for every scheme: a new socket file, which goes away when the listener is closed.\<close>

lemma listen_facts:
  assumes "parse ep = Inr (proto, addr)" "hd addr \<noteq> CHR ''@''" "listen ep w = (Inr l, w')"
  shows "path_key (gl_addr l) = path_key addr" "hd (gl_addr l) \<noteq> CHR ''@''" "os_fault w' = os_fault w"
    and "gl_cleanup l = (if proto = ''unix'' then Some (''/'' @ addr) else None)"
    and "lookup w' (path_key addr) = Some (RegularFile [])" "q \<noteq> path_key addr \<Longrightarrow> lookup w' q = lookup w q"
proof -
  have env: "os_fault u' = os_fault u" if "net_Listen_unix a u = (x, u')" for a u x u'
    using that by (auto simp: net_Listen_unix_def Let_def split: if_splits)
  have renv: "os_fault u' = os_fault u" if "os_Remove a u = (x, u')" for a u x u'
    using that by (auto simp: os_Remove_def Let_def split: if_splits option.splits)
  have "path_key (gl_addr l) = path_key addr \<and> hd (gl_addr l) \<noteq> CHR ''@'' \<and> os_fault w' = os_fault w \<and>
    gl_cleanup l = (if proto = ''unix'' then Some (''/'' @ addr) else None) \<and>
    lookup w' (path_key addr) = Some (RegularFile []) \<and> (\<forall>q. q \<noteq> path_key addr \<longrightarrow> lookup w' q = lookup w q)"
  proof (cases "proto = ''unix''")
    case True
    then have p: "parse ep = Inr (''unix'', addr)" using assms(1) by simp
    from p assms(3) show ?thesis
    proof (cases rule: listen_unix)
      case (bound x u)
      have "hd (''/'' @ addr) \<noteq> CHR ''@''" by simp
      note f = net_Listen_unix_facts [OF bound(2) disjI2 [OF this]]
      show ?thesis
        using f(2,3) os_Remove_facts(1) [OF bound(1)] bound(3) True env [OF bound(2)] renv [OF bound(1)] by auto
    qed simp
  next
    case False
    then have bind: "net_Listen_unix addr w = (None, w')" "l = \<lparr>gl_addr = addr, gl_cleanup = None\<rparr>"
      using assms(1,3) by (auto simp: listen_def split: prod.splits option.splits)
    note f = net_Listen_unix_facts [OF bind(1) disjI2 [OF assms(2)]]
    show ?thesis using f(2,3) bind False assms(2) env [OF bind(1)] by simp
  qed
  then show "path_key (gl_addr l) = path_key addr" "hd (gl_addr l) \<noteq> CHR ''@''" "os_fault w' = os_fault w"
    "gl_cleanup l = (if proto = ''unix'' then Some (''/'' @ addr) else None)"
    "lookup w' (path_key addr) = Some (RegularFile [])" "q \<noteq> path_key addr \<Longrightarrow> lookup w' q = lookup w q" by blast+
qed

lemma Stop_removes:
  assumes "parse ep = Inr (proto, addr)" "hd addr \<noteq> CHR ''@''" "listen ep w = (Inr l, w')"
    and "os_fault w SysUnlink (path_key addr) = None"
  shows "lookup (close_listener (gl_addr l) w') = (lookup w')(path_key addr := None)"
    and "gs_server s \<noteq> None \<Longrightarrow> gs_listener s = Some (gl_addr l) \<Longrightarrow> gs_cleanup s = gl_cleanup l \<Longrightarrow>
      lookup (snd (Stop s w')) = (lookup w')(path_key addr := None)"
proof -
  note f = listen_facts [OF assms(1-3)]
  show close: "lookup (close_listener (gl_addr l) w') = (lookup w')(path_key addr := None)"
    using close_listener_lookup [of w' "gl_addr l" "[]"] f(1-3,5) assms(4) by simp
  have "lookup (snd (os_Remove (''/'' @ addr) u)) = lookup u" if "lookup u (path_key addr) = None" for u
    using that by (auto simp: os_Remove_def Let_def split: option.splits)
  then show "lookup (snd (Stop s w')) = (lookup w')(path_key addr := None)"
    if "gs_server s \<noteq> None" "gs_listener s = Some (gl_addr l)" "gs_cleanup s = gl_cleanup l"
    using that close f(4) by (auto simp: Stop_def Let_def split: option.splits)
qed

text \<open>C40: What becomes of the endpoint of the driver (an address that is not an abstract one). Whatever its
  scheme, a server that comes up has made a Unix socket in the file named by the address and changed
  no other file; when the server is stopped, or its \<open>Serve\<close> ends, that file is removed, unless the
  kernel refuses to. A socket file that is still there at the start, as after a driver that was killed,
  does not keep a server from coming up when the scheme is \<open>unix\<close> in lower case or missing (and the file
  can be removed and the path is short enough). With any other scheme that is accepted, \<open>tcp\<close> or
  \<open>unix\<close> in upper case, the server cannot listen and the process of the driver ends.\<close>
theorem endpoint_listen:
  assumes "parse ep = Inr (proto, addr)" "hd addr \<noteq> CHR ''@''" "listen ep w = (r, w')"
  shows "(\<forall>l. r = Inr l \<longrightarrow>
      lookup w' (path_key addr) = Some (RegularFile []) \<and> (\<forall>q. q \<noteq> path_key addr \<longrightarrow> lookup w' q = lookup w q) \<and>
      (os_fault w SysUnlink (path_key addr) = None \<longrightarrow>
        (\<forall>ids cs ns s s1 w1. serve ep ids cs ns None s w = (Ok s1, w1) \<longrightarrow>
           w1 = w' \<and> lookup (snd (Stop s1 w1)) = (lookup w')(path_key addr := None)) \<and>
        (\<forall>ids cs ns e s s1 w1. serve ep ids cs ns (Some e) s w = (Ok s1, w1) \<longrightarrow>
           lookup w1 = (lookup w')(path_key addr := None)))) \<and>
    (proto = ''unix'' \<and> fs_wf (os_fs w) \<and> length addr < 107 \<and> lookup w (path_key addr) = Some (RegularFile c) \<and>
       os_fault w SysUnlink (path_key addr) = None \<and> \<not> blocked (os_fs w) (path_key addr) \<longrightarrow> (\<exists>l. r = Inr l)) \<and>
    (proto \<noteq> ''unix'' \<and> lookup w (path_key addr) \<noteq> None \<longrightarrow>
       (\<exists>e. r = Inl e) \<and> (\<forall>hp served. cfg_Endpoint (hpd_cfg hp) = ep \<longrightarrow> (\<exists>m. fst (driver_Run hp served w) = Exits m)))"
proof (intro conjI)
  show "\<forall>l. r = Inr l \<longrightarrow>
      lookup w' (path_key addr) = Some (RegularFile []) \<and> (\<forall>q. q \<noteq> path_key addr \<longrightarrow> lookup w' q = lookup w q) \<and>
      (os_fault w SysUnlink (path_key addr) = None \<longrightarrow>
        (\<forall>ids cs ns s s1 w1. serve ep ids cs ns None s w = (Ok s1, w1) \<longrightarrow>
           w1 = w' \<and> lookup (snd (Stop s1 w1)) = (lookup w')(path_key addr := None)) \<and>
        (\<forall>ids cs ns e s s1 w1. serve ep ids cs ns (Some e) s w = (Ok s1, w1) \<longrightarrow>
           lookup w1 = (lookup w')(path_key addr := None)))"
  proof (intro allI impI conjI)
    fix l assume "r = Inr l"
    then have run: "listen ep w = (Inr l, w')" using assms(3) by simp
    note f = listen_facts [OF assms(1,2) run]
    show "lookup w' (path_key addr) = Some (RegularFile [])" by (fact f(5))
    show "lookup w' q = lookup w q" if "q \<noteq> path_key addr" for q using f(6) [OF that] .
    fix ids cs ns e s s1 w1
    assume no: "os_fault w SysUnlink (path_key addr) = None"
    note gone = Stop_removes [OF assms(1,2) run no]
    show "w1 = w'" "lookup (snd (Stop s1 w1)) = (lookup w')(path_key addr := None)" if "serve ep ids cs ns None s w = (Ok s1, w1)"
      using that run gone(2) [of s1] by (auto simp: serve_def Let_def)
    show "lookup w1 = (lookup w')(path_key addr := None)" if "serve ep ids cs ns (Some e) s w = (Ok s1, w1)"
      using that run gone(1) by (auto simp: serve_def Let_def)
  qed
  show "proto = ''unix'' \<and> fs_wf (os_fs w) \<and> length addr < 107 \<and> lookup w (path_key addr) = Some (RegularFile c) \<and>
       os_fault w SysUnlink (path_key addr) = None \<and> \<not> blocked (os_fs w) (path_key addr) \<longrightarrow> (\<exists>l. r = Inr l)"
    using listen_unix_stale [of ep addr w c] assms(1,3) by auto
  show "proto \<noteq> ''unix'' \<and> lookup w (path_key addr) \<noteq> None \<longrightarrow>
       (\<exists>e. r = Inl e) \<and> (\<forall>hp served. cfg_Endpoint (hpd_cfg hp) = ep \<longrightarrow> (\<exists>m. fst (driver_Run hp served w) = Exits m))"
  proof (intro impI)
    assume a: "proto \<noteq> ''unix'' \<and> lookup w (path_key addr) \<noteq> None"
    obtain x v where bind: "net_Listen_unix addr w = (x, v)" by fastforce
    obtain e where "x = Some e" using net_Listen_unix_facts(1) [OF bind disjI2 [OF assms(2)]] a by auto
    then have run: "listen ep w = (Inl e, v)" using assms(1) a bind by (simp add: listen_def)
    then show "(\<exists>e. r = Inl e) \<and> (\<forall>hp served. cfg_Endpoint (hpd_cfg hp) = ep \<longrightarrow> (\<exists>m. fst (driver_Run hp served w) = Exits m))"
      using assms(3) by (simp add: driver_Run_def serve_def)
  qed
qed

theorem endpoint_listen_witness:
  "(\<exists>e. fst (listen ''UNIX://a/f'' (demo_os [([''a''], Directory), ([''a'', ''f''], RegularFile [])])) = Inl e) \<and>
   (\<exists>l. fst (listen ''unix://a/f'' (demo_os [([''a''], Directory), ([''a'', ''f''], RegularFile [])])) = Inr l)"
proof -
  let ?w = "demo_os [([''a''], Directory), ([''a'', ''f''], RegularFile [])]"
  obtain r w' where run: "listen ''UNIX://a/f'' ?w = (r, w')" by fastforce
  obtain r2 w2 where run2: "listen ''unix://a/f'' ?w = (r2, w2)" by fastforce
  have p: "parse ''UNIX://a/f'' = Inr (''UNIX'', ''a/f'')" "parse ''unix://a/f'' = Inr (''unix'', ''a/f'')" by code_simp+
  have l: "lookup ?w (path_key ''a/f'') = Some (RegularFile [])" "fs_wf (os_fs ?w)" "\<not> blocked (os_fs ?w) (path_key ''a/f'')"
    "os_fault ?w SysUnlink (path_key ''a/f'') = None" by code_simp+
  have "\<exists>e. r = Inl e" using endpoint_listen [OF p(1) _ run] l by simp
  moreover have "\<exists>x. r2 = Inr x" using endpoint_listen [OF p(2) _ run2, of "[]"] l by simp
  ultimately show ?thesis using run run2 by simp
qed

text \<open>The counter of the wait group is never decreased: the driver does not return when its server ends.\<close>

lemma driver_Run_never_returns: "fst (driver_Run hp served w) \<noteq> Returned"
  by (cases served)
     (auto simp: driver_Run_def serve_def Start_def NewNonBlockingGRPCServer_def Wait_returns_def Let_def split: prod.splits sum.splits)

end
