(* ===== verification/Kube_Objects.thy ===== *)
theory Kube_Objects
  imports OS_Files
begin

text \<open>
  The Kubernetes objects that the provision controller handles (\<open>vendor/k8s.io/api/core/v1\<close>,
  \<open>vendor/k8s.io/api/storage/v1\<close> and \<open>v1beta1\<close>), the comparison of server versions
  (\<open>vendor/k8s.io/apimachinery/pkg/util/version\<close>), and the client of the API server: a record of
  functions on the state of the world, with the documented behaviour of the server as the contract
  \<open>kube_api\<close> and the object tracker of \<open>vendor/k8s.io/client-go/testing\<close> as an instance.
\<close>

section \<open>Objects\<close>

type_synonym annotations = "(string, string) gomap"

type_synonym Quantity = int  \<comment> \<open>in units of 1e-9, the finest scale of \<open>resource.Quantity\<close>\<close>

definition NewQuantity :: "int \<Rightarrow> Quantity" where
  "NewQuantity v = v * 1000000000"

datatype VolumeMode = PersistentVolumeBlock | PersistentVolumeFilesystem
datatype VolumeBindingMode = VolumeBindingImmediate | VolumeBindingWaitForFirstConsumer
datatype VolumePhase = VolumePending | VolumeAvailable | VolumeBound | VolumeReleased | VolumeFailed
datatype ReclaimPolicy = ReclaimRecycle | ReclaimDelete | ReclaimRetain
datatype AccessMode = ReadWriteOnce | ReadOnlyMany | ReadWriteMany | ReadWriteOncePod

record ObjectReference =
  or_Kind :: string
  or_APIVersion :: string
  or_Name :: string
  or_Namespace :: string
  or_UID :: string
  or_ResourceVersion :: string

record PersistentVolumeClaim =
  pvc_Kind :: string
  pvc_APIVersion :: string
  pvc_Name :: string
  pvc_Namespace :: string
  pvc_UID :: string
  pvc_ResourceVersion :: string
  pvc_Annotations :: annotations
  pvc_VolumeName :: string
  pvc_StorageClassName :: "string option"
  pvc_VolumeMode :: "VolumeMode option"
  pvc_Requests :: "(string, Quantity) gomap"

record NodeSelectorRequirement =
  nsr_Key :: string
  nsr_OpIn :: bool
  nsr_Values :: "string list"

record PersistentVolume =
  vol_Name :: string
  vol_Annotations :: annotations
  vol_Finalizers :: "string list"
  vol_DeletionTimestamp :: "int option"
  vol_Phase :: VolumePhase
  vol_ReclaimPolicy :: ReclaimPolicy
  vol_AccessModes :: "AccessMode list"
  vol_Capacity :: "(string, Quantity) gomap"
  vol_HostPath :: "string option"
  vol_NodeAffinity :: "NodeSelectorRequirement list list"
  vol_ClaimRef :: "ObjectReference option"
  vol_StorageClassName :: string

record StorageClass =
  sc_Name :: string
  sc_Provisioner :: string
  sc_Parameters :: "(string, string) gomap"
  sc_ReclaimPolicy :: "ReclaimPolicy option"
  sc_MountOptions :: "string list"
  sc_AllowVolumeExpansion :: "bool option"
  sc_VolumeBindingMode :: "VolumeBindingMode option"
  sc_AllowedTopologies :: "(string \<times> string list) list"

record StorageClassBeta =
  scb_Name :: string
  scb_Provisioner :: string
  scb_Parameters :: "(string, string) gomap"
  scb_ReclaimPolicy :: "ReclaimPolicy option"
  scb_MountOptions :: "string list"
  scb_AllowVolumeExpansion :: "bool option"
  scb_VolumeBindingMode :: "VolumeBindingMode option"
  scb_AllowedTopologies :: "(string \<times> string list) list"

datatype class_object = ClassV1 StorageClass | ClassV1beta1 StorageClassBeta | ClassOther string

definition BetaStorageClassAnnotation :: string where
  "BetaStorageClassAnnotation = ''volume.beta.kubernetes.io/storage-class''"

definition ResourceStorage :: string where "ResourceStorage = ''storage''"

definition GetPersistentVolumeClaimClass :: "PersistentVolumeClaim \<Rightarrow> string" where
  "GetPersistentVolumeClaimClass claim =
     (case map_of (pvc_Annotations claim) BetaStorageClassAnnotation of
        Some class' \<Rightarrow> class'
      | None \<Rightarrow> (case pvc_StorageClassName claim of Some n \<Rightarrow> n | None \<Rightarrow> []))"

definition CheckPersistentVolumeClaimModeBlock :: "PersistentVolumeClaim \<Rightarrow> bool" where
  "CheckPersistentVolumeClaimModeBlock claim \<longleftrightarrow> pvc_VolumeMode claim = Some PersistentVolumeBlock"

definition GetReference :: "go_error + string \<times> string \<Rightarrow> PersistentVolumeClaim \<Rightarrow> go_error + ObjectReference" where
  \<comment> \<open>\<open>scheme\<close>: what the scheme says of a claim (kind and version), for claims without a kind\<close>
  "GetReference scheme claim =
     (let reference = (\<lambda>kind version. \<lparr>or_Kind = kind, or_APIVersion = version, or_Name = pvc_Name claim,
            or_Namespace = pvc_Namespace claim, or_UID = pvc_UID claim, or_ResourceVersion = pvc_ResourceVersion claim\<rparr>)
      in if pvc_Kind claim = [] \<and> pvc_APIVersion claim = []
         then (case scheme of Inl err \<Rightarrow> Inl err | Inr (kind, version) \<Rightarrow> Inr (reference kind version))
         else Inr (reference (pvc_Kind claim) (pvc_APIVersion claim)))"

section \<open>Server versions\<close>

record Version =
  ver_components :: "nat list"
  ver_semver :: bool
  ver_preRelease :: string
  ver_buildMetadata :: string

definition onlyZeros :: "nat list \<Rightarrow> bool" where
  "onlyZeros ns \<longleftrightarrow> list_all (\<lambda>n. n = 0) ns"

fun compare_components :: "nat list \<Rightarrow> nat list \<Rightarrow> int" where
  "compare_components (v # vs) (u # us) = (if u < v then 1 else if v < u then -1 else compare_components vs us)"
| "compare_components vs [] = (if vs \<noteq> [] \<and> \<not> onlyZeros vs then 1 else 0)"
| "compare_components [] us = (if us \<noteq> [] \<and> \<not> onlyZeros us then -1 else 0)"

definition ParseUint64 :: "string \<Rightarrow> nat option" where
  "ParseUint64 s =
     (if s = [] then None
      else (case decimal_value s 0 of None \<Rightarrow> None | Some n \<Rightarrow> if n < 2 ^ 64 then Some n else None))"

fun compare_prerelease :: "string list \<Rightarrow> string list \<Rightarrow> int" where
  "compare_prerelease (v # vs) (u # us) =
     (case (ParseUint64 v, ParseUint64 u) of
        (Some m, Some n) \<Rightarrow> if n < m then 1 else if m < n then -1 else compare_prerelease vs us
      | _ \<Rightarrow> if u < v then 1 else if v < u then -1 else compare_prerelease vs us)"
| "compare_prerelease vs us = (if length us < length vs then 1 else if length vs < length us then -1 else 0)"

definition compareInternal :: "Version \<Rightarrow> Version \<Rightarrow> int" where
  "compareInternal v other =
     (let c = compare_components (ver_components v) (ver_components other)
      in if c \<noteq> 0 then c
         else if \<not> ver_semver v \<or> \<not> ver_semver other then 0
         else if ver_preRelease v = [] \<and> ver_preRelease other \<noteq> [] then 1
         else if ver_preRelease v \<noteq> [] \<and> ver_preRelease other = [] then -1
         else if ver_preRelease v = ver_preRelease other then 0
         else compare_prerelease (split_on CHR ''.'' (ver_preRelease v)) (split_on CHR ''.'' (ver_preRelease other)))"

definition AtLeast :: "Version \<Rightarrow> Version \<Rightarrow> bool" where
  "AtLeast v minimum \<longleftrightarrow> compareInternal v minimum \<noteq> -1"

definition semantic :: "nat list \<Rightarrow> Version" where
  \<comment> \<open>\<open>MustParseSemantic\<close> of a plain version\<close>
  "semantic cs = \<lparr>ver_components = cs, ver_semver = True, ver_preRelease = [], ver_buildMetadata = []\<rparr>"

section \<open>The world and the client\<close>

datatype event_type = EventTypeNormal | EventTypeWarning

record event =
  ev_object :: string  \<comment> \<open>namespace and name\<close>
  ev_type :: event_type
  ev_reason :: string
  ev_message :: string

record world =
  w_os :: os  \<comment> \<open>the node on which the provisioner runs\<close>
  w_pvs :: "string \<Rightarrow> PersistentVolume option"  \<comment> \<open>the volumes in the API server\<close>
  w_nodes :: "string \<Rightarrow> string option"
  w_claims :: "nat \<Rightarrow> PersistentVolumeClaim"  \<comment> \<open>the claim objects in memory, shared by the informer cache\<close>
  w_events :: "event list"
  w_faults :: "go_error option list"  \<comment> \<open>what the connection to the API server will do next\<close>

definition record_event :: "string \<Rightarrow> event_type \<Rightarrow> string \<Rightarrow> string \<Rightarrow> world \<Rightarrow> world" where
  "record_event obj ty reason msg w =
     w\<lparr>w_events := w_events w @ [\<lparr>ev_object = obj, ev_type = ty, ev_reason = reason, ev_message = msg\<rparr>]\<rparr>"

record kube_client =
  k_GetPV :: "string \<Rightarrow> world \<Rightarrow> (go_error + PersistentVolume) \<times> world"
  k_CreatePV :: "PersistentVolume \<Rightarrow> world \<Rightarrow> go_error option \<times> world"
  k_DeletePV :: "string \<Rightarrow> world \<Rightarrow> go_error option \<times> world"
  k_UpdatePV :: "PersistentVolume \<Rightarrow> world \<Rightarrow> go_error option \<times> world"
  k_GetNode :: "string \<Rightarrow> world \<Rightarrow> (go_error + string) \<times> world"
  k_Admission :: "string list \<Rightarrow> string list"  \<comment> \<open>what the server makes of the finalizers of a new volume\<close>

definition admitted :: "kube_client \<Rightarrow> PersistentVolume \<Rightarrow> PersistentVolume" where
  \<comment> \<open>the object that is stored for a submitted one; PV protection adds its finalizer\<close>
  "admitted k pv = pv\<lparr>vol_Finalizers := k_Admission k (vol_Finalizers pv)\<rparr>"

definition NewNotFound :: "string \<Rightarrow> string \<Rightarrow> go_error" where
  "NewNotFound res n = APIError StatusReasonNotFound (res @ '' '' @ quote n @ '' not found'')"

definition NewAlreadyExists :: "string \<Rightarrow> string \<Rightarrow> go_error" where
  "NewAlreadyExists res n = APIError StatusReasonAlreadyExists (res @ '' '' @ quote n @ '' already exists'')"

definition tracker_Get :: "string \<Rightarrow> world \<Rightarrow> (go_error + PersistentVolume) \<times> world" where
  "tracker_Get n w =
     (case w_pvs w n of None \<Rightarrow> (Inl (NewNotFound ''persistentvolumes'' n), w) | Some pv \<Rightarrow> (Inr pv, w))"

definition tracker_add :: "PersistentVolume \<Rightarrow> bool \<Rightarrow> world \<Rightarrow> go_error option \<times> world" where
  "tracker_add pv replaceExisting w =
     (if w_pvs w (vol_Name pv) \<noteq> None then
        (if replaceExisting then (None, w\<lparr>w_pvs := (w_pvs w)(vol_Name pv \<mapsto> pv)\<rparr>)
         else (Some (NewAlreadyExists ''persistentvolumes'' (vol_Name pv)), w))
      else if replaceExisting then (Some (NewNotFound ''persistentvolumes'' (vol_Name pv)), w)
      else (None, w\<lparr>w_pvs := (w_pvs w)(vol_Name pv \<mapsto> pv)\<rparr>))"

definition tracker_Delete :: "string \<Rightarrow> world \<Rightarrow> go_error option \<times> world" where
  "tracker_Delete n w =
     (if w_pvs w n = None then (Some (NewNotFound ''persistentvolumes'' n), w)
      else (None, w\<lparr>w_pvs := (w_pvs w)(n := None)\<rparr>))"

definition tracker_client :: kube_client where
  "tracker_client =
     \<lparr>k_GetPV = tracker_Get,
      k_CreatePV = (\<lambda>pv. tracker_add pv False),
      k_DeletePV = tracker_Delete,
      k_UpdatePV = (\<lambda>pv. tracker_add pv True),
      k_GetNode = (\<lambda>n w. (case w_nodes w n of None \<Rightarrow> Inl (NewNotFound ''nodes'' n) | Some x \<Rightarrow> Inr x, w)),
      k_Admission = (\<lambda>fs. fs)\<rparr>"

section \<open>The contract of the API server\<close>

text \<open>
  What the controller relies on. A request changes nothing but the stored volumes; a volume that is
  returned is the stored one and \<open>NotFound\<close> is said of absent names only; a successful \<open>Create\<close>
  stores a new volume, to which admission may have added finalizers (PV protection does from
  Kubernetes 1.9 on), \<open>AlreadyExists\<close> is said of stored names only, and a \<open>Create\<close> that fails in
  another way may still have taken effect; a successful \<open>Delete\<close> removes the volume or, when it has
  finalizers, marks it as being deleted.
\<close>

locale kube_api =
  fixes k :: kube_client
  assumes get_frame: "k_GetPV k n w = (r, w') \<Longrightarrow> w' = w\<lparr>w_faults := w_faults w'\<rparr>"
    and get_found: "k_GetPV k n w = (Inr pv, w') \<Longrightarrow> w_pvs w n = Some pv"
    and get_missing: "k_GetPV k n w = (Inl e, w') \<Longrightarrow> apierrs_IsNotFound e \<Longrightarrow> w_pvs w n = None"
    and node_frame: "k_GetNode k n w = (s, w') \<Longrightarrow> w' = w\<lparr>w_faults := w_faults w'\<rparr>"
    and create_frame: "k_CreatePV k pv w = (x, w') \<Longrightarrow> w' = w\<lparr>w_pvs := w_pvs w', w_faults := w_faults w'\<rparr>"
    and create_ok: "k_CreatePV k pv w = (None, w') \<Longrightarrow>
        w_pvs w (vol_Name pv) = None \<and> w_pvs w' = (w_pvs w)(vol_Name pv \<mapsto> admitted k pv)"
    and create_exists: "k_CreatePV k pv w = (Some e, w') \<Longrightarrow> apierrs_IsAlreadyExists e \<Longrightarrow>
        w_pvs w (vol_Name pv) \<noteq> None \<and> w_pvs w' = w_pvs w"
    and create_fails: "k_CreatePV k pv w = (Some e, w') \<Longrightarrow>
        w_pvs w' = w_pvs w \<or> w_pvs w (vol_Name pv) = None \<and> w_pvs w' = (w_pvs w)(vol_Name pv \<mapsto> admitted k pv)"
    and admission_keeps: "set fs \<subseteq> set (k_Admission k fs)"
    and delete_frame: "k_DeletePV k n w = (x, w') \<Longrightarrow> w' = w\<lparr>w_pvs := w_pvs w', w_faults := w_faults w'\<rparr>"
    and delete_other: "k_DeletePV k n w = (x, w') \<Longrightarrow> m \<noteq> n \<Longrightarrow> w_pvs w' m = w_pvs w m"
    and delete_ok: "k_DeletePV k n w = (None, w') \<Longrightarrow>
        w_pvs w' n = None \<or>
        (\<exists>pv t. w_pvs w n = Some pv \<and> vol_Finalizers pv \<noteq> [] \<and> w_pvs w' n = Some (pv\<lparr>vol_DeletionTimestamp := Some t\<rparr>))"
    and update_frame: "k_UpdatePV k pv w = (x, w') \<Longrightarrow> w' = w\<lparr>w_pvs := w_pvs w', w_faults := w_faults w'\<rparr>"
    and update_other: "k_UpdatePV k pv w = (x, w') \<Longrightarrow> m \<noteq> vol_Name pv \<Longrightarrow> w_pvs w' m = w_pvs w m"
begin

lemma create_keeps:
  assumes "k_CreatePV k pv w = (e, w')" "w_pvs w n = Some x"
  shows "w_pvs w' n = Some x"
proof (cases e)
  case None
  then show ?thesis using create_ok [of pv w w'] assms by auto
next
  case (Some err)
  then show ?thesis using create_fails [of pv w err w'] assms by auto
qed

lemma create_saved:
  assumes "k_CreatePV k pv w = (e, w')" "e = None \<or> (\<exists>err. e = Some err \<and> apierrs_IsAlreadyExists err)"
  shows "w_pvs w' (vol_Name pv) \<noteq> None"
  using create_ok [of pv w w'] create_exists [of pv w] assms by auto

end

lemma apierrs_New [simp]:
  "apierrs_IsNotFound (NewNotFound r n)" "\<not> apierrs_IsNotFound (NewAlreadyExists r n)"
  "apierrs_IsAlreadyExists (NewAlreadyExists r n)" "\<not> apierrs_IsAlreadyExists (NewNotFound r n)"
  by (simp_all add: apierrs_IsNotFound_def apierrs_IsAlreadyExists_def NewNotFound_def NewAlreadyExists_def)

lemma admitted_sel [simp]:
  "vol_Name (admitted k pv) = vol_Name pv" "vol_Annotations (admitted k pv) = vol_Annotations pv"
  "vol_DeletionTimestamp (admitted k pv) = vol_DeletionTimestamp pv" "vol_Phase (admitted k pv) = vol_Phase pv"
  "vol_ReclaimPolicy (admitted k pv) = vol_ReclaimPolicy pv" "vol_HostPath (admitted k pv) = vol_HostPath pv"
  "vol_ClaimRef (admitted k pv) = vol_ClaimRef pv" "vol_StorageClassName (admitted k pv) = vol_StorageClassName pv"
  "vol_Finalizers (admitted k pv) = k_Admission k (vol_Finalizers pv)"
  by (simp_all add: admitted_def)

interpretation tracker: kube_api tracker_client
  by unfold_locales
     (auto simp: tracker_client_def tracker_Get_def tracker_add_def tracker_Delete_def admitted_def split: option.splits if_splits)

text \<open>The tracker with PV protection: a new volume gets a finalizer, and a volume with finalizers is only
  marked when it is deleted.\<close>

definition pv_protection :: string where
  "pv_protection = ''kubernetes.io/pv-protection''"

definition protecting_client :: kube_client where
  "protecting_client = tracker_client
     \<lparr>k_Admission := (\<lambda>fs. if pv_protection \<in> set fs then fs else fs @ [pv_protection]),
      k_CreatePV := (\<lambda>pv. tracker_add (pv\<lparr>vol_Finalizers :=
         (if pv_protection \<in> set (vol_Finalizers pv) then vol_Finalizers pv else vol_Finalizers pv @ [pv_protection])\<rparr>) False),
      k_DeletePV := (\<lambda>n w. case w_pvs w n of
          None \<Rightarrow> (Some (NewNotFound ''persistentvolumes'' n), w)
        | Some pv \<Rightarrow>
            if vol_Finalizers pv = [] then tracker_Delete n w
            else (None, w\<lparr>w_pvs := (w_pvs w)(n \<mapsto> pv\<lparr>vol_DeletionTimestamp := Some 1\<rparr>)\<rparr>))\<rparr>"

interpretation protecting: kube_api protecting_client
  by unfold_locales
     (auto simp: protecting_client_def tracker_client_def tracker_Get_def tracker_add_def tracker_Delete_def admitted_def
       split: option.splits if_splits)

end
