(* ===== verification/Provisioner_Interface.thy ===== *)
theory Provisioner_Interface
  imports Kube_Objects
begin

text \<open>
  \<open>controller/volume.go\<close>: what a provisioner offers to the provision controller. The interface
  \<open>Provisioner\<close> and the optional interfaces \<open>Qualifier\<close>, \<open>DeletionGuard\<close>, \<open>BlockProvisioner\<close> and
  \<open>ProvisionerExt\<close> are one record of functions on the world, the optional ones as \<open>option\<close> values
  (the result of the type assertion). The contract that the comments of the interface state is the
  locale \<open>asset_provisioner\<close>.
\<close>

section \<open>The interface\<close>

datatype ProvisioningState = ProvisioningInBackground | ProvisioningFinished | ProvisioningNoChange

record ProvisionOptions =
  po_StorageClass :: StorageClass
  po_PVName :: string
  po_PVC :: PersistentVolumeClaim
  po_SelectedNode :: "string option"

record provisioner =
  pr_Provision :: "ProvisionOptions \<Rightarrow> world \<Rightarrow> PersistentVolume outcome \<times> world"
  pr_Delete :: "PersistentVolume \<Rightarrow> world \<Rightarrow> unit outcome \<times> world"
  pr_ShouldProvision :: "(nat \<Rightarrow> VolumeBindingMode option \<Rightarrow> world \<Rightarrow> bool outcome \<times> world) option"
    \<comment> \<open>the claim is passed by reference\<close>
  pr_ShouldDelete :: "(PersistentVolume \<Rightarrow> world \<Rightarrow> bool) option"
  pr_SupportsBlock :: "bool option"
  pr_ProvisionExt :: "(ProvisionOptions \<Rightarrow> world \<Rightarrow> (PersistentVolume outcome \<times> ProvisioningState) \<times> world) option"

section \<open>The contract\<close>

text \<open>
  \<open>Provision\<close> creates the storage asset and a volume object of the requested name for it, \<open>Delete\<close>
  removes the asset and never the object, and an \<open>IgnoredError\<close> says that no action was taken. The
  asset is on the node and is named by the source of the volume.
\<close>

locale asset_provisioner =
  fixes p :: provisioner
    and asset :: "PersistentVolume \<Rightarrow> world \<Rightarrow> bool"
  assumes provision_frame: "pr_Provision p opts w = (r, w') \<Longrightarrow> w' = w\<lparr>w_os := w_os w'\<rparr>"
    and provision_ok: "pr_Provision p opts w = (Ok pv, w') \<Longrightarrow> vol_Name pv = po_PVName opts \<and> asset pv w'"
    and delete_frame: "pr_Delete p pv w = (d, w') \<Longrightarrow> w' = w\<lparr>w_os := w_os w'\<rparr>"
    and delete_ok: "pr_Delete p pv w = (Ok (), w') \<Longrightarrow> \<not> asset pv w'"
    and delete_ignored: "pr_Delete p pv w = (Err (IgnoredError reason), w') \<Longrightarrow> w' = w"
    and asset_os: "w_os w = w_os w' \<Longrightarrow> asset pv w = asset pv w'"
    and asset_source: "vol_HostPath pv = vol_HostPath pv' \<Longrightarrow> asset pv w = asset pv' w"
begin

lemma provision_keeps_volumes: "pr_Provision p opts w = (r, w') \<Longrightarrow> w_pvs w' = w_pvs w"
  by (drule provision_frame) (metis world.ext_inject world.surjective world.update_convs(1))

lemma delete_keeps_volumes: "pr_Delete p pv w = (r, w') \<Longrightarrow> w_pvs w' = w_pvs w"
  by (drule delete_frame) (metis world.ext_inject world.surjective world.update_convs(1))

end

end
