(* ===== verification/Work_Queue.thy ===== *)
theory Work_Queue
  imports Go_Prelude
begin

text \<open>
  The work queues of the provision controller (\<open>vendor/k8s.io/client-go/util/workqueue\<close>): the
  queue with its dirty and processing sets (\<open>queue.go\<close>), the delayed additions on top of it
  (\<open>delaying_queue.go\<close>; the waiting loop hands over an item when its time has come, which is an
  operation of its own here) and the rate limiter that counts the failures of an item
  (\<open>default_rate_limiters.go\<close>, \<open>rate_limiting_queue.go\<close>). A queue is specified by two sets, the
  items that wait for a worker and the items that a worker holds, and the implementation is shown
  to refine that specification as long as \<open>Done\<close> is called for items in processing only.
\<close>

section \<open>The queue\<close>

record 'a work_queue =
  wq_queue :: "'a list"
  wq_dirty :: "'a set"
  wq_processing :: "'a set"
  wq_shuttingDown :: bool
  wq_drain :: bool
  wq_waiting :: "'a set"  \<comment> \<open>the entries of the delaying queue, at most one for an item\<close>

definition newQueue :: "'a work_queue" where
  "newQueue = \<lparr>wq_queue = [], wq_dirty = {}, wq_processing = {}, wq_shuttingDown = False, wq_drain = False, wq_waiting = {}\<rparr>"

definition wq_Add :: "'a \<Rightarrow> 'a work_queue \<Rightarrow> 'a work_queue" where
  "wq_Add item q =
     (if wq_shuttingDown q then q
      else if item \<in> wq_dirty q then q
      else (let q' = q\<lparr>wq_dirty := insert item (wq_dirty q)\<rparr>
            in if item \<in> wq_processing q then q'
               else q'\<lparr>wq_queue := wq_queue q @ [item]\<rparr>))"

definition wq_Len :: "'a work_queue \<Rightarrow> nat" where
  "wq_Len q = length (wq_queue q)"

datatype 'a got = Blocked | ShutDown | Item 'a

definition wq_Get :: "'a work_queue \<Rightarrow> 'a got \<times> 'a work_queue" where
  \<comment> \<open>\<open>Blocked\<close>: the caller waits on the condition variable\<close>
  "wq_Get q =
     (case wq_queue q of
        [] \<Rightarrow> (if wq_shuttingDown q then ShutDown else Blocked, q)
      | item # rest \<Rightarrow>
          (Item item, q\<lparr>wq_queue := rest, wq_processing := insert item (wq_processing q),
                        wq_dirty := wq_dirty q - {item}\<rparr>))"

definition wq_Done :: "'a \<Rightarrow> 'a work_queue \<Rightarrow> 'a work_queue" where
  "wq_Done item q =
     (let q' = q\<lparr>wq_processing := wq_processing q - {item}\<rparr>
      in if item \<in> wq_dirty q then q'\<lparr>wq_queue := wq_queue q @ [item]\<rparr> else q')"

definition wq_ShutDown :: "'a work_queue \<Rightarrow> 'a work_queue" where
  "wq_ShutDown q = q\<lparr>wq_drain := False, wq_shuttingDown := True\<rparr>"

definition wq_AddAfter :: "'a \<Rightarrow> int \<Rightarrow> 'a work_queue \<Rightarrow> 'a work_queue" where
  "wq_AddAfter item duration q =
     (if wq_shuttingDown q then q
      else if duration \<le> 0 then wq_Add item q
      else q\<lparr>wq_waiting := insert item (wq_waiting q)\<rparr>)"

definition wq_ready :: "'a \<Rightarrow> 'a work_queue \<Rightarrow> 'a work_queue" where
  \<comment> \<open>the waiting loop finds the entry of the item expired\<close>
  "wq_ready item q =
     (if wq_shuttingDown q \<or> item \<notin> wq_waiting q then q
      else (wq_Add item q)\<lparr>wq_waiting := wq_waiting q - {item}\<rparr>)"

section \<open>The rate limiter\<close>

record 'a rate_limiter =
  rl_failures :: "('a, nat) gomap"
  rl_baseDelay :: int
  rl_maxDelay :: int
  rl_bucket :: int  \<comment> \<open>the delay that the token bucket asks for\<close>

definition rl_NumRequeues :: "'a rate_limiter \<Rightarrow> 'a \<Rightarrow> nat" where
  \<comment> \<open>the maximum of the two limiters; the token bucket counts nothing\<close>
  "rl_NumRequeues lim item = max (gomap_get 0 (rl_failures lim) item) 0"

definition exponential_delay :: "int \<Rightarrow> int \<Rightarrow> nat \<Rightarrow> int" where
  \<comment> \<open>the product of a 64-bit delay and a power of two is exact in floating point\<close>
  "exponential_delay base limit n =
     (let backoff = base * 2 ^ n
      in if backoff > 2 ^ 63 - 1 then limit else if backoff > limit then limit else backoff)"

definition rl_When :: "'a rate_limiter \<Rightarrow> 'a \<Rightarrow> int \<times> 'a rate_limiter" where
  "rl_When lim item =
     (let n = gomap_get 0 (rl_failures lim) item;
          d = exponential_delay (rl_baseDelay lim) (rl_maxDelay lim) n;
          ret = (if d > 0 then d else 0)
      in (if rl_bucket lim > ret then rl_bucket lim else ret,
          lim\<lparr>rl_failures := gomap_put (rl_failures lim) item (n + 1)\<rparr>))"

definition rl_Forget :: "'a rate_limiter \<Rightarrow> 'a \<Rightarrow> 'a rate_limiter" where
  "rl_Forget lim item = lim\<lparr>rl_failures := gomap_del (rl_failures lim) item\<rparr>"

definition AddRateLimited :: "'a \<Rightarrow> 'a rate_limiter \<times> 'a work_queue \<Rightarrow> 'a rate_limiter \<times> 'a work_queue" where
  "AddRateLimited item s =
     (let (d, lim) = rl_When (fst s) item in (lim, wq_AddAfter item d (snd s)))"

section \<open>The contract of a work queue\<close>

text \<open>
  The specification keeps two sets: the items that are to be processed (or processed again) and
  the items that workers hold. A client may rely on: what is added is pending until a worker gets
  it, a worker gets a pending item that no other worker holds, \<open>Done\<close> by the holder releases it.
\<close>

record 'a queue_spec =
  qs_pending :: "'a set"
  qs_held :: "'a set"

definition spec_add :: "'a \<Rightarrow> 'a queue_spec \<Rightarrow> 'a queue_spec" where
  "spec_add x s = s\<lparr>qs_pending := insert x (qs_pending s)\<rparr>"

definition spec_get :: "'a \<Rightarrow> 'a queue_spec \<Rightarrow> 'a queue_spec" where
  "spec_get x s = \<lparr>qs_pending = qs_pending s - {x}, qs_held = insert x (qs_held s)\<rparr>"

definition spec_done :: "'a \<Rightarrow> 'a queue_spec \<Rightarrow> 'a queue_spec" where
  "spec_done x s = s\<lparr>qs_held := qs_held s - {x}\<rparr>"

locale work_service =
  fixes add :: "'a \<Rightarrow> 'q \<Rightarrow> 'q"
    and get :: "'q \<Rightarrow> 'a got \<times> 'q"
    and fin :: "'a \<Rightarrow> 'q \<Rightarrow> 'q"
    and abs :: "'q \<Rightarrow> 'a queue_spec"
    and closed :: "'q \<Rightarrow> bool"
    and inv :: "'q \<Rightarrow> bool"
  assumes add_inv: "inv q \<Longrightarrow> inv (add x q)"
    and get_inv: "inv q \<Longrightarrow> inv (snd (get q))"
    and fin_inv: "inv q \<Longrightarrow> x \<in> qs_held (abs q) \<Longrightarrow> inv (fin x q)"
    and add_abs: "inv q \<Longrightarrow> \<not> closed q \<Longrightarrow> abs (add x q) = spec_add x (abs q)"
    and add_closed: "inv q \<Longrightarrow> closed q \<Longrightarrow> add x q = q"
    and get_abs: "inv q \<Longrightarrow> get q = (Item x, q') \<Longrightarrow>
        x \<in> qs_pending (abs q) \<and> x \<notin> qs_held (abs q) \<and> abs q' = spec_get x (abs q)"
    and get_none: "inv q \<Longrightarrow> fst (get q) = Blocked \<or> fst (get q) = ShutDown \<Longrightarrow>
        snd (get q) = q \<and> qs_pending (abs q) \<subseteq> qs_held (abs q)"
    and fin_abs: "inv q \<Longrightarrow> x \<in> qs_held (abs q) \<Longrightarrow> abs (fin x q) = spec_done x (abs q)"
begin

text \<open>An item that a worker holds is never handed to a second one.\<close>

lemma exclusive:
  assumes "inv q" "x \<in> qs_held (abs q)"
  shows "fst (get q) \<noteq> Item x"
proof
  assume "fst (get q) = Item x"
  then obtain q' where "get q = (Item x, q')" by (cases "get q") auto
  then show False using get_abs [OF assms(1)] assms(2) by blast
qed

text \<open>A pending item that nobody holds keeps the queue from blocking.\<close>

lemma not_stuck:
  assumes "inv q" "x \<in> qs_pending (abs q)" "x \<notin> qs_held (abs q)"
  shows "\<exists>y q'. get q = (Item y, q')"
  using get_none [OF assms(1)] assms(2,3) by (cases "get q"; cases "fst (get q)") auto

text \<open>Work that arrives while the item is held is not lost: it is pending after \<open>Done\<close>.\<close>

lemma added_while_held:
  assumes "inv q" "\<not> closed q" "x \<in> qs_held (abs q)"
  shows "x \<in> qs_pending (abs (fin x (add x q)))" and "x \<notin> qs_held (abs (fin x (add x q)))"
  using add_inv [OF assms(1)] add_abs [OF assms(1,2)] fin_abs [of "add x q" x] assms(3)
  by (simp_all add: spec_add_def spec_done_def)

end

section \<open>Facts\<close>

definition wq_inv :: "'a work_queue \<Rightarrow> bool" where
  \<comment> \<open>every element of the queue is dirty and not in processing, and is there once\<close>
  "wq_inv q \<longleftrightarrow> distinct (wq_queue q) \<and> set (wq_queue q) = wq_dirty q - wq_processing q"

definition wq_abs :: "'a work_queue \<Rightarrow> 'a queue_spec" where
  "wq_abs q = \<lparr>qs_pending = wq_dirty q, qs_held = wq_processing q\<rparr>"

lemma wq_inv_new [simp]: "wq_inv newQueue"
  by (simp add: wq_inv_def newQueue_def)

lemma wq_invI: "distinct (wq_queue q) \<Longrightarrow> set (wq_queue q) = wq_dirty q - wq_processing q \<Longrightarrow> wq_inv q"
  by (simp add: wq_inv_def)

lemma wq_inv_Add:
  assumes "wq_inv q"
  shows "wq_inv (wq_Add x q)"
proof -
  have "distinct (wq_queue q)" "set (wq_queue q) = wq_dirty q - wq_processing q" using assms by (simp_all add: wq_inv_def)
  then show ?thesis by (intro wq_invI) (simp_all add: wq_Add_def Let_def insert_Diff_if)
qed

lemma wq_inv_Get:
  assumes "wq_inv q"
  shows "wq_inv (snd (wq_Get q))"
proof (cases "wq_queue q")
  case Nil
  then show ?thesis using assms by (simp add: wq_Get_def)
next
  case (Cons x xs)
  then have "distinct xs" "x \<notin> set xs" "insert x (set xs) = wq_dirty q - wq_processing q"
    using assms by (simp_all add: wq_inv_def)
  then have "set xs = wq_dirty q - {x} - insert x (wq_processing q)" by blast
  then show ?thesis using Cons \<open>distinct xs\<close> by (intro wq_invI) (simp_all add: wq_Get_def)
qed

lemma wq_inv_Done:
  assumes "wq_inv q" "x \<in> wq_processing q"
  shows "wq_inv (wq_Done x q)"
proof -
  have i: "distinct (wq_queue q)" "set (wq_queue q) = wq_dirty q - wq_processing q" using assms(1) by (simp_all add: wq_inv_def)
  have "wq_dirty q - (wq_processing q - {x}) = (if x \<in> wq_dirty q then insert x (set (wq_queue q)) else set (wq_queue q))"
    using i(2) assms(2) by auto
  then show ?thesis using i assms(2) by (intro wq_invI) (simp_all add: wq_Done_def Let_def)
qed

lemma wq_inv_ready: "wq_inv q \<Longrightarrow> wq_inv (wq_ready x q)"
  using wq_inv_Add [of q x] by (auto simp: wq_ready_def wq_inv_def)

lemma wq_inv_AddAfter: "wq_inv q \<Longrightarrow> wq_inv (wq_AddAfter x d q)"
  using wq_inv_Add [of q x] by (auto simp: wq_AddAfter_def wq_inv_def)

lemma wq_Get_Item:
  assumes "wq_inv q" "wq_Get q = (Item x, q')"
  shows "x \<in> wq_dirty q" "x \<notin> wq_processing q"
    "q' = q\<lparr>wq_queue := tl (wq_queue q), wq_processing := insert x (wq_processing q), wq_dirty := wq_dirty q - {x}\<rparr>"
proof -
  have q: "x \<in> set (wq_queue q)"
    "q' = q\<lparr>wq_queue := tl (wq_queue q), wq_processing := insert x (wq_processing q), wq_dirty := wq_dirty q - {x}\<rparr>"
    using assms(2) by (auto simp: wq_Get_def split: list.splits if_splits)
  then show "x \<in> wq_dirty q" "x \<notin> wq_processing q"
    "q' = q\<lparr>wq_queue := tl (wq_queue q), wq_processing := insert x (wq_processing q), wq_dirty := wq_dirty q - {x}\<rparr>"
    using assms(1) by (simp_all add: wq_inv_def)
qed

lemma wq_Get_none:
  assumes "wq_inv q" "fst (wq_Get q) = Blocked \<or> fst (wq_Get q) = ShutDown"
  shows "snd (wq_Get q) = q" "wq_dirty q \<subseteq> wq_processing q"
proof -
  have "wq_queue q = []" using assms(2) by (cases "wq_queue q") (auto simp: wq_Get_def)
  moreover have "set (wq_queue q) = wq_dirty q - wq_processing q" using assms(1) by (simp add: wq_inv_def)
  ultimately show "snd (wq_Get q) = q" "wq_dirty q \<subseteq> wq_processing q" by (simp_all add: wq_Get_def)
qed

interpretation typed: work_service wq_Add wq_Get wq_Done wq_abs wq_shuttingDown wq_inv
proof
  show "wq_inv q \<Longrightarrow> wq_inv (wq_Add x q)" for q :: "'a work_queue" and x by (rule wq_inv_Add)
  show "wq_inv q \<Longrightarrow> wq_inv (snd (wq_Get q))" for q :: "'a work_queue" by (rule wq_inv_Get)
  show "wq_inv q \<Longrightarrow> x \<in> qs_held (wq_abs q) \<Longrightarrow> wq_inv (wq_Done x q)" for q :: "'a work_queue" and x
    using wq_inv_Done by (auto simp: wq_abs_def)
  show "wq_inv q \<Longrightarrow> \<not> wq_shuttingDown q \<Longrightarrow> wq_abs (wq_Add x q) = spec_add x (wq_abs q)"
    for q :: "'a work_queue" and x
    by (auto simp: wq_abs_def wq_Add_def spec_add_def Let_def)
  show "wq_inv q \<Longrightarrow> wq_shuttingDown q \<Longrightarrow> wq_Add x q = q" for q :: "'a work_queue" and x
    by (simp add: wq_Add_def)
  show "wq_inv q \<Longrightarrow> wq_Get q = (Item x, q') \<Longrightarrow>
      x \<in> qs_pending (wq_abs q) \<and> x \<notin> qs_held (wq_abs q) \<and> wq_abs q' = spec_get x (wq_abs q)"
    for q q' :: "'a work_queue" and x
    using wq_Get_Item [of q x q'] by (simp add: wq_abs_def spec_get_def)
  show "wq_inv q \<Longrightarrow> fst (wq_Get q) = Blocked \<or> fst (wq_Get q) = ShutDown \<Longrightarrow>
      snd (wq_Get q) = q \<and> qs_pending (wq_abs q) \<subseteq> qs_held (wq_abs q)" for q :: "'a work_queue"
    using wq_Get_none [of q] by (simp add: wq_abs_def)
  show "wq_inv q \<Longrightarrow> x \<in> qs_held (wq_abs q) \<Longrightarrow> wq_abs (wq_Done x q) = spec_done x (wq_abs q)"
    for q :: "'a work_queue" and x
    by (auto simp: wq_abs_def wq_Done_def spec_done_def Let_def)
qed

lemma NumRequeues_When: "rl_NumRequeues (snd (rl_When lim x)) y = rl_NumRequeues lim y + (if y = x then 1 else 0)"
  by (simp add: rl_NumRequeues_def rl_When_def Let_def gomap_get_def)

lemma NumRequeues_Forget: "rl_NumRequeues (rl_Forget lim x) y = (if y = x then 0 else rl_NumRequeues lim y)"
  by (simp add: rl_NumRequeues_def rl_Forget_def gomap_get_def)

end
