(* ===== verification/Volume_Store.thy ===== *)
theory Volume_Store
  imports Provisioner_Interface Work_Queue
begin

text \<open>
  \<open>controller/volume_store.go\<close>: how a provisioned volume gets into the API server. The store with
  backoff tries a number of times and deletes the storage asset when all attempts failed; the store
  with a queue retries in the background until the volume is saved. Both implement the interface
  \<open>VolumeStore\<close>, whose contract is the locale \<open>volume_saver\<close>.
\<close>

definition claimToClaimKey :: "PersistentVolumeClaim \<Rightarrow> string" where
  "claimToClaimKey claim = pvc_Namespace claim @ ''/'' @ pvc_Name claim"

section \<open>Exponential backoff\<close>

text \<open>\<open>wait.Backoff\<close>; the factor is the function that scales a duration, \<open>None\<close> for the factor 0.\<close>

record Backoff =
  bo_Duration :: int
  bo_Factor :: "(int \<Rightarrow> int) option"
  bo_Steps :: int
  bo_Cap :: int

definition Backoff_Step :: "Backoff \<Rightarrow> Backoff" where
  \<comment> \<open>the state after \<open>Step\<close>; the jitter only changes the time slept\<close>
  "Backoff_Step b =
     (if bo_Steps b < 1 then b\<lparr>bo_Steps := 0\<rparr>
      else (case bo_Factor b of
              None \<Rightarrow> b\<lparr>bo_Steps := bo_Steps b - 1\<rparr>
            | Some scale \<Rightarrow>
                if bo_Cap b > 0 \<and> scale (bo_Duration b) > bo_Cap b
                then b\<lparr>bo_Duration := bo_Cap b, bo_Steps := 0\<rparr>
                else b\<lparr>bo_Duration := scale (bo_Duration b), bo_Steps := bo_Steps b - 1\<rparr>))"

definition ErrWaitTimeout :: go_error where
  "ErrWaitTimeout = ErrorString ''timed out waiting for the condition''"

function ExponentialBackoff :: "Backoff \<Rightarrow> ('s \<Rightarrow> bool outcome \<times> 's) \<Rightarrow> 's \<Rightarrow> unit outcome \<times> 's" where
  "ExponentialBackoff b condition s =
     (if bo_Steps b \<le> 0 then (Err ErrWaitTimeout, s)
      else (case condition s of
              (Ok True, s') \<Rightarrow> (Ok (), s')
            | (Err e, s') \<Rightarrow> (Err e, s')
            | (Panic m, s') \<Rightarrow> (Panic m, s')
            | (Ok False, s') \<Rightarrow>
                if bo_Steps b = 1 then (Err ErrWaitTimeout, s')
                else ExponentialBackoff (Backoff_Step b) condition s'))"
  by pat_completeness auto
termination
  by (relation "measure (\<lambda>(b, _, _). nat (bo_Steps b))") (auto simp: Backoff_Step_def split: option.splits)

declare ExponentialBackoff.simps [simp del]

section \<open>The store with backoff\<close>

record backoffStore =
  bs_client :: kube_client
  bs_backoff :: Backoff
  bs_provisioner :: provisioner

definition NewBackoffStore :: "kube_client \<Rightarrow> Backoff \<Rightarrow> provisioner \<Rightarrow> backoffStore" where
  "NewBackoffStore client backoff prov = \<lparr>bs_client = client, bs_backoff = backoff, bs_provisioner = prov\<rparr>"

definition save_attempt ::
    "kube_client \<Rightarrow> PersistentVolume \<Rightarrow> go_error option \<times> world \<Rightarrow> bool outcome \<times> go_error option \<times> world" where
  "save_attempt client volume s =
     (case k_CreatePV client volume (snd s) of
        (None, w') \<Rightarrow> (Ok True, fst s, w')
      | (Some err, w') \<Rightarrow>
          if apierrs_IsAlreadyExists err then (Ok True, fst s, w') else (Ok False, Some err, w'))"

definition clean_attempt ::
    "provisioner \<Rightarrow> PersistentVolume \<Rightarrow> go_error option \<times> world \<Rightarrow> bool outcome \<times> go_error option \<times> world" where
  "clean_attempt prov volume s =
     (case pr_Delete prov volume (snd s) of
        (Ok _, w') \<Rightarrow> (Ok True, fst s, w')
      | (Err err, w') \<Rightarrow> (Ok False, Some err, w')
      | (Panic m, w') \<Rightarrow> (Panic m, fst s, w'))"

definition error_verb :: "go_error option \<Rightarrow> string" where
  \<comment> \<open>the verb \<open>%v\<close> on an error\<close>
  "error_verb err = (case err of None \<Rightarrow> ''<nil>'' | Some e \<Rightarrow> error_msg e)"

definition clean_asset :: "backoffStore \<Rightarrow> PersistentVolumeClaim \<Rightarrow> PersistentVolume \<Rightarrow> world \<Rightarrow> unit outcome \<times> world" where
  "clean_asset b claim volume w =
     (case ExponentialBackoff (bs_backoff b) (clean_attempt (bs_provisioner b) volume) (None, w) of
        (Ok _, lastDeleteError, w') \<Rightarrow> (Ok (), w')
      | (Err _, lastDeleteError, w') \<Rightarrow>
          (Ok (), record_event (claimToClaimKey claim) EventTypeWarning ''ProvisioningCleanupFailed''
                    (''Error cleaning provisioned volume for claim '' @ claimToClaimKey claim @ '': ''
                      @ error_verb lastDeleteError @ ''. Please delete manually.'') w')
      | (Panic m, _, w') \<Rightarrow> (Panic m, w'))"

definition backoff_StoreVolume ::
    "PersistentVolumeClaim \<Rightarrow> PersistentVolume \<Rightarrow> backoffStore \<Rightarrow> world \<Rightarrow> unit outcome \<times> backoffStore \<times> world" where
  "backoff_StoreVolume claim volume b w =
     (case ExponentialBackoff (bs_backoff b) (save_attempt (bs_client b) volume) (None, w) of
        (Ok _, _, w') \<Rightarrow>
          (Ok (), b, record_event (claimToClaimKey claim) EventTypeNormal ''ProvisioningSucceeded''
                       (''Successfully provisioned volume '' @ vol_Name volume) w')
      | (Panic m, _, w') \<Rightarrow> (Panic m, b, w')
      | (Err _, lastSaveError, w') \<Rightarrow>
          (let w'' = record_event (claimToClaimKey claim) EventTypeWarning ''ProvisioningFailed''
                       (''Error creating provisioned PV object for claim '' @ claimToClaimKey claim @ '': ''
                         @ error_verb lastSaveError @ ''. Deleting the volume.'') w'
           in case clean_asset b claim volume w'' of
                (Panic m, w3) \<Rightarrow> (Panic m, b, w3)
              | (_, w3) \<Rightarrow> (case lastSaveError of None \<Rightarrow> (Ok (), b, w3) | Some err \<Rightarrow> (Err err, b, w3))))"

section \<open>The store with a queue\<close>

record queueStore =
  st_client :: kube_client
  st_queue :: "string work_queue"
  st_limiter :: "string rate_limiter"
  st_volumes :: "(string, PersistentVolume) gomap"

definition NewVolumeStoreQueue :: "kube_client \<Rightarrow> string rate_limiter \<Rightarrow> queueStore" where
  "NewVolumeStoreQueue client limiter =
     \<lparr>st_client = client, st_queue = newQueue, st_limiter = limiter, st_volumes = []\<rparr>"

definition doSaveVolume :: "kube_client \<Rightarrow> PersistentVolume \<Rightarrow> world \<Rightarrow> go_error option \<times> world" where
  "doSaveVolume client volume w =
     (case k_CreatePV client volume w of
        (None, w') \<Rightarrow> (None, w')
      | (Some err, w') \<Rightarrow>
          if apierrs_IsAlreadyExists err then (None, w')
          else (Some (ErrorString (''error saving volume '' @ vol_Name volume @ '': '' @ error_msg err)), w'))"

definition queue_StoreVolume ::
    "PersistentVolumeClaim \<Rightarrow> PersistentVolume \<Rightarrow> queueStore \<Rightarrow> world \<Rightarrow> unit outcome \<times> queueStore \<times> world" where
  "queue_StoreVolume claim volume q w =
     (case doSaveVolume (st_client q) volume w of
        (None, w') \<Rightarrow> (Ok (), q, w')
      | (Some err, w') \<Rightarrow>
          (Ok (), q\<lparr>st_volumes := gomap_put (st_volumes q) (vol_Name volume) volume,
                    st_queue := wq_Add (vol_Name volume) (st_queue q)\<rparr>, w'))"

definition save_item :: "string \<Rightarrow> queueStore \<Rightarrow> world \<Rightarrow> queueStore \<times> world" where
  \<comment> \<open>what a worker does with an item, the deferred \<open>Done\<close> included\<close>
  "save_item volumeName q w =
     (let finish = (\<lambda>q'. q'\<lparr>st_queue := wq_Done volumeName (st_queue q')\<rparr>)
      in case map_of (st_volumes q) volumeName of
           None \<Rightarrow> (finish (q\<lparr>st_limiter := rl_Forget (st_limiter q) volumeName\<rparr>), w)
         | Some volume \<Rightarrow>
             (case doSaveVolume (st_client q) volume w of
                (Some err, w') \<Rightarrow>
                  (let (lim, queue) = AddRateLimited volumeName (st_limiter q, st_queue q)
                   in (finish (q\<lparr>st_limiter := lim, st_queue := queue\<rparr>), w'))
              | (None, w') \<Rightarrow>
                  (finish (q\<lparr>st_volumes := gomap_del (st_volumes q) volumeName,
                             st_limiter := rl_Forget (st_limiter q) volumeName\<rparr>), w')))"

definition store_processNextWorkItem :: "queueStore \<Rightarrow> world \<Rightarrow> (bool \<times> queueStore \<times> world) option" where
  \<comment> \<open>\<open>None\<close> when the worker blocks\<close>
  "store_processNextWorkItem q w =
     (case wq_Get (st_queue q) of
        (Blocked, _) \<Rightarrow> None
      | (ShutDown, _) \<Rightarrow> Some (False, q, w)
      | (Item volumeName, queue) \<Rightarrow>
          (let (q', w') = save_item volumeName (q\<lparr>st_queue := queue\<rparr>) w in Some (True, q', w')))"

section \<open>The contract of a volume store\<close>

text \<open>
  When no error is returned the volume is saved or will be saved in the background, and no volume
  that is in the API server is lost.
\<close>

locale volume_saver =
  fixes store :: "PersistentVolumeClaim \<Rightarrow> PersistentVolume \<Rightarrow> 's \<Rightarrow> world \<Rightarrow> unit outcome \<times> 's \<times> world"
    and pending :: "'s \<Rightarrow> string \<Rightarrow> bool"
    and inv :: "'s \<Rightarrow> bool"
  assumes store_inv: "inv s \<Longrightarrow> store c v s w = (r, s', w') \<Longrightarrow> inv s'"
    and store_ok: "inv s \<Longrightarrow> store c v s w = (Ok (), s', w') \<Longrightarrow> w_pvs w' (vol_Name v) \<noteq> None \<or> pending s' (vol_Name v)"
    and store_keeps: "inv s \<Longrightarrow> store c v s w = (r, s', w') \<Longrightarrow> w_pvs w n = Some x \<Longrightarrow> w_pvs w' n = Some x"

section \<open>Facts\<close>

lemma record_event_sel [simp]:
  "w_pvs (record_event obj ty reason msg w) = w_pvs w" "w_os (record_event obj ty reason msg w) = w_os w"
  "w_claims (record_event obj ty reason msg w) = w_claims w" "w_nodes (record_event obj ty reason msg w) = w_nodes w"
  "w_faults (record_event obj ty reason msg w) = w_faults w"
  by (simp_all add: record_event_def)

lemma ExponentialBackoff_cases:
  assumes "ExponentialBackoff b c s = (r, s')"
  obtains (none) "bo_Steps b \<le> 0" "r = Err ErrWaitTimeout" "s' = s"
  | (finish) x where "bo_Steps b > 0" "c s = (x, s')" "x \<noteq> Ok False" "r = map_outcome (\<lambda>_. ()) x"
  | (last) "bo_Steps b = 1" "c s = (Ok False, s')" "r = Err ErrWaitTimeout"
  | (more) s1 where "bo_Steps b > 1" "c s = (Ok False, s1)" "ExponentialBackoff (Backoff_Step b) c s1 = (r, s')"
proof (cases "bo_Steps b \<le> 0")
  case True
  then show ?thesis using assms none by (simp add: ExponentialBackoff.simps)
next
  case False
  obtain x s1 where c: "c s = (x, s1)" by fastforce
  show ?thesis
  proof (cases "x = Ok False")
    case True
    show ?thesis
    proof (cases "bo_Steps b = 1")
      case True
      then show ?thesis using assms last c \<open>x = Ok False\<close> by (simp add: ExponentialBackoff.simps)
    next
      case False
      have "ExponentialBackoff (Backoff_Step b) c s1 = (r, s')"
        using assms c \<open>x = Ok False\<close> False \<open>\<not> bo_Steps b \<le> 0\<close> by (subst (asm) ExponentialBackoff.simps) simp
      then show ?thesis using more [of s1] c \<open>x = Ok False\<close> False \<open>\<not> bo_Steps b \<le> 0\<close> by simp
    qed
  next
    case no: False
    have "s' = s1 \<and> r = map_outcome (\<lambda>_. ()) x"
      using assms c no False by (subst (asm) ExponentialBackoff.simps) (auto split: outcome.splits bool.splits)
    then show ?thesis using finish [of x] c no False by simp
  qed
qed

lemma Backoff_Step_less: "bo_Steps b > 1 \<Longrightarrow> nat (bo_Steps (Backoff_Step b)) < nat (bo_Steps b)"
  by (auto simp: Backoff_Step_def split: option.splits)

text \<open>
  The rule of the loop: with a property \<open>I\<close> that a failed attempt keeps, the loop ends with the
  result of a decisive attempt, or in the timeout after a failed attempt (or without any attempt).
\<close>

lemma ExponentialBackoff_rule:
  assumes "ExponentialBackoff b c s = (r, s')" "I s" "\<forall>s s1. I s \<longrightarrow> c s = (Ok False, s1) \<longrightarrow> I s1"
  shows "(\<exists>s0 x. I s0 \<and> c s0 = (x, s') \<and> x \<noteq> Ok False \<and> r = map_outcome (\<lambda>_. ()) x) \<or>
    r = Err ErrWaitTimeout \<and> I s' \<and> (bo_Steps b > 0 \<longrightarrow> (\<exists>s0. I s0 \<and> c s0 = (Ok False, s')))"
  using assms(1,2)
proof (induction "nat (bo_Steps b)" arbitrary: b s rule: less_induct)
  case less
  from less.prems(1) show ?case
  proof (cases rule: ExponentialBackoff_cases)
    case none
    then show ?thesis using less.prems(2) by simp
  next
    case (finish x)
    then show ?thesis using less.prems(2) by blast
  next
    case last
    then show ?thesis using less.prems(2) assms(3) by blast
  next
    case (more s1)
    have I1: "I s1" using less.prems(2) assms(3) more(2) by blast
    from less.hyps [OF Backoff_Step_less [OF more(1)] more(3) I1] show ?thesis
    proof
      assume "r = Err ErrWaitTimeout \<and> I s' \<and>
        (bo_Steps (Backoff_Step b) > 0 \<longrightarrow> (\<exists>s0. I s0 \<and> c s0 = (Ok False, s')))"
      moreover have "s' = s1" if "\<not> bo_Steps (Backoff_Step b) > 0"
        using more(3) that by (simp add: ExponentialBackoff.simps)
      ultimately show ?thesis using more(2) less.prems(2) by blast
    qed blast
  qed
qed

lemma save_attempt_cases:
  assumes "save_attempt k v (l, u) = (x, l', u')"
  obtains (saved) e where "x = Ok True" "l' = l" "k_CreatePV k v u = (e, u')"
      "e = None \<or> (\<exists>err. e = Some err \<and> apierrs_IsAlreadyExists err)"
  | (failed) err where "x = Ok False" "l' = Some err" "k_CreatePV k v u = (Some err, u')" "\<not> apierrs_IsAlreadyExists err"
  using assms that by (auto simp: save_attempt_def split: prod.splits option.splits if_splits)

definition volumes_kept :: "world \<Rightarrow> world \<Rightarrow> bool" where
  "volumes_kept w w' \<longleftrightarrow> (\<forall>n x. w_pvs w n = Some x \<longrightarrow> w_pvs w' n = Some x)"

lemma volumes_kept_refl [simp]: "volumes_kept w w"
  by (simp add: volumes_kept_def)

lemma volumes_kept_trans: "volumes_kept u v \<Longrightarrow> volumes_kept v w \<Longrightarrow> volumes_kept u w"
  by (simp add: volumes_kept_def)

lemma volumes_kept_eq: "w_pvs w' = w_pvs w \<Longrightarrow> volumes_kept w w'"
  by (simp add: volumes_kept_def)

context kube_api
begin

lemma create_volumes_kept: "k_CreatePV k v w = (e, w') \<Longrightarrow> volumes_kept w w'"
  using create_keeps by (simp add: volumes_kept_def)

lemma create_os: "k_CreatePV k v w = (e, w') \<Longrightarrow> w_os w' = w_os w"
  by (drule create_frame) (metis world.ext_inject world.surjective world.update_convs(2,6))

lemma save_loop:
  assumes "ExponentialBackoff b (save_attempt k v) (None, w) = (r, l, w')"
  shows "volumes_kept w w'" and "w_os w' = w_os w"
    and "r = Ok () \<and> w_pvs w' (vol_Name v) \<noteq> None \<or> r = Err ErrWaitTimeout \<and> (bo_Steps b > 0 \<longrightarrow> l \<noteq> None)"
proof -
  let ?I = "\<lambda>(l :: go_error option, u). volumes_kept w u \<and> w_os u = w_os w"
  have step: "volumes_kept u u' \<and> w_os u' = w_os u" if "save_attempt k v (l, u) = (x, l', u')" for l u x l' u'
    using that by (cases rule: save_attempt_cases) (use create_volumes_kept create_os in blast)+
  have inv: "\<forall>s s1. ?I s \<longrightarrow> save_attempt k v s = (Ok False, s1) \<longrightarrow> ?I s1"
    using step volumes_kept_trans by fastforce
  consider (fin) l0 u0 x where "?I (l0, u0)" "save_attempt k v (l0, u0) = (x, l, w')" "x \<noteq> Ok False" "r = map_outcome (\<lambda>_. ()) x"
    | (out) "r = Err ErrWaitTimeout" "?I (l, w')" "bo_Steps b > 0 \<longrightarrow> (\<exists>l0 u0. save_attempt k v (l0, u0) = (Ok False, l, w'))"
    using ExponentialBackoff_rule [OF assms, of ?I, OF _ inv] by auto
  then have "volumes_kept w w' \<and> w_os w' = w_os w \<and>
    (r = Ok () \<and> w_pvs w' (vol_Name v) \<noteq> None \<or> r = Err ErrWaitTimeout \<and> (bo_Steps b > 0 \<longrightarrow> l \<noteq> None))"
  proof cases
    case fin
    have k: "volumes_kept w w'" "w_os w' = w_os w" using fin(1) step [OF fin(2)] volumes_kept_trans by auto
    from fin(2) show ?thesis
    proof (cases rule: save_attempt_cases)
      case (saved e)
      then show ?thesis using create_saved [OF saved(3,4)] k fin(4) by simp
    next
      case failed
      then show ?thesis using fin(3) by simp
    qed
  next
    case out
    have "l \<noteq> None" if "bo_Steps b > 0"
    proof -
      obtain l0 u0 where "save_attempt k v (l0, u0) = (Ok False, l, w')" using out(3) \<open>bo_Steps b > 0\<close> by blast
      then show ?thesis by (cases rule: save_attempt_cases) simp_all
    qed
    then show ?thesis using out(1,2) by simp
  qed
  then show "volumes_kept w w'" "w_os w' = w_os w"
    "r = Ok () \<and> w_pvs w' (vol_Name v) \<noteq> None \<or> r = Err ErrWaitTimeout \<and> (bo_Steps b > 0 \<longrightarrow> l \<noteq> None)" by blast+
qed

end

context asset_provisioner
begin

lemma clean_asset_facts:
  assumes "clean_asset b claim v w = (r, w')" "bs_provisioner b = p"
  shows "w_pvs w' = w_pvs w"
    and "r = Ok () \<Longrightarrow> \<not> asset v w' \<or> (\<exists>ev \<in> set (w_events w'). ev_reason ev = ''ProvisioningCleanupFailed'')"
    and "r = Ok () \<or> (\<exists>m. r = Panic m)"
proof -
  obtain x l u where loop: "ExponentialBackoff (bs_backoff b) (clean_attempt p v) (None, w) = (x, l, u)"
    by (cases "ExponentialBackoff (bs_backoff b) (clean_attempt p v) (None, w)") auto
  let ?I = "\<lambda>(l :: go_error option, u). w_pvs u = w_pvs w"
  have step: "w_pvs u' = w_pvs u" if "clean_attempt p v (l, u) = (y, l', u')" for l u y l' u'
    using that delete_keeps_volumes
    by (auto simp: clean_attempt_def split: prod.splits outcome.splits)
  have inv: "\<forall>s s1. ?I s \<longrightarrow> clean_attempt p v s = (Ok False, s1) \<longrightarrow> ?I s1" using step by fastforce
  consider (fin) l0 u0 y where "w_pvs u0 = w_pvs w" "clean_attempt p v (l0, u0) = (y, l, u)" "y \<noteq> Ok False" "x = map_outcome (\<lambda>_. ()) y"
    | (out) "x = Err ErrWaitTimeout" "w_pvs u = w_pvs w"
    using ExponentialBackoff_rule [OF loop, of ?I, OF _ inv] by auto
  then have "w_pvs u = w_pvs w \<and> (x = Ok () \<longrightarrow> \<not> asset v u)"
  proof cases
    case fin
    have "x = Ok () \<longrightarrow> \<not> asset v u"
      using fin(2,3,4) delete_ok by (auto simp: clean_attempt_def split: prod.splits outcome.splits)
    then show ?thesis using fin(1) step [OF fin(2)] by simp
  qed simp
  then have u: "w_pvs u = w_pvs w" "x = Ok () \<longrightarrow> \<not> asset v u" by blast+
  show "w_pvs w' = w_pvs w" using assms loop u(1) by (auto simp: clean_asset_def split: outcome.splits)
  show "\<not> asset v w' \<or> (\<exists>ev \<in> set (w_events w'). ev_reason ev = ''ProvisioningCleanupFailed'')" if "r = Ok ()"
    using assms loop u(2) that by (auto simp: clean_asset_def record_event_def split: outcome.splits)
  show "r = Ok () \<or> (\<exists>m. r = Panic m)" using assms loop by (auto simp: clean_asset_def split: outcome.splits)
qed

end

definition backoff_inv :: "backoffStore \<Rightarrow> bool" where
  "backoff_inv b \<longleftrightarrow> kube_api (bs_client b) \<and> bo_Steps (bs_backoff b) > 0 \<and> (\<exists>asset. asset_provisioner (bs_provisioner b) asset)"

lemma backoff_StoreVolume_facts:
  assumes "kube_api (bs_client b)" "asset_provisioner (bs_provisioner b) asset"
    and "backoff_StoreVolume claim v b w = (r, b', w')"
  shows "b' = b" and "volumes_kept w w'"
    and "r = Ok () \<Longrightarrow> bo_Steps (bs_backoff b) > 0 \<Longrightarrow> w_pvs w' (vol_Name v) \<noteq> None"
    and "r = Err e \<Longrightarrow> \<not> asset v w' \<or> (\<exists>ev \<in> set (w_events w'). ev_reason ev = ''ProvisioningCleanupFailed'')"
proof -
  obtain x l u where loop: "ExponentialBackoff (bs_backoff b) (save_attempt (bs_client b) v) (None, w) = (x, l, u)"
    by (cases "ExponentialBackoff (bs_backoff b) (save_attempt (bs_client b) v) (None, w)") auto
  note save = kube_api.save_loop [OF assms(1) loop]
  let ?fail = "record_event (claimToClaimKey claim) EventTypeWarning ''ProvisioningFailed''
    (''Error creating provisioned PV object for claim '' @ claimToClaimKey claim @ '': '' @ error_verb l @ ''. Deleting the volume.'') u"
  obtain y u2 where clean: "clean_asset b claim v ?fail = (y, u2)" by fastforce
  note c = asset_provisioner.clean_asset_facts [OF assms(2) clean refl]
  have kept: "volumes_kept w u2" using volumes_kept_trans [OF save(1) volumes_kept_eq, of u2] c(1) by simp
  show "b' = b"
    using assms(3) loop by (auto simp: backoff_StoreVolume_def Let_def split: outcome.splits prod.splits option.splits)
  show "volumes_kept w w'"
    using assms(3) loop save(1,3) kept clean volumes_kept_trans [OF save(1) volumes_kept_eq]
    by (auto simp: backoff_StoreVolume_def Let_def split: outcome.splits option.splits)
  show "w_pvs w' (vol_Name v) \<noteq> None" if "r = Ok ()" "bo_Steps (bs_backoff b) > 0"
    using assms(3) loop save(3) that clean by (auto simp: backoff_StoreVolume_def Let_def split: outcome.splits option.splits)
  show "\<not> asset v w' \<or> (\<exists>ev \<in> set (w_events w'). ev_reason ev = ''ProvisioningCleanupFailed'')" if "r = Err e"
    using assms(3) loop save(3) that clean c(2,3)
    by (auto simp: backoff_StoreVolume_def Let_def split: outcome.splits option.splits)
qed

interpretation backoff_saver: volume_saver backoff_StoreVolume "\<lambda>_ _. False" backoff_inv
proof -
  have facts: "s' = s \<and> volumes_kept w w' \<and> (r = Ok () \<longrightarrow> w_pvs w' (vol_Name v) \<noteq> None)"
    if inv: "backoff_inv s" and run: "backoff_StoreVolume c v s w = (r, s', w')" for s c v w r s' w'
  proof -
    obtain asset where a: "kube_api (bs_client s)" "asset_provisioner (bs_provisioner s) asset" "bo_Steps (bs_backoff s) > 0"
      using inv by (auto simp: backoff_inv_def)
    show ?thesis using backoff_StoreVolume_facts(1-3) [OF a(1,2) run] a(3) by blast
  qed
  show "volume_saver backoff_StoreVolume (\<lambda>_ _. False) backoff_inv"
  proof
    show "backoff_inv s'" if "backoff_inv s" "backoff_StoreVolume c v s w = (r, s', w')" for s c v w r s' w'
      using facts [OF that] that(1) by simp
    show "w_pvs w' (vol_Name v) \<noteq> None \<or> False"
      if "backoff_inv s" "backoff_StoreVolume c v s w = (Ok (), s', w')" for s c v w s' w'
      using facts [OF that] by simp
    show "w_pvs w' n = Some x"
      if "backoff_inv s" "backoff_StoreVolume c v s w = (r, s', w')" "w_pvs w n = Some x" for s c v w r s' w' n x
      using facts [OF that(1,2)] that(3) by (simp add: volumes_kept_def)
  qed
qed

text \<open>
  The invariant of the store with a queue: every volume that waits to be saved has an entry that
  will bring it back to a worker.
\<close>

definition scheduled :: "'a work_queue \<Rightarrow> 'a \<Rightarrow> bool" where
  "scheduled q x \<longleftrightarrow> x \<in> wq_dirty q \<or> x \<in> wq_processing q \<or> x \<in> wq_waiting q"

definition queue_inv :: "queueStore \<Rightarrow> bool" where
  "queue_inv q \<longleftrightarrow> kube_api (st_client q) \<and> wq_inv (st_queue q) \<and> \<not> wq_shuttingDown (st_queue q) \<and>
     (\<forall>n v. map_of (st_volumes q) n = Some v \<longrightarrow> vol_Name v = n \<and> scheduled (st_queue q) n)"

lemma scheduled_Add: "\<not> wq_shuttingDown q \<Longrightarrow> scheduled (wq_Add x q) y \<longleftrightarrow> scheduled q y \<or> y = x"
  by (auto simp: scheduled_def wq_Add_def Let_def)

lemma scheduled_AddAfter: "\<not> wq_shuttingDown q \<Longrightarrow> scheduled (wq_AddAfter x d q) y \<longleftrightarrow> scheduled q y \<or> y = x"
  by (auto simp: scheduled_def wq_AddAfter_def wq_Add_def Let_def)

lemma scheduled_ready [simp]: "scheduled (wq_ready x q) y \<longleftrightarrow> scheduled q y"
  by (auto simp: scheduled_def wq_ready_def wq_Add_def Let_def)

lemma scheduled_Get: "wq_inv q \<Longrightarrow> wq_Get q = (Item x, q') \<Longrightarrow> scheduled q' y \<longleftrightarrow> scheduled q y"
  using wq_Get_Item [of q x q'] by (auto simp: scheduled_def)

lemma scheduled_Done:
  "scheduled (wq_Done x q) y \<longleftrightarrow> (if y = x then x \<in> wq_dirty q \<or> x \<in> wq_waiting q else scheduled q y)"
  by (auto simp: scheduled_def wq_Done_def Let_def)

lemma wq_shuttingDown_simps [simp]:
  "wq_shuttingDown (wq_Add x q) = wq_shuttingDown q" "wq_shuttingDown (wq_AddAfter x d q) = wq_shuttingDown q"
  "wq_shuttingDown (wq_Done x q) = wq_shuttingDown q" "wq_shuttingDown (wq_ready x q) = wq_shuttingDown q"
  by (simp_all add: wq_Add_def wq_AddAfter_def wq_Done_def wq_ready_def Let_def)

lemma wq_Get_shuttingDown: "wq_Get q = (g, q') \<Longrightarrow> wq_shuttingDown q' = wq_shuttingDown q"
  by (auto simp: wq_Get_def split: list.splits if_splits)

lemma retried_queue:
  assumes "wq_inv q" "\<not> wq_shuttingDown q" "x \<in> wq_processing q"
  shows "wq_inv (wq_Done x (wq_AddAfter x d q))"
    and "scheduled (wq_Done x (wq_AddAfter x d q)) y \<longleftrightarrow> scheduled q y"
proof -
  have "x \<in> wq_processing (wq_AddAfter x d q)" using assms(3) by (simp add: wq_AddAfter_def wq_Add_def Let_def)
  then show "wq_inv (wq_Done x (wq_AddAfter x d q))" by (rule wq_inv_Done [OF wq_inv_AddAfter [OF assms(1)]])
  have "x \<in> wq_dirty (wq_AddAfter x d q) \<or> x \<in> wq_waiting (wq_AddAfter x d q)"
    using assms(2) by (simp add: wq_AddAfter_def wq_Add_def Let_def)
  then show "scheduled (wq_Done x (wq_AddAfter x d q)) y \<longleftrightarrow> scheduled q y"
    using assms(2,3) by (auto simp: scheduled_Done scheduled_AddAfter) (simp_all add: scheduled_def)
qed

lemma save_item_facts:
  assumes "queue_inv q" "n \<in> wq_processing (st_queue q)" "save_item n q w = (q', w')"
  shows "queue_inv q'" "volumes_kept w w'"
    and "map_of (st_volumes q) m = Some v \<Longrightarrow> map_of (st_volumes q') m = Some v \<or> w_pvs w' m \<noteq> None"
    and "map_of (st_volumes q) n = Some v \<Longrightarrow> fst (k_CreatePV (st_client q) v w) = None \<Longrightarrow> w_pvs w' n \<noteq> None \<and> map_of (st_volumes q') n = None"
proof -
  note inv = assms(1) [unfolded queue_inv_def]
  have fin: "wq_inv (wq_Done n (st_queue q))" using inv by (intro wq_inv_Done [OF _ assms(2)]) simp
  note re = retried_queue [OF _ _ assms(2)]
  have "queue_inv q' \<and> volumes_kept w w' \<and>
    (map_of (st_volumes q) m = Some v \<longrightarrow> map_of (st_volumes q') m = Some v \<or> w_pvs w' m \<noteq> None) \<and>
    (map_of (st_volumes q) n = Some v \<longrightarrow> fst (k_CreatePV (st_client q) v w) = None \<longrightarrow> w_pvs w' n \<noteq> None \<and> map_of (st_volumes q') n = None)"
  proof (cases "map_of (st_volumes q) n")
    case None
    then show ?thesis using assms(3) inv fin
      by (auto simp: save_item_def queue_inv_def scheduled_Done)
  next
    case (Some u)
    obtain e w1 where save: "k_CreatePV (st_client q) u w = (e, w1)" by fastforce
    have k: "kube_api (st_client q)" and un: "vol_Name u = n" using inv Some by simp_all
    note kept = kube_api.create_volumes_kept [OF k save] and saved = kube_api.create_saved [OF k save, unfolded un]
    obtain d lim where wh: "rl_When (st_limiter q) n = (d, lim)" by fastforce
    show ?thesis
    proof (cases "e = None \<or> (\<exists>x. e = Some x \<and> apierrs_IsAlreadyExists x)")
      case True
      then have "q' = q\<lparr>st_volumes := gomap_del (st_volumes q) n, st_limiter := rl_Forget (st_limiter q) n,
          st_queue := wq_Done n (st_queue q)\<rparr>" "w' = w1"
        using assms(3) save Some by (auto simp: save_item_def doSaveVolume_def)
      then show ?thesis using True inv fin kept saved by (auto simp: queue_inv_def scheduled_Done split: if_splits)
    next
      case False
      then have "q' = q\<lparr>st_limiter := lim, st_queue := wq_Done n (wq_AddAfter n d (st_queue q))\<rparr>" "w' = w1"
        using assms(3) save Some wh by (auto simp: save_item_def doSaveVolume_def AddRateLimited_def split: option.splits)
      then show ?thesis using False inv re kept save Some by (auto simp: queue_inv_def)
    qed
  qed
  then show "queue_inv q'" "volumes_kept w w'"
    "map_of (st_volumes q) m = Some v \<Longrightarrow> map_of (st_volumes q') m = Some v \<or> w_pvs w' m \<noteq> None"
    "map_of (st_volumes q) n = Some v \<Longrightarrow> fst (k_CreatePV (st_client q) v w) = None \<Longrightarrow> w_pvs w' n \<noteq> None \<and> map_of (st_volumes q') n = None"
    by blast+
qed

lemma queue_StoreVolume_facts:
  assumes "queue_inv q" "queue_StoreVolume c v q w = (r, q', w')"
  shows "queue_inv q'" "volumes_kept w w'" "r = Ok ()"
    "w_pvs w' (vol_Name v) \<noteq> None \<or> map_of (st_volumes q') (vol_Name v) \<noteq> None"
proof -
  have k: "kube_api (st_client q)" using assms(1) by (simp add: queue_inv_def)
  obtain e w1 where save: "k_CreatePV (st_client q) v w = (e, w1)" by fastforce
  have w1: "w' = w1" using assms(2) save
    by (auto simp: queue_StoreVolume_def doSaveVolume_def split: option.splits if_splits)
  show "volumes_kept w w'" using kube_api.create_volumes_kept [OF k save] w1 by simp
  show "r = Ok ()" using assms(2) by (auto simp: queue_StoreVolume_def split: prod.splits option.splits)
  show "w_pvs w' (vol_Name v) \<noteq> None \<or> map_of (st_volumes q') (vol_Name v) \<noteq> None"
    using assms(2) save kube_api.create_saved [OF k save]
    by (auto simp: queue_StoreVolume_def doSaveVolume_def split: option.splits if_splits)
  have "q' = q \<or> q' = q\<lparr>st_volumes := gomap_put (st_volumes q) (vol_Name v) v, st_queue := wq_Add (vol_Name v) (st_queue q)\<rparr>"
    using assms(2) by (auto simp: queue_StoreVolume_def split: prod.splits option.splits)
  then show "queue_inv q'" using assms(1) wq_inv_Add by (auto simp: queue_inv_def scheduled_Add split: if_splits)
qed

interpretation queue_saver: volume_saver queue_StoreVolume "\<lambda>q n. map_of (st_volumes q) n \<noteq> None" queue_inv
proof -
  show "volume_saver queue_StoreVolume (\<lambda>q n. map_of (st_volumes q) n \<noteq> None) queue_inv"
  proof
    fix s c v w r s' w'
    assume inv: "queue_inv s" and run: "queue_StoreVolume c v s w = (r, s', w')"
    note f = queue_StoreVolume_facts [OF inv run]
    show "queue_inv s'" by (rule f(1))
    show "w_pvs w' n = Some x" if "w_pvs w n = Some x" for n x using f(2) that by (simp add: volumes_kept_def)
  next
    fix s c v w s' w'
    assume "queue_inv s" "queue_StoreVolume c v s w = (Ok (), s', w')"
    then show "w_pvs w' (vol_Name v) \<noteq> None \<or> map_of (st_volumes s') (vol_Name v) \<noteq> None"
      by (rule queue_StoreVolume_facts(4))
  qed
qed

end
