(* ===== verification/Controller_Options.thy ===== *)
theory Controller_Options
  imports Volume_Store
begin

text \<open>
  The configuration of the provision controller (\<open>controller/controller.go\<close>): the fields of
  \<open>ProvisionController\<close> that are fixed before it runs, the defaults and the option functions that
  \<open>NewProvisionController\<close> applies. Durations are in nanoseconds. The limiter that \<open>RateLimiter\<close> and
  \<open>CreateProvisionedPVLimiter\<close> take is one of the default kind of client-go, not an arbitrary one. The fields that change while the
  controller runs are in the theory \<open>Provision_Controller\<close>.
\<close>

section \<open>The configuration\<close>

datatype claim_object = ClaimObject nat | ForeignClaim string
  \<comment> \<open>what the claim informer holds: a pointer to a claim, or an object of another type (its UID)\<close>
datatype volume_object = VolumeObject PersistentVolume | ForeignVolume string

record ProvisionController =
  pc_client :: kube_client
  pc_provisionerName :: string
  pc_additionalProvisionerNames :: "string list"
  pc_provisioner :: provisioner
  pc_kubeVersion :: Version
  pc_scheme :: "go_error + string \<times> string"
  pc_id :: string
  pc_component :: string
  pc_resyncPeriod :: int
  pc_rateLimiter :: "string rate_limiter option"
  pc_exponentialBackOffOnError :: bool
  pc_threadiness :: int
  pc_createProvisionedPVBackoff :: "Backoff option"
  pc_createProvisionedPVRetryCount :: int
  pc_createProvisionedPVInterval :: int
  pc_createProvisionerPVLimiter :: "string rate_limiter option"
  pc_failedProvisionThreshold :: int
  pc_failedDeleteThreshold :: int
  pc_metricsPort :: int
  pc_metricsAddress :: string
  pc_metricsPath :: string
  pc_addFinalizer :: bool
  pc_leaderElection :: bool
  pc_leaderElectionNamespace :: string
  pc_leaseDuration :: int
  pc_renewDeadline :: int
  pc_retryPeriod :: int
  pc_hasRun :: bool
  pc_claimInformer :: "claim_object list option"
  pc_volumeInformer :: "(string, volume_object) gomap option"
  pc_classInformer :: "(string, class_object) gomap option"
  pc_customClaimInformer :: bool
  pc_customVolumeInformer :: bool
  pc_customClassInformer :: bool

definition seconds :: "int \<Rightarrow> int" where "seconds n = n * 1000000000"

definition DefaultResyncPeriod :: int where "DefaultResyncPeriod = 15 * 60 * seconds 1"
definition DefaultThreadiness :: int where "DefaultThreadiness = 4"
definition DefaultExponentialBackOffOnError :: bool where "DefaultExponentialBackOffOnError = True"
definition DefaultCreateProvisionedPVRetryCount :: int where "DefaultCreateProvisionedPVRetryCount = 5"
definition DefaultCreateProvisionedPVInterval :: int where "DefaultCreateProvisionedPVInterval = seconds 10"
definition DefaultFailedProvisionThreshold :: int where "DefaultFailedProvisionThreshold = 15"
definition DefaultFailedDeleteThreshold :: int where "DefaultFailedDeleteThreshold = 15"
definition DefaultLeaderElection :: bool where "DefaultLeaderElection = True"
definition DefaultLeaseDuration :: int where "DefaultLeaseDuration = seconds 15"
definition DefaultRenewDeadline :: int where "DefaultRenewDeadline = seconds 10"
definition DefaultRetryPeriod :: int where "DefaultRetryPeriod = seconds 2"
definition DefaultMetricsPort :: int where "DefaultMetricsPort = 0"
definition DefaultMetricsAddress :: string where "DefaultMetricsAddress = ''0.0.0.0''"
definition DefaultMetricsPath :: string where "DefaultMetricsPath = ''/metrics''"
definition DefaultAddFinalizer :: bool where "DefaultAddFinalizer = False"

definition errRuntime :: go_error where
  "errRuntime = ErrorString ''cannot call option functions after controller has Run''"

type_synonym controller_option = "ProvisionController \<Rightarrow> go_error + ProvisionController"

definition HasRun :: "ProvisionController \<Rightarrow> bool" where
  "HasRun c = pc_hasRun c"

section \<open>Option functions\<close>

definition ResyncPeriod :: "int \<Rightarrow> controller_option" where
  "ResyncPeriod resyncPeriod c = (if HasRun c then Inl errRuntime else Inr (c\<lparr>pc_resyncPeriod := resyncPeriod\<rparr>))"

definition Threadiness :: "int \<Rightarrow> controller_option" where
  "Threadiness threadiness c = (if HasRun c then Inl errRuntime else Inr (c\<lparr>pc_threadiness := threadiness\<rparr>))"

definition RateLimiter :: "string rate_limiter \<Rightarrow> controller_option" where
  "RateLimiter rateLimiter c = (if HasRun c then Inl errRuntime else Inr (c\<lparr>pc_rateLimiter := Some rateLimiter\<rparr>))"

definition ExponentialBackOffOnError :: "bool \<Rightarrow> controller_option" where
  "ExponentialBackOffOnError b c = (if HasRun c then Inl errRuntime else Inr (c\<lparr>pc_exponentialBackOffOnError := b\<rparr>))"

definition CreateProvisionedPVRetryCount :: "int \<Rightarrow> controller_option" where
  "CreateProvisionedPVRetryCount n c =
     (if HasRun c then Inl errRuntime
      else if pc_createProvisionedPVBackoff c \<noteq> None
      then Inl (ErrorString ''CreateProvisionedPVBackoff cannot be used together with CreateProvisionedPVRetryCount'')
      else if pc_createProvisionerPVLimiter c \<noteq> None
      then Inl (ErrorString ''CreateProvisionedPVBackoff cannot be used together with CreateProvisionedPVLimiter'')
      else Inr (c\<lparr>pc_createProvisionedPVRetryCount := n\<rparr>))"

definition CreateProvisionedPVInterval :: "int \<Rightarrow> controller_option" where
  "CreateProvisionedPVInterval d c =
     (if HasRun c then Inl errRuntime
      else if pc_createProvisionedPVBackoff c \<noteq> None
      then Inl (ErrorString ''CreateProvisionedPVBackoff cannot be used together with CreateProvisionedPVInterval'')
      else if pc_createProvisionerPVLimiter c \<noteq> None
      then Inl (ErrorString ''CreateProvisionedPVInterval cannot be used together with CreateProvisionedPVLimiter'')
      else Inr (c\<lparr>pc_createProvisionedPVInterval := d\<rparr>))"

definition CreateProvisionedPVBackoff :: "Backoff \<Rightarrow> controller_option" where
  "CreateProvisionedPVBackoff backoff c =
     (if HasRun c then Inl errRuntime
      else if pc_createProvisionedPVRetryCount c \<noteq> 0
      then Inl (ErrorString ''CreateProvisionedPVBackoff cannot be used together with CreateProvisionedPVRetryCount'')
      else if pc_createProvisionedPVInterval c \<noteq> 0
      then Inl (ErrorString ''CreateProvisionedPVBackoff cannot be used together with CreateProvisionedPVInterval'')
      else if pc_createProvisionerPVLimiter c \<noteq> None
      then Inl (ErrorString ''CreateProvisionedPVBackoff cannot be used together with CreateProvisionedPVLimiter'')
      else Inr (c\<lparr>pc_createProvisionedPVBackoff := Some backoff\<rparr>))"

definition CreateProvisionedPVLimiter :: "string rate_limiter \<Rightarrow> controller_option" where
  "CreateProvisionedPVLimiter limiter c =
     (if HasRun c then Inl errRuntime
      else if pc_createProvisionedPVRetryCount c \<noteq> 0
      then Inl (ErrorString ''CreateProvisionedPVLimiter cannot be used together with CreateProvisionedPVRetryCount'')
      else if pc_createProvisionedPVInterval c \<noteq> 0
      then Inl (ErrorString ''CreateProvisionedPVLimiter cannot be used together with CreateProvisionedPVInterval'')
      else if pc_createProvisionedPVBackoff c \<noteq> None
      then Inl (ErrorString ''CreateProvisionedPVLimiter cannot be used together with CreateProvisionedPVBackoff'')
      else Inr (c\<lparr>pc_createProvisionerPVLimiter := Some limiter\<rparr>))"

definition FailedProvisionThreshold :: "int \<Rightarrow> controller_option" where
  "FailedProvisionThreshold n c = (if HasRun c then Inl errRuntime else Inr (c\<lparr>pc_failedProvisionThreshold := n\<rparr>))"

definition FailedDeleteThreshold :: "int \<Rightarrow> controller_option" where
  "FailedDeleteThreshold n c = (if HasRun c then Inl errRuntime else Inr (c\<lparr>pc_failedDeleteThreshold := n\<rparr>))"

definition LeaderElection :: "bool \<Rightarrow> controller_option" where
  "LeaderElection b c = (if HasRun c then Inl errRuntime else Inr (c\<lparr>pc_leaderElection := b\<rparr>))"

definition LeaderElectionNamespace :: "string \<Rightarrow> controller_option" where
  "LeaderElectionNamespace ns c = (if HasRun c then Inl errRuntime else Inr (c\<lparr>pc_leaderElectionNamespace := ns\<rparr>))"

definition LeaseDuration :: "int \<Rightarrow> controller_option" where
  "LeaseDuration d c = (if HasRun c then Inl errRuntime else Inr (c\<lparr>pc_leaseDuration := d\<rparr>))"

definition RenewDeadline :: "int \<Rightarrow> controller_option" where
  "RenewDeadline d c = (if HasRun c then Inl errRuntime else Inr (c\<lparr>pc_renewDeadline := d\<rparr>))"

definition RetryPeriod :: "int \<Rightarrow> controller_option" where
  "RetryPeriod d c = (if HasRun c then Inl errRuntime else Inr (c\<lparr>pc_retryPeriod := d\<rparr>))"

definition ClaimsInformer :: "claim_object list \<Rightarrow> controller_option" where
  "ClaimsInformer informer c =
     (if HasRun c then Inl errRuntime
      else Inr (c\<lparr>pc_claimInformer := Some informer, pc_customClaimInformer := True\<rparr>))"

definition VolumesInformer :: "(string, volume_object) gomap \<Rightarrow> controller_option" where
  "VolumesInformer informer c =
     (if HasRun c then Inl errRuntime
      else Inr (c\<lparr>pc_volumeInformer := Some informer, pc_customVolumeInformer := True\<rparr>))"

definition ClassesInformer :: "(string, class_object) gomap \<Rightarrow> controller_option" where
  "ClassesInformer informer c =
     (if HasRun c then Inl errRuntime
      else Inr (c\<lparr>pc_classInformer := Some informer, pc_customClassInformer := True\<rparr>))"

definition MetricsPort :: "int \<Rightarrow> controller_option" where
  "MetricsPort n c = (if HasRun c then Inl errRuntime else Inr (c\<lparr>pc_metricsPort := n\<rparr>))"

definition MetricsAddress :: "string \<Rightarrow> controller_option" where
  "MetricsAddress a c = (if HasRun c then Inl errRuntime else Inr (c\<lparr>pc_metricsAddress := a\<rparr>))"

definition MetricsPath :: "string \<Rightarrow> controller_option" where
  "MetricsPath p c = (if HasRun c then Inl errRuntime else Inr (c\<lparr>pc_metricsPath := p\<rparr>))"

definition AdditionalProvisionerNames :: "string list \<Rightarrow> controller_option" where
  "AdditionalProvisionerNames ns c =
     (if HasRun c then Inl errRuntime else Inr (c\<lparr>pc_additionalProvisionerNames := ns\<rparr>))"

definition AddFinalizer :: "bool \<Rightarrow> controller_option" where
  "AddFinalizer b c = (if HasRun c then Inl errRuntime else Inr (c\<lparr>pc_addFinalizer := b\<rparr>))"

fun apply_options :: "controller_option list \<Rightarrow> ProvisionController \<Rightarrow> ProvisionController outcome" where
  \<comment> \<open>a failing option ends the process\<close>
  "apply_options [] c = Ok c"
| "apply_options (opt # opts) c =
     (case opt c of
        Inl err \<Rightarrow> Panic (''Error processing controller options: '' @ error_msg err)
      | Inr c' \<Rightarrow> apply_options opts c')"

end
