(* ===== verification/Provision_Controller.thy ===== *)
theory Provision_Controller
  imports Controller_Options
begin

text \<open>
  \<open>controller/controller.go\<close>: the controller that provisions volumes for claims and deletes released
  volumes. The state has the two work queues with their common rate limiter, the informer caches,
  the claims in progress and the volume store; every handler is a function on it. Claims are
  objects in memory that the cache and the claims in progress share (a provisioner writes their
  annotations in place), so the caches hold references. The handlers run in several workers; the
  relation \<open>ctrl_step\<close> lets informer events, workers and timers interleave.
\<close>

section \<open>State and construction\<close>

datatype VolumeStore = QueueStore queueStore | BackoffStore backoffStore

definition StoreVolume ::
    "PersistentVolumeClaim \<Rightarrow> PersistentVolume \<Rightarrow> VolumeStore \<Rightarrow> world \<Rightarrow> unit outcome \<times> VolumeStore \<times> world" where
  "StoreVolume claim volume store w =
     (case store of
        QueueStore q \<Rightarrow> (let (r, q', w') = queue_StoreVolume claim volume q w in (r, QueueStore q', w'))
      | BackoffStore b \<Rightarrow> (let (r, b', w') = backoff_StoreVolume claim volume b w in (r, BackoffStore b', w')))"

record ctrl_state =
  cs_limiter :: "string rate_limiter"
  cs_claimQueue :: "string work_queue"
  cs_volumeQueue :: "string work_queue"
  cs_claims :: "claim_object list"
  cs_volumes :: "(string, volume_object) gomap"
  cs_classes :: "(string, class_object) gomap"
  cs_claimsInProgress :: "(string, claim_object) gomap"
  cs_store :: VolumeStore
  cs_bindingModewarned :: bool
  cs_world :: world

definition ctrl_annStorageProvisioner :: string where
  "ctrl_annStorageProvisioner = ''volume.beta.kubernetes.io/storage-provisioner''"
definition annDynamicallyProvisioned :: string where
  "annDynamicallyProvisioned = ''pv.kubernetes.io/provisioned-by''"
definition annClass :: string where "annClass = ''volume.beta.kubernetes.io/storage-class''"
definition ctrl_annSelectedNode :: string where "ctrl_annSelectedNode = ''volume.kubernetes.io/selected-node''"
definition finalizerPV :: string where
  "finalizerPV = ''external-provisioner.volume.kubernetes.io/finalizer''"

definition is_space :: "char \<Rightarrow> bool" where
  "is_space c \<longleftrightarrow> c = CHR '' '' \<or> c = CHR 0x09 \<or> c = CHR 0x0A \<or> c = CHR 0x0B \<or> c = CHR 0x0C \<or> c = CHR 0x0D"

definition TrimSpace :: "string \<Rightarrow> string" where
  "TrimSpace s = rev (dropWhile is_space (rev (dropWhile is_space s)))"

definition getInClusterNamespace :: "(string \<Rightarrow> string) \<Rightarrow> string option \<Rightarrow> string" where
  \<comment> \<open>the environment, and the namespace file of the service account if it can be read\<close>
  "getInClusterNamespace getenv file =
     (if getenv ''POD_NAMESPACE'' \<noteq> [] then getenv ''POD_NAMESPACE''
      else (case file of
              Some data \<Rightarrow> if TrimSpace data \<noteq> [] then TrimSpace data else ''default''
            | None \<Rightarrow> ''default''))"

definition exponential_limiter :: "int \<Rightarrow> int \<Rightarrow> string rate_limiter" where
  "exponential_limiter base limit = \<lparr>rl_failures = [], rl_baseDelay = base, rl_maxDelay = limit, rl_bucket = 0\<rparr>"

definition queue_limiter :: "ProvisionController \<Rightarrow> string rate_limiter" where
  "queue_limiter c =
     (case pc_rateLimiter c of
        Some limiter \<Rightarrow> limiter
      | None \<Rightarrow>
          if pc_exponentialBackOffOnError c then exponential_limiter (seconds 15) (seconds 1000)
          else exponential_limiter (seconds 15) (seconds 15))"

definition volume_store :: "ProvisionController \<Rightarrow> VolumeStore" where
  "volume_store c =
     (case pc_createProvisionerPVLimiter c of
        Some limiter \<Rightarrow> QueueStore (NewVolumeStoreQueue (pc_client c) limiter)
      | None \<Rightarrow>
          (let backoff = (case pc_createProvisionedPVBackoff c of
                 Some b \<Rightarrow> b
               | None \<Rightarrow>
                   \<lparr>bo_Duration = (if pc_createProvisionedPVInterval c = 0 then DefaultCreateProvisionedPVInterval
                                   else pc_createProvisionedPVInterval c),
                    bo_Factor = Some (\<lambda>d. d),
                    bo_Steps = (if pc_createProvisionedPVRetryCount c = 0 then DefaultCreateProvisionedPVRetryCount
                                else pc_createProvisionedPVRetryCount c),
                    bo_Cap = 0\<rparr>)
           in BackoffStore (NewBackoffStore (pc_client c) backoff (pc_provisioner c))))"

definition default_controller ::
    "kube_client \<Rightarrow> string \<Rightarrow> provisioner \<Rightarrow> Version \<Rightarrow> go_error + string \<times> string \<Rightarrow> string \<Rightarrow> string \<Rightarrow> ProvisionController" where
  "default_controller client provisionerName prov kubeVersion scheme ident namespace =
     \<lparr>pc_client = client, pc_provisionerName = provisionerName, pc_additionalProvisionerNames = [],
      pc_provisioner = prov, pc_kubeVersion = kubeVersion, pc_scheme = scheme, pc_id = ident,
      pc_component = provisionerName @ ''_'' @ ident, pc_resyncPeriod = DefaultResyncPeriod, pc_rateLimiter = None,
      pc_exponentialBackOffOnError = DefaultExponentialBackOffOnError, pc_threadiness = DefaultThreadiness,
      pc_createProvisionedPVBackoff = None, pc_createProvisionedPVRetryCount = 0,
      pc_createProvisionedPVInterval = 0, pc_createProvisionerPVLimiter = None,
      pc_failedProvisionThreshold = DefaultFailedProvisionThreshold,
      pc_failedDeleteThreshold = DefaultFailedDeleteThreshold,
      pc_metricsPort = DefaultMetricsPort, pc_metricsAddress = DefaultMetricsAddress,
      pc_metricsPath = DefaultMetricsPath, pc_addFinalizer = DefaultAddFinalizer, pc_leaderElection = False,
      pc_leaderElectionNamespace = namespace, pc_leaseDuration = DefaultLeaseDuration,
      pc_renewDeadline = DefaultRenewDeadline, pc_retryPeriod = DefaultRetryPeriod, pc_hasRun = False,
      pc_claimInformer = None, pc_volumeInformer = None, pc_classInformer = None,
      pc_customClaimInformer = False, pc_customVolumeInformer = False, pc_customClassInformer = False\<rparr>"

definition NewProvisionController ::
    "kube_client \<Rightarrow> string \<Rightarrow> provisioner \<Rightarrow> Version \<Rightarrow> go_error + string \<times> string \<Rightarrow> go_error + string \<Rightarrow> string \<Rightarrow>
     string \<Rightarrow> controller_option list \<Rightarrow> world \<Rightarrow> (ProvisionController \<times> ctrl_state) outcome" where
  \<comment> \<open>\<open>hostname\<close>, \<open>uuid\<close> and \<open>namespace\<close> are what the system gives\<close>
  "NewProvisionController client provisionerName prov kubeVersion scheme hostname uuid namespace options w =
     (case hostname of
        Inl err \<Rightarrow> Panic (''Error getting hostname: '' @ error_msg err)
      | Inr host \<Rightarrow>
          (case apply_options options
                  (default_controller client provisionerName prov kubeVersion scheme (host @ ''_'' @ uuid) namespace) of
             Ok c \<Rightarrow>
               Ok (c, \<lparr>cs_limiter = queue_limiter c, cs_claimQueue = newQueue, cs_volumeQueue = newQueue,
                       cs_claims = (case pc_claimInformer c of None \<Rightarrow> [] | Some l \<Rightarrow> l),
                       cs_volumes = (case pc_volumeInformer c of None \<Rightarrow> [] | Some l \<Rightarrow> l),
                       cs_classes = (case pc_classInformer c of None \<Rightarrow> [] | Some l \<Rightarrow> l),
                       cs_claimsInProgress = [], cs_store = volume_store c, cs_bindingModewarned = False,
                       cs_world = w\<rparr>)
           | Err err \<Rightarrow> Err err
           | Panic m \<Rightarrow> Panic m))"

section \<open>Informer events\<close>

datatype informer_object = MetaObject string | Tombstone "string option" | NoMeta
  \<comment> \<open>an object with its UID, a tombstone with the UID of its object, something else\<close>

definition getObjectUID :: "informer_object \<Rightarrow> go_error + string" where
  "getObjectUID obj =
     (case obj of
        MetaObject uid \<Rightarrow> Inr uid
      | Tombstone None \<Rightarrow> Inl (ErrorString ''error decoding object tombstone, invalid type'')
      | Tombstone (Some uid) \<Rightarrow> Inr uid
      | NoMeta \<Rightarrow> Inl (ErrorString ''error decoding object, invalid type''))"

definition enqueueClaim :: "informer_object \<Rightarrow> ctrl_state \<Rightarrow> ctrl_state" where
  "enqueueClaim obj s =
     (case getObjectUID obj of
        Inl err \<Rightarrow> s
      | Inr uid \<Rightarrow>
          if rl_NumRequeues (cs_limiter s) uid = 0
          then s\<lparr>cs_claimQueue := wq_Add uid (cs_claimQueue s)\<rparr> else s)"

datatype keyed_object = Keyed string string | KeyTombstone string | Keyless
  \<comment> \<open>namespace and name, the key of a tombstone, something else\<close>

definition object_key :: "keyed_object \<Rightarrow> string option" where
  \<comment> \<open>\<open>cache.DeletionHandlingMetaNamespaceKeyFunc\<close>\<close>
  "object_key obj =
     (case obj of
        Keyed ns n \<Rightarrow> Some (if ns \<noteq> [] then ns @ ''/'' @ n else n)
      | KeyTombstone k \<Rightarrow> Some k
      | Keyless \<Rightarrow> None)"

definition enqueueVolume :: "keyed_object \<Rightarrow> ctrl_state \<Rightarrow> ctrl_state" where
  "enqueueVolume obj s =
     (case object_key obj of
        None \<Rightarrow> s
      | Some key \<Rightarrow>
          if rl_NumRequeues (cs_limiter s) key = 0
          then s\<lparr>cs_volumeQueue := wq_Add key (cs_volumeQueue s)\<rparr> else s)"

definition forgetVolume :: "keyed_object \<Rightarrow> ctrl_state \<Rightarrow> ctrl_state" where
  "forgetVolume obj s =
     (case object_key obj of
        None \<Rightarrow> s
      | Some key \<Rightarrow>
          s\<lparr>cs_limiter := rl_Forget (cs_limiter s) key, cs_volumeQueue := wq_Done key (cs_volumeQueue s)\<rparr>)"

section \<open>Decisions\<close>

definition knownProvisioner :: "ProvisionController \<Rightarrow> string \<Rightarrow> bool" where
  "knownProvisioner c prov \<longleftrightarrow>
     prov = pc_provisionerName c \<or> list_ex (\<lambda>p. p = prov) (pc_additionalProvisionerNames c)"

definition getStorageClass :: "ctrl_state \<Rightarrow> string \<Rightarrow> go_error + StorageClass" where
  "getStorageClass s n =
     (case map_of (cs_classes s) n of
        None \<Rightarrow> Inl (ErrorString (''storageClass '' @ quote n @ '' not found''))
      | Some (ClassV1 cls) \<Rightarrow> Inr cls
      | Some (ClassV1beta1 cls) \<Rightarrow>
          Inr \<lparr>sc_Name = scb_Name cls, sc_Provisioner = scb_Provisioner cls, sc_Parameters = scb_Parameters cls,
               sc_ReclaimPolicy = scb_ReclaimPolicy cls, sc_MountOptions = scb_MountOptions cls,
               sc_AllowVolumeExpansion = scb_AllowVolumeExpansion cls,
               sc_VolumeBindingMode = scb_VolumeBindingMode cls, sc_AllowedTopologies = scb_AllowedTopologies cls\<rparr>
      | Some (ClassOther o') \<Rightarrow> Inl (ErrorString (''cannot convert object to StorageClass: '' @ o')))"

definition shouldProvision :: "ProvisionController \<Rightarrow> nat \<Rightarrow> ctrl_state \<Rightarrow> bool outcome \<times> ctrl_state" where
  "shouldProvision c ref s =
     (let claim = w_claims (cs_world s) ref in
      if pvc_VolumeName claim \<noteq> [] then (Ok False, s)
      else (case getStorageClass s (GetPersistentVolumeClaimClass claim) of
        Inl err \<Rightarrow> (Err err, s)
      | Inr cls \<Rightarrow>
          (let decide = (\<lambda>s'.
                 if AtLeast (pc_kubeVersion c) (semantic [1, 5, 0])
                 then (case map_of (pvc_Annotations (w_claims (cs_world s') ref)) ctrl_annStorageProvisioner of
                         Some prov \<Rightarrow> knownProvisioner c prov
                       | None \<Rightarrow> False)
                 else sc_Provisioner cls = pc_provisionerName c)
           in case pr_ShouldProvision (pc_provisioner c) of
                None \<Rightarrow> (Ok (decide s), s)
              | Some qualifier \<Rightarrow>
                  (case qualifier ref (sc_VolumeBindingMode cls) (cs_world s) of
                     (Ok b, w') \<Rightarrow> (let s' = s\<lparr>cs_world := w'\<rparr> in (Ok (b \<and> decide s'), s'))
                   | (Err err, w') \<Rightarrow> (Err err, s\<lparr>cs_world := w'\<rparr>)
                   | (Panic m, w') \<Rightarrow> (Panic m, s\<lparr>cs_world := w'\<rparr>)))))"

definition checkFinalizer :: "PersistentVolume \<Rightarrow> string \<Rightarrow> bool" where
  "checkFinalizer volume finalizer \<longleftrightarrow> list_ex (\<lambda>f. f = finalizer) (vol_Finalizers volume)"

definition shouldDelete :: "ProvisionController \<Rightarrow> PersistentVolume \<Rightarrow> world \<Rightarrow> bool" where
  "shouldDelete c volume w =
     (if (case pr_ShouldDelete (pc_provisioner c) of None \<Rightarrow> False | Some guard \<Rightarrow> \<not> guard volume w) then False
      else if AtLeast (pc_kubeVersion c) (semantic [1, 9, 0]) \<and>
          (pc_addFinalizer c \<and> \<not> checkFinalizer volume finalizerPV \<and> vol_DeletionTimestamp volume \<noteq> None \<or>
           vol_DeletionTimestamp volume \<noteq> None) then False
      else if (if AtLeast (pc_kubeVersion c) (semantic [1, 5, 0]) then vol_Phase volume \<noteq> VolumeReleased
               else vol_Phase volume \<noteq> VolumeReleased \<and> vol_Phase volume \<noteq> VolumeFailed) then False
      else if vol_ReclaimPolicy volume \<noteq> ReclaimDelete then False
      else (case map_of (vol_Annotations volume) annDynamicallyProvisioned of
              None \<Rightarrow> False
            | Some ann \<Rightarrow> ann = pc_provisionerName c))"

definition supportsBlock :: "ProvisionController \<Rightarrow> bool" where
  "supportsBlock c = (case pr_SupportsBlock (pc_provisioner c) of Some b \<Rightarrow> b | None \<Rightarrow> False)"

definition canProvision :: "ProvisionController \<Rightarrow> PersistentVolumeClaim \<Rightarrow> go_error option" where
  "canProvision c claim =
     (if CheckPersistentVolumeClaimModeBlock claim \<and> \<not> supportsBlock c
      then Some (ErrorString (pc_provisionerName c @ '' does not support block volume provisioning''))
      else None)"

definition getProvisionedVolumeNameForClaim :: "PersistentVolumeClaim \<Rightarrow> string" where
  "getProvisionedVolumeNameForClaim claim = ''pvc-'' @ pvc_UID claim"

section \<open>Provisioning\<close>

definition SetMetaDataAnnotation :: "annotations \<Rightarrow> string \<Rightarrow> string \<Rightarrow> annotations" where
  "SetMetaDataAnnotation anns ann val = gomap_put anns ann val"

definition finish_volume ::
    "ProvisionController \<Rightarrow> string \<Rightarrow> ObjectReference \<Rightarrow> PersistentVolume \<Rightarrow> PersistentVolume" where
  \<comment> \<open>what the controller adds to the volume that the provisioner gives\<close>
  "finish_volume c claimClass claimRef volume =
     (let v1 = volume\<lparr>vol_ClaimRef := Some claimRef\<rparr>;
          v2 = (if pc_addFinalizer c \<and> \<not> checkFinalizer v1 finalizerPV
                then v1\<lparr>vol_Finalizers := vol_Finalizers v1 @ [finalizerPV]\<rparr> else v1);
          v3 = v2\<lparr>vol_Annotations :=
                 SetMetaDataAnnotation (vol_Annotations v2) annDynamicallyProvisioned (pc_provisionerName c)\<rparr>
      in if AtLeast (pc_kubeVersion c) (semantic [1, 6, 0])
         then v3\<lparr>vol_StorageClassName := claimClass\<rparr>
         else v3\<lparr>vol_Annotations := SetMetaDataAnnotation (vol_Annotations v3) annClass claimClass\<rparr>)"

definition warn :: "PersistentVolumeClaim \<Rightarrow> string \<Rightarrow> ctrl_state \<Rightarrow> ctrl_state" where
  "warn claim msg s =
     s\<lparr>cs_world := record_event (claimToClaimKey claim) EventTypeWarning ''ProvisioningFailed'' msg (cs_world s)\<rparr>"

definition selected_node ::
    "ProvisionController \<Rightarrow> PersistentVolumeClaim \<Rightarrow> world \<Rightarrow> (go_error + string option) \<times> world" where
  "selected_node c claim w =
     (if AtLeast (pc_kubeVersion c) (semantic [1, 11, 0])
      then (case map_of (pvc_Annotations claim) ctrl_annSelectedNode of
              None \<Rightarrow> (Inr None, w)
            | Some nodeName \<Rightarrow>
                (case k_GetNode (pc_client c) nodeName w of
                   (Inl err, w') \<Rightarrow> (Inl (ErrorString (''failed to get target node: '' @ error_msg err)), w')
                 | (Inr node, w') \<Rightarrow> (Inr (Some node), w')))
      else (Inr None, w))"

definition call_provision ::
    "ProvisionController \<Rightarrow> ProvisionOptions \<Rightarrow> world \<Rightarrow> (PersistentVolume outcome \<times> ProvisioningState) \<times> world" where
  "call_provision c options w =
     (case pr_ProvisionExt (pc_provisioner c) of
        Some ext \<Rightarrow> ext options w
      | None \<Rightarrow> (let (r, w') = pr_Provision (pc_provisioner c) options w in ((r, ProvisioningFinished), w')))"

definition store_result ::
    "PersistentVolumeClaim \<Rightarrow> PersistentVolume \<Rightarrow> ctrl_state \<Rightarrow> (ProvisioningState \<times> unit outcome) \<times> ctrl_state" where
  "store_result claim volume s =
     (let (r, store, w) = StoreVolume claim volume (cs_store s) (cs_world s)
      in ((ProvisioningFinished, r), s\<lparr>cs_store := store, cs_world := w\<rparr>))"

definition provision_and_store ::
    "ProvisionController \<Rightarrow> PersistentVolumeClaim \<Rightarrow> ObjectReference \<Rightarrow> ProvisionOptions \<Rightarrow> ctrl_state \<Rightarrow>
     (ProvisioningState \<times> unit outcome) \<times> ctrl_state" where
  \<comment> \<open>from the event \<open>Provisioning\<close> on\<close>
  "provision_and_store c claim claimRef options s =
     (let claimClass = GetPersistentVolumeClaimClass claim;
          w = record_event (claimToClaimKey claim) EventTypeNormal ''Provisioning''
                (''External provisioner is provisioning volume for claim '' @ quote (claimToClaimKey claim)) (cs_world s)
      in case call_provision c options w of
           ((Panic m, result), w') \<Rightarrow> ((result, Panic m), s\<lparr>cs_world := w'\<rparr>)
         | ((Err (IgnoredError reason), result), w') \<Rightarrow> ((ProvisioningFinished, Ok ()), s\<lparr>cs_world := w'\<rparr>)
         | ((Err err, result), w') \<Rightarrow>
             (let e = ''failed to provision volume with StorageClass '' @ quote claimClass @ '': '' @ error_msg err
              in ((result, Err (ErrorString e)), warn claim e (s\<lparr>cs_world := w'\<rparr>)))
         | ((Ok volume, result), w') \<Rightarrow>
             store_result claim (finish_volume c claimClass claimRef volume) (s\<lparr>cs_world := w'\<rparr>))"

definition provisionClaimOperation ::
    "ProvisionController \<Rightarrow> nat \<Rightarrow> ctrl_state \<Rightarrow> (ProvisioningState \<times> unit outcome) \<times> ctrl_state" where
  "provisionClaimOperation c ref s =
     (let claim = w_claims (cs_world s) ref;
          claimClass = GetPersistentVolumeClaimClass claim;
          pvName = getProvisionedVolumeNameForClaim claim;
          (got, w1) = k_GetPV (pc_client c) pvName (cs_world s);
          s1 = s\<lparr>cs_world := w1\<rparr>
      in case got of
           Inr _ \<Rightarrow> ((ProvisioningFinished, Ok ()), s1)
         | Inl _ \<Rightarrow>
       (case GetReference (pc_scheme c) claim of
          Inl _ \<Rightarrow> ((ProvisioningNoChange, Ok ()), s1)
        | Inr claimRef \<Rightarrow>
       (case canProvision c claim of
          Some err \<Rightarrow> ((ProvisioningFinished, Ok ()), warn claim (error_msg err) s1)
        | None \<Rightarrow>
       (case getStorageClass s1 claimClass of
          Inl err \<Rightarrow> ((ProvisioningFinished, Err err), s1)
        | Inr cls \<Rightarrow>
       (let s2 = (if sc_VolumeBindingMode cls = Some VolumeBindingImmediate
                  then s1\<lparr>cs_bindingModewarned := True\<rparr> else s1)
        in if \<not> knownProvisioner c (sc_Provisioner cls) then ((ProvisioningFinished, Ok ()), s2)
           else (case selected_node c claim (cs_world s2) of
                   (Inl err, w2) \<Rightarrow>
                     ((ProvisioningNoChange, Err err), warn claim (error_msg err) (s2\<lparr>cs_world := w2\<rparr>))
                 | (Inr selectedNode, w2) \<Rightarrow>
                     provision_and_store c claim claimRef
                       \<lparr>po_StorageClass = cls, po_PVName = pvName, po_PVC = claim, po_SelectedNode = selectedNode\<rparr>
                       (s2\<lparr>cs_world := w2\<rparr>)))))))"

definition syncClaim ::
    "ProvisionController \<Rightarrow> claim_object \<Rightarrow> ctrl_state \<Rightarrow> (ProvisioningState \<times> unit outcome) \<times> ctrl_state" where
  "syncClaim c obj s =
     (case obj of
        ForeignClaim o' \<Rightarrow> ((ProvisioningFinished, Err (ErrorString (''expected claim but got '' @ o'))), s)
      | ClaimObject ref \<Rightarrow>
          (case shouldProvision c ref s of
             (Panic m, s') \<Rightarrow> ((ProvisioningFinished, Panic m), s')
           | (Err err, s') \<Rightarrow> ((ProvisioningFinished, Err err), s')
           | (Ok should, s') \<Rightarrow>
               if should then provisionClaimOperation c ref s' else ((ProvisioningFinished, Ok ()), s')))"

definition claim_object_UID :: "world \<Rightarrow> claim_object \<Rightarrow> string" where
  "claim_object_UID w obj = (case obj of ClaimObject ref \<Rightarrow> pvc_UID (w_claims w ref) | ForeignClaim uid \<Rightarrow> uid)"

definition syncClaimHandler ::
    "ProvisionController \<Rightarrow> string \<Rightarrow> ctrl_state \<Rightarrow> (ProvisioningState \<times> unit outcome) \<times> ctrl_state" where
  "syncClaimHandler c key s =
     (let objs = filter (\<lambda>obj. claim_object_UID (cs_world s) obj = key) (cs_claims s);
          claimObj = (case objs of obj # _ \<Rightarrow> Some obj | [] \<Rightarrow> map_of (cs_claimsInProgress s) key)
      in case claimObj of
           None \<Rightarrow> ((ProvisioningFinished, Ok ()), s)
         | Some obj \<Rightarrow>
             (case syncClaim c obj s of
                ((status, Panic m), s') \<Rightarrow> ((status, Panic m), s')
              | ((status, err), s') \<Rightarrow>
                  if err = Ok () \<or> status = ProvisioningFinished
                  then ((status, err), s'\<lparr>cs_claimsInProgress := gomap_del (cs_claimsInProgress s') key\<rparr>)
                  else if status = ProvisioningInBackground
                  then ((status, err), s'\<lparr>cs_claimsInProgress := gomap_put (cs_claimsInProgress s') key obj\<rparr>)
                  else ((status, err), s')))"

section \<open>Deleting\<close>

definition remove_finalizer :: "ProvisionController \<Rightarrow> PersistentVolume \<Rightarrow> string \<Rightarrow> ctrl_state \<Rightarrow> unit outcome \<times> ctrl_state" where
  \<comment> \<open>after the object is deleted; the first volume is the copy read before\<close>
  "remove_finalizer c newVolume n s =
     (if pc_addFinalizer c \<and> vol_Finalizers newVolume \<noteq> [] then
        (case k_GetPV (pc_client c) n (cs_world s) of
           (Inl err, w') \<Rightarrow> (if \<not> apierrs_IsNotFound err then Err err else Ok (), s\<lparr>cs_world := w'\<rparr>)
         | (Inr current, w') \<Rightarrow>
             (let finalizers = filter (\<lambda>f. f \<noteq> finalizerPV) (vol_Finalizers current)
              in if length finalizers \<noteq> length (vol_Finalizers current)
                 then (case k_UpdatePV (pc_client c) (current\<lparr>vol_Finalizers := finalizers\<rparr>) w' of
                         (Some err, w'') \<Rightarrow>
                           (if \<not> apierrs_IsNotFound err then Err err else Ok (), s\<lparr>cs_world := w''\<rparr>)
                       | (None, w'') \<Rightarrow> (Ok (), s\<lparr>cs_world := w''\<rparr>))
                 else (Ok (), s\<lparr>cs_world := w'\<rparr>)))
      else (Ok (), s))"

definition deleteVolumeOperation :: "ProvisionController \<Rightarrow> PersistentVolume \<Rightarrow> ctrl_state \<Rightarrow> unit outcome \<times> ctrl_state" where
  "deleteVolumeOperation c volume s =
     (case k_GetPV (pc_client c) (vol_Name volume) (cs_world s) of
        (Inl err, w1) \<Rightarrow> (Ok (), s\<lparr>cs_world := w1\<rparr>)
      | (Inr newVolume, w1) \<Rightarrow>
          if \<not> shouldDelete c newVolume w1 then (Ok (), s\<lparr>cs_world := w1\<rparr>)
          else (case pr_Delete (pc_provisioner c) volume w1 of
             (Panic m, w2) \<Rightarrow> (Panic m, s\<lparr>cs_world := w2\<rparr>)
           | (Err (IgnoredError reason), w2) \<Rightarrow> (Ok (), s\<lparr>cs_world := w2\<rparr>)
           | (Err err, w2) \<Rightarrow>
               (Err err, s\<lparr>cs_world := record_event (vol_Name volume) EventTypeWarning ''VolumeFailedDelete'' (error_msg err) w2\<rparr>)
           | (Ok _, w2) \<Rightarrow>
               (case k_DeletePV (pc_client c) (vol_Name volume) w2 of
                  (Some err, w3) \<Rightarrow> (Err err, s\<lparr>cs_world := w3\<rparr>)
                | (None, w3) \<Rightarrow> remove_finalizer c newVolume (vol_Name volume) (s\<lparr>cs_world := w3\<rparr>))))"

definition syncVolume :: "ProvisionController \<Rightarrow> volume_object \<Rightarrow> ctrl_state \<Rightarrow> unit outcome \<times> ctrl_state" where
  "syncVolume c obj s =
     (case obj of
        ForeignVolume o' \<Rightarrow> (Err (ErrorString (''expected volume but got '' @ o')), s)
      | VolumeObject volume \<Rightarrow>
          if shouldDelete c volume (cs_world s) then deleteVolumeOperation c volume s else (Ok (), s))"

definition syncVolumeHandler :: "ProvisionController \<Rightarrow> string \<Rightarrow> ctrl_state \<Rightarrow> unit outcome \<times> ctrl_state" where
  "syncVolumeHandler c key s =
     (case map_of (cs_volumes s) key of None \<Rightarrow> (Ok (), s) | Some obj \<Rightarrow> syncVolume c obj s)"

section \<open>Workers\<close>

definition retry_claim :: "string \<Rightarrow> ctrl_state \<Rightarrow> ctrl_state" where
  "retry_claim key s =
     (let (lim, q) = AddRateLimited key (cs_limiter s, cs_claimQueue s) in s\<lparr>cs_limiter := lim, cs_claimQueue := q\<rparr>)"

definition claim_work :: "ProvisionController \<Rightarrow> string \<Rightarrow> ctrl_state \<Rightarrow> unit outcome \<times> ctrl_state" where
  \<comment> \<open>the function literal of \<open>processNextClaimWorkItem\<close>, the deferred \<open>Done\<close> included\<close>
  "claim_work c key s =
     (let finish = (\<lambda>s'. s'\<lparr>cs_claimQueue := wq_Done key (cs_claimQueue s')\<rparr>)
      in case syncClaimHandler c key s of
           ((_, Panic m), s1) \<Rightarrow> (Panic m, finish s1)
         | ((_, Err err), s1) \<Rightarrow>
             (Err (ErrorString (''error syncing claim '' @ quote key @ '': '' @ error_msg err)),
              finish (if pc_failedProvisionThreshold c = 0 then retry_claim key s1
                      else if int (rl_NumRequeues (cs_limiter s1) key) < pc_failedProvisionThreshold c
                      then retry_claim key s1
                      else s1\<lparr>cs_claimsInProgress := gomap_del (cs_claimsInProgress s1) key\<rparr>))
         | ((_, Ok _), s1) \<Rightarrow>
             (Ok (), finish (s1\<lparr>cs_limiter := rl_Forget (cs_limiter s1) key,
                                cs_claimsInProgress := gomap_del (cs_claimsInProgress s1) key\<rparr>)))"

definition processNextClaimWorkItem :: "ProvisionController \<Rightarrow> ctrl_state \<Rightarrow> (bool outcome \<times> ctrl_state) option" where
  \<comment> \<open>\<open>None\<close> when the worker blocks\<close>
  "processNextClaimWorkItem c s =
     (case wq_Get (cs_claimQueue s) of
        (Blocked, _) \<Rightarrow> None
      | (ShutDown, _) \<Rightarrow> Some (Ok False, s)
      | (Item key, q) \<Rightarrow>
          (case claim_work c key (s\<lparr>cs_claimQueue := q\<rparr>) of
             (Panic m, s') \<Rightarrow> Some (Panic m, s')
           | (_, s') \<Rightarrow> Some (Ok True, s')))"

definition retry_volume :: "string \<Rightarrow> ctrl_state \<Rightarrow> ctrl_state" where
  "retry_volume key s =
     (let (lim, q) = AddRateLimited key (cs_limiter s, cs_volumeQueue s) in s\<lparr>cs_limiter := lim, cs_volumeQueue := q\<rparr>)"

definition volume_work :: "ProvisionController \<Rightarrow> string \<Rightarrow> ctrl_state \<Rightarrow> unit outcome \<times> ctrl_state" where
  "volume_work c key s =
     (let finish = (\<lambda>s'. s'\<lparr>cs_volumeQueue := wq_Done key (cs_volumeQueue s')\<rparr>)
      in case syncVolumeHandler c key s of
           (Panic m, s1) \<Rightarrow> (Panic m, finish s1)
         | (Err err, s1) \<Rightarrow>
             (Err (ErrorString (''error syncing volume '' @ quote key @ '': '' @ error_msg err)),
              finish (if pc_failedDeleteThreshold c = 0 then retry_volume key s1
                      else if int (rl_NumRequeues (cs_limiter s1) key) < pc_failedDeleteThreshold c
                      then retry_volume key s1
                      else s1))
         | (Ok _, s1) \<Rightarrow> (Ok (), finish (s1\<lparr>cs_limiter := rl_Forget (cs_limiter s1) key\<rparr>)))"

definition processNextVolumeWorkItem :: "ProvisionController \<Rightarrow> ctrl_state \<Rightarrow> (bool outcome \<times> ctrl_state) option" where
  "processNextVolumeWorkItem c s =
     (case wq_Get (cs_volumeQueue s) of
        (Blocked, _) \<Rightarrow> None
      | (ShutDown, _) \<Rightarrow> Some (Ok False, s)
      | (Item key, q) \<Rightarrow>
          (case volume_work c key (s\<lparr>cs_volumeQueue := q\<rparr>) of
             (Panic m, s') \<Rightarrow> Some (Panic m, s')
           | (_, s') \<Rightarrow> Some (Ok True, s')))"

end
