(* ===== verification/Controller_Steps.thy ===== *)
theory Controller_Steps
  imports Provision_Controller
begin

text \<open>
  The provision controller as a transition system: informer events, workers that take a key from a
  queue and finish it later, timers of the delaying queues, and an environment that changes the
  informer caches, the API server and the node at any time. What the handlers leave alone, the
  invariant of the reachable states, and the life of a key in the claim queue.
\<close>

section \<open>What the handlers leave alone\<close>

definition same_work :: "ctrl_state \<Rightarrow> ctrl_state \<Rightarrow> bool" where
  "same_work s s' \<longleftrightarrow> cs_limiter s' = cs_limiter s \<and> cs_claimQueue s' = cs_claimQueue s \<and>
     cs_volumeQueue s' = cs_volumeQueue s \<and> cs_claims s' = cs_claims s \<and> cs_volumes s' = cs_volumes s \<and>
     cs_classes s' = cs_classes s \<and> cs_claimsInProgress s' = cs_claimsInProgress s"

lemma same_work_world [simp]:
  "same_work s (s\<lparr>cs_world := w\<rparr>)" "same_work s (s\<lparr>cs_store := st, cs_world := w\<rparr>)"
  "same_work s (s\<lparr>cs_bindingModewarned := b\<rparr>)" "same_work s (warn claim msg s)" "same_work s s"
  by (simp_all add: same_work_def warn_def)

lemma same_work_trans: "same_work s t \<Longrightarrow> same_work t u \<Longrightarrow> same_work s u"
  by (simp add: same_work_def)

lemma shouldProvision_work: "shouldProvision c ref s = (r, s') \<Longrightarrow> same_work s s'"
  by (auto simp: shouldProvision_def Let_def split: if_splits sum.splits option.splits prod.splits outcome.splits)

lemma provision_and_store_work:
  assumes "provision_and_store c claim cr opts s = (r, s')"
  shows "same_work s s'"
proof -
  have st: "same_work t u" if "store_result claim v t = (q, u)" for v t q u
    using that by (auto simp: store_result_def Let_def split: prod.splits)
  have w: "same_work s (s\<lparr>cs_world := x\<rparr>)" for x by simp
  show ?thesis
    using assms same_work_trans [OF w st] same_work_trans [OF w same_work_world(4)]
    by (auto simp: provision_and_store_def Let_def split: prod.splits outcome.splits go_error.splits)
qed

definition quiet :: "world \<Rightarrow> world \<Rightarrow> bool" where
  \<comment> \<open>nothing happened but events and requests to the API server that change nothing\<close>
  "quiet w w' \<longleftrightarrow> w_pvs w' = w_pvs w \<and> w_os w' = w_os w \<and> w_claims w' = w_claims w"

definition quiet_client :: "kube_client \<Rightarrow> bool" where
  "quiet_client k \<longleftrightarrow> (\<forall>n w. quiet w (snd (k_GetPV k n w)) \<and> quiet w (snd (k_GetNode k n w)))"

lemma quiet_refl [simp]: "quiet w w"
  by (simp add: quiet_def)

lemma quiet_trans: "quiet u v \<Longrightarrow> quiet v w \<Longrightarrow> quiet u w"
  by (simp add: quiet_def)

lemma quiet_event [simp]: "quiet w (record_event obj ty reason msg w)"
  by (simp add: quiet_def)

lemma quiet_getPV: "quiet_client k \<Longrightarrow> k_GetPV k n w = (r, w') \<Longrightarrow> quiet w w'"
  unfolding quiet_client_def by (metis snd_conv)

lemma quiet_getNode: "quiet_client k \<Longrightarrow> k_GetNode k n w = (r, w') \<Longrightarrow> quiet w w'"
  unfolding quiet_client_def by (metis snd_conv)

lemma quiet_selected_node: "quiet_client (pc_client c) \<Longrightarrow> selected_node c claim w = (r, w') \<Longrightarrow> quiet w w'"
  using quiet_getNode by (auto simp: selected_node_def split: if_splits option.splits prod.splits sum.splits)

text \<open>A provisioning operation stops early without touching anything, or it calls the provisioner.\<close>

definition untouched :: "ProvisionController \<Rightarrow> ctrl_state \<Rightarrow> ctrl_state \<Rightarrow> bool" where
  "untouched c s s' \<longleftrightarrow> same_work s s' \<and> cs_store s' = cs_store s \<and>
     (quiet_client (pc_client c) \<longrightarrow> quiet (cs_world s) (cs_world s'))"

lemma untouched_trans: "untouched c s t \<Longrightarrow> untouched c t u \<Longrightarrow> untouched c s u"
  unfolding untouched_def using same_work_trans quiet_trans by auto

lemma untouched_world: "(quiet_client (pc_client c) \<Longrightarrow> quiet (cs_world s) w) \<Longrightarrow> untouched c s (s\<lparr>cs_world := w\<rparr>)"
  by (simp add: untouched_def)

lemma untouched_warn [simp]: "untouched c s (warn claim msg s)"
  by (simp add: untouched_def warn_def)

lemma untouched_mode [simp]: "untouched c s (s\<lparr>cs_bindingModewarned := b\<rparr>)" "untouched c s s"
  by (simp_all add: untouched_def)

lemma provisionClaimOperation_cases:
  assumes "provisionClaimOperation c ref s = (r, s')"
  defines "claim \<equiv> w_claims (cs_world s) ref"
  obtains (early) "untouched c s s'"
  | (go) e w1 claimRef cls node s2 where
      "k_GetPV (pc_client c) (getProvisionedVolumeNameForClaim claim) (cs_world s) = (Inl e, w1)"
      "GetReference (pc_scheme c) claim = Inr claimRef" "canProvision c claim = None"
      "getStorageClass s (GetPersistentVolumeClaimClass claim) = Inr cls" "knownProvisioner c (sc_Provisioner cls)"
      "untouched c s s2"
      "provision_and_store c claim claimRef \<lparr>po_StorageClass = cls,
         po_PVName = getProvisionedVolumeNameForClaim claim, po_PVC = claim, po_SelectedNode = node\<rparr> s2 = (r, s')"
proof -
  obtain got w1 where get: "k_GetPV (pc_client c) (getProvisionedVolumeNameForClaim claim) (cs_world s) = (got, w1)"
    by fastforce
  let ?s1 = "s\<lparr>cs_world := w1\<rparr>"
  have s1: "untouched c s ?s1" using get quiet_getPV by (blast intro: untouched_world)
  have cls1: "getStorageClass ?s1 n = getStorageClass s n" for n by (simp add: getStorageClass_def)
  note run = assms(1) [unfolded provisionClaimOperation_def Let_def, folded claim_def, unfolded get prod.case cls1]
  show thesis
  proof (cases got)
    case (Inr v)
    then show thesis using run s1 early by simp
  next
    case got: (Inl e)
    show thesis
    proof (cases "GetReference (pc_scheme c) claim")
      case (Inl e')
      then show thesis using run s1 early got by simp
    next
      case ref: (Inr claimRef)
      show thesis
      proof (cases "canProvision c claim")
        case (Some e')
        then show thesis using run early got ref untouched_trans [OF s1 untouched_warn] by auto
      next
        case can: None
        show thesis
        proof (cases "getStorageClass s (GetPersistentVolumeClaimClass claim)")
          case (Inl e')
          then show thesis using run s1 early got ref can by simp
        next
          case cls: (Inr cls)
          let ?s2 = "if sc_VolumeBindingMode cls = Some VolumeBindingImmediate then ?s1\<lparr>cs_bindingModewarned := True\<rparr> else ?s1"
          have s2: "untouched c s ?s2" using s1 untouched_trans [OF s1 untouched_mode(1)] by simp
          obtain sel w2 where sel: "selected_node c claim (cs_world ?s2) = (sel, w2)" by fastforce
          have s3: "untouched c s (?s2\<lparr>cs_world := w2\<rparr>)"
            using untouched_trans [OF s2 untouched_world] quiet_selected_node [OF _ sel] by blast
          note run' = run [unfolded got ref can cls sum.case option.case sel prod.case]
          show thesis
          proof (cases "knownProvisioner c (sc_Provisioner cls)")
            case False
            then have "s' = ?s2" using run' by auto
            then show thesis using s2 early by blast
          next
            case True
            then show thesis
            proof (cases sel)
              case (Inl e')
              then show thesis using run' True untouched_trans [OF s3 untouched_warn] early by auto
            next
              case (Inr node)
              then show thesis using run' True go [OF _ ref can cls True s3, of e w1 node] get got by simp
            qed
          qed
        qed
      qed
    qed
  qed
qed

lemma provisionClaimOperation_work:
  assumes "provisionClaimOperation c ref s = (r, s')"
  shows "same_work s s'"
  using assms
proof (cases rule: provisionClaimOperation_cases)
  case early
  then show ?thesis by (simp add: untouched_def)
next
  case (go e w1 claimRef cls node s2)
  then show ?thesis using same_work_trans provision_and_store_work [OF go(7)] by (auto simp: untouched_def)
qed

lemma syncClaim_work:
  assumes "syncClaim c obj s = (r, s')"
  shows "same_work s s'"
proof (cases obj)
  case (ForeignClaim u)
  then show ?thesis using assms by (simp add: syncClaim_def)
next
  case (ClaimObject ref)
  obtain b s1 where sp: "shouldProvision c ref s = (b, s1)" by fastforce
  show ?thesis
    using assms ClaimObject sp shouldProvision_work [OF sp] same_work_trans [OF _ provisionClaimOperation_work]
    by (auto simp: syncClaim_def split: outcome.splits if_splits)
qed

text \<open>
  A synchronised claim leaves both queues and the limiter alone, touches the claims in progress at
  its own key only, and leaves it there only together with an error.
\<close>

lemma syncClaimHandler_frame:
  assumes "syncClaimHandler c key s = ((st, r), s')"
  shows "cs_limiter s' = cs_limiter s" "cs_claimQueue s' = cs_claimQueue s" "cs_volumeQueue s' = cs_volumeQueue s"
    and "k \<noteq> key \<Longrightarrow> map_of (cs_claimsInProgress s') k = map_of (cs_claimsInProgress s) k"
proof -
  let ?objs = "filter (\<lambda>obj. claim_object_UID (cs_world s) obj = key) (cs_claims s)"
  let ?obj = "case ?objs of obj # _ \<Rightarrow> Some obj | [] \<Rightarrow> map_of (cs_claimsInProgress s) key"
  have "cs_limiter s' = cs_limiter s \<and> cs_claimQueue s' = cs_claimQueue s \<and> cs_volumeQueue s' = cs_volumeQueue s \<and>
    (k \<noteq> key \<longrightarrow> map_of (cs_claimsInProgress s') k = map_of (cs_claimsInProgress s) k)"
  proof (cases ?obj)
    case None
    then show ?thesis using assms by (simp add: syncClaimHandler_def)
  next
    case (Some obj)
    obtain st1 r1 s1 where sync: "syncClaim c obj s = ((st1, r1), s1)" by (metis surj_pair)
    have "same_work s s1" by (rule syncClaim_work [OF sync])
    moreover have "s' = s1 \<or> s' = s1\<lparr>cs_claimsInProgress := gomap_del (cs_claimsInProgress s1) key\<rparr> \<or>
        s' = s1\<lparr>cs_claimsInProgress := gomap_put (cs_claimsInProgress s1) key obj\<rparr>"
      using assms Some sync by (auto simp: syncClaimHandler_def split: outcome.splits if_splits)
    ultimately show ?thesis by (auto simp: same_work_def)
  qed
  then show "cs_limiter s' = cs_limiter s" "cs_claimQueue s' = cs_claimQueue s" "cs_volumeQueue s' = cs_volumeQueue s"
    "k \<noteq> key \<Longrightarrow> map_of (cs_claimsInProgress s') k = map_of (cs_claimsInProgress s) k" by blast+
qed

lemma syncVolumeHandler_frame:
  assumes "syncVolumeHandler c key s = (r, s')"
  shows "same_work s s'"
proof -
  have fin: "same_work t u" if "remove_finalizer c v n t = (q, u)" for v n t q u
    using that by (auto simp: remove_finalizer_def Let_def split: if_splits prod.splits sum.splits option.splits)
  have w: "same_work t (t\<lparr>cs_world := x\<rparr>)" for t x by simp
  have "same_work s u" if "deleteVolumeOperation c v s = (q, u)" for v q u
    using that same_work_trans [OF w fin]
    by (auto simp: deleteVolumeOperation_def split: if_splits prod.splits sum.splits option.splits outcome.splits go_error.splits)
  then show ?thesis
    using assms by (auto simp: syncVolumeHandler_def syncVolume_def split: option.splits volume_object.splits if_splits)
qed

section \<open>The transition system\<close>

text \<open>
  A worker takes a key from its queue in one step and finishes it in a later one, so two workers
  overlap; \<open>vk\<close> is the set of keys that volume objects may have. A worker that finishes a volume
  need not hold its key alone (a volume key can be handed out twice, see \<open>forget_duplicates\<close>).
\<close>

inductive ctrl_step :: "ProvisionController \<Rightarrow> (string \<Rightarrow> bool) \<Rightarrow> ctrl_state \<Rightarrow> ctrl_state \<Rightarrow> bool" for c vk where
  environment: "ctrl_step c vk s (s\<lparr>cs_claims := cl, cs_volumes := vs, cs_classes := cls, cs_world := w\<rparr>)"
| claim_event: "ctrl_step c vk s (enqueueClaim obj s)"
| volume_event: "(case object_key vobj of None \<Rightarrow> True | Some key \<Rightarrow> vk key) \<Longrightarrow> ctrl_step c vk s (enqueueVolume vobj s)"
| volume_deleted: "(case object_key vobj of None \<Rightarrow> True | Some key \<Rightarrow> vk key) \<Longrightarrow> ctrl_step c vk s (forgetVolume vobj s)"
| claim_get: "wq_Get (cs_claimQueue s) = (Item key, q) \<Longrightarrow> ctrl_step c vk s (s\<lparr>cs_claimQueue := q\<rparr>)"
| claim_done: "key \<in> wq_processing (cs_claimQueue s) \<Longrightarrow> claim_work c key s = (r, s') \<Longrightarrow> (\<forall>m. r \<noteq> Panic m) \<Longrightarrow>
    ctrl_step c vk s s'"
| claim_timer: "ctrl_step c vk s (s\<lparr>cs_claimQueue := wq_ready key (cs_claimQueue s)\<rparr>)"
| volume_get: "wq_Get (cs_volumeQueue s) = (Item key, q) \<Longrightarrow> ctrl_step c vk s (s\<lparr>cs_volumeQueue := q\<rparr>)"
| volume_done: "vk key \<Longrightarrow> volume_work c key s = (r, s') \<Longrightarrow> (\<forall>m. r \<noteq> Panic m) \<Longrightarrow> ctrl_step c vk s s'"
| volume_timer: "ctrl_step c vk s (s\<lparr>cs_volumeQueue := wq_ready key (cs_volumeQueue s)\<rparr>)"
| store_work: "cs_store s = QueueStore qs \<Longrightarrow> store_processNextWorkItem qs (cs_world s) = Some (again, qs', w') \<Longrightarrow>
    ctrl_step c vk s (s\<lparr>cs_store := QueueStore qs', cs_world := w'\<rparr>)"

inductive ctrl_steps :: "ProvisionController \<Rightarrow> (string \<Rightarrow> bool) \<Rightarrow> ctrl_state \<Rightarrow> ctrl_state \<Rightarrow> bool" for c vk s where
  steps_refl: "ctrl_steps c vk s s"
| steps_step: "ctrl_steps c vk s t \<Longrightarrow> ctrl_step c vk t u \<Longrightarrow> ctrl_steps c vk s u"

inductive_cases ctrl_stepE: "ctrl_step c vk s s'"

lemma steps_invariant:
  assumes "ctrl_steps c vk s t" "P s" and step: "\<And>x y. P x \<Longrightarrow> ctrl_step c vk x y \<Longrightarrow> P y"
  shows "P t"
  using assms(1,2) by induction (auto intro: step)

subsection \<open>One finished claim\<close>

lemma claim_work_cases:
  assumes "claim_work c key s = (r, s')"
  obtains (panic) m where "r = Panic m"
  | (forget) st s1 where "syncClaimHandler c key s = ((st, Ok ()), s1)" "r = Ok ()"
      "cs_limiter s' = rl_Forget (cs_limiter s) key" "cs_claimQueue s' = wq_Done key (cs_claimQueue s)"
      "cs_claimsInProgress s' = gomap_del (cs_claimsInProgress s1) key" "cs_volumeQueue s' = cs_volumeQueue s"
  | (retry) st e s1 d where "syncClaimHandler c key s = ((st, Err e), s1)" "\<exists>e'. r = Err e'"
      "pc_failedProvisionThreshold c = 0 \<or> int (rl_NumRequeues (cs_limiter s) key) < pc_failedProvisionThreshold c"
      "cs_limiter s' = snd (rl_When (cs_limiter s) key)"
      "cs_claimQueue s' = wq_Done key (wq_AddAfter key d (cs_claimQueue s))"
      "cs_claimsInProgress s' = cs_claimsInProgress s1" "cs_volumeQueue s' = cs_volumeQueue s"
  | (give_up) st e s1 where "syncClaimHandler c key s = ((st, Err e), s1)" "\<exists>e'. r = Err e'"
      "pc_failedProvisionThreshold c \<noteq> 0" "pc_failedProvisionThreshold c \<le> int (rl_NumRequeues (cs_limiter s) key)"
      "cs_limiter s' = cs_limiter s" "cs_claimQueue s' = wq_Done key (cs_claimQueue s)"
      "cs_claimsInProgress s' = gomap_del (cs_claimsInProgress s1) key" "cs_volumeQueue s' = cs_volumeQueue s"
proof -
  obtain st q s1 where sync: "syncClaimHandler c key s = ((st, q), s1)" by (metis surj_pair)
  have fr: "cs_limiter s1 = cs_limiter s" "cs_claimQueue s1 = cs_claimQueue s" "cs_volumeQueue s1 = cs_volumeQueue s"
    using syncClaimHandler_frame [OF sync] by blast+
  obtain d lim where wh: "rl_When (cs_limiter s) key = (d, lim)" by fastforce
  note run = assms [unfolded claim_work_def Let_def sync prod.case]
  show thesis
  proof (cases q)
    case (Ok u)
    then show thesis using run fr sync by (auto intro!: forget)
  next
    case (Err e)
    show thesis
    proof (cases "pc_failedProvisionThreshold c = 0 \<or> int (rl_NumRequeues (cs_limiter s) key) < pc_failedProvisionThreshold c")
      case True
      then show thesis using run fr sync Err wh
        by (intro retry [of st e s1 d]) (auto simp: retry_claim_def AddRateLimited_def Let_def split: if_splits)
    next
      case False
      then show thesis using run fr sync Err by (intro give_up [of st e s1]) auto
    qed
  next
    case (Panic m)
    then show thesis using run panic by auto
  qed
qed

lemma volume_work_frame:
  assumes "volume_work c key s = (r, s')"
  shows "cs_claimQueue s' = cs_claimQueue s" "cs_claimsInProgress s' = cs_claimsInProgress s"
    "k \<noteq> key \<Longrightarrow> rl_NumRequeues (cs_limiter s') k = rl_NumRequeues (cs_limiter s) k"
    "rl_NumRequeues (cs_limiter s') key \<le> rl_NumRequeues (cs_limiter s) key \<or>
       rl_NumRequeues (cs_limiter s') key = rl_NumRequeues (cs_limiter s) key + 1 \<and>
       (pc_failedDeleteThreshold c = 0 \<or> int (rl_NumRequeues (cs_limiter s) key) < pc_failedDeleteThreshold c)"
proof -
  obtain q s1 where sync: "syncVolumeHandler c key s = (q, s1)" by fastforce
  have fr: "same_work s s1" by (rule syncVolumeHandler_frame [OF sync])
  obtain d lim where wh: "rl_When (cs_limiter s) key = (d, lim)" by fastforce
  have n: "rl_NumRequeues lim k = rl_NumRequeues (cs_limiter s) k + (if k = key then 1 else 0)" for k
    using NumRequeues_When [of "cs_limiter s" key k] wh by simp
  show "cs_claimQueue s' = cs_claimQueue s" "cs_claimsInProgress s' = cs_claimsInProgress s"
    using assms fr sync wh
    by (auto simp: volume_work_def Let_def same_work_def retry_volume_def AddRateLimited_def split: outcome.splits)
  show "k \<noteq> key \<Longrightarrow> rl_NumRequeues (cs_limiter s') k = rl_NumRequeues (cs_limiter s) k"
    using assms fr sync wh n
    by (auto simp: volume_work_def Let_def same_work_def retry_volume_def AddRateLimited_def NumRequeues_Forget split: outcome.splits)
  show "rl_NumRequeues (cs_limiter s') key \<le> rl_NumRequeues (cs_limiter s) key \<or>
       rl_NumRequeues (cs_limiter s') key = rl_NumRequeues (cs_limiter s) key + 1 \<and>
       (pc_failedDeleteThreshold c = 0 \<or> int (rl_NumRequeues (cs_limiter s) key) < pc_failedDeleteThreshold c)"
    using assms fr sync wh n
    by (auto simp: volume_work_def Let_def same_work_def retry_volume_def AddRateLimited_def NumRequeues_Forget split: outcome.splits if_splits)
qed

section \<open>Invariants\<close>

definition ctrl_inv :: "ctrl_state \<Rightarrow> bool" where
  \<comment> \<open>the claim queue is consistent, and a claim in progress has an entry in it\<close>
  "ctrl_inv s \<longleftrightarrow> wq_inv (cs_claimQueue s) \<and> \<not> wq_shuttingDown (cs_claimQueue s) \<and>
     (\<forall>key. map_of (cs_claimsInProgress s) key \<noteq> None \<longrightarrow> scheduled (cs_claimQueue s) key)"

definition requeues_bounded :: "ProvisionController \<Rightarrow> ctrl_state \<Rightarrow> bool" where
  "requeues_bounded c s \<longleftrightarrow>
     (\<forall>key. int (rl_NumRequeues (cs_limiter s) key) \<le> max (pc_failedProvisionThreshold c) (pc_failedDeleteThreshold c))"

definition given_up :: "string \<Rightarrow> ctrl_state \<Rightarrow> bool" where
  \<comment> \<open>the failures of the claim are still counted, and no queue entry, timer or worker has it\<close>
  "given_up key s \<longleftrightarrow> rl_NumRequeues (cs_limiter s) key > 0 \<and> \<not> scheduled (cs_claimQueue s) key"

lemma claim_done_queue:
  assumes "ctrl_inv s" "key \<in> wq_processing (cs_claimQueue s)" "claim_work c key s = (r, s')" "\<forall>m. r \<noteq> Panic m"
  shows "wq_inv (cs_claimQueue s')" "\<not> wq_shuttingDown (cs_claimQueue s')"
    and "k \<noteq> key \<Longrightarrow> scheduled (cs_claimQueue s') k \<longleftrightarrow> scheduled (cs_claimQueue s) k"
    and "k \<noteq> key \<Longrightarrow> rl_NumRequeues (cs_limiter s') k = rl_NumRequeues (cs_limiter s) k"
    and "map_of (cs_claimsInProgress s') k \<noteq> None \<Longrightarrow> scheduled (cs_claimQueue s') k"
proof -
  note inv = assms(1) [unfolded ctrl_inv_def]
  note re = retried_queue [OF _ _ assms(2)]
  have prog: "map_of (cs_claimsInProgress s1) j = map_of (cs_claimsInProgress s) j"
    if "syncClaimHandler c key s = ((st, q), s1)" "j \<noteq> key" for st q s1 j
    using syncClaimHandler_frame(4) [OF that(1)] that(2) by blast
  from assms(3) have "wq_inv (cs_claimQueue s') \<and> \<not> wq_shuttingDown (cs_claimQueue s') \<and>
    (k \<noteq> key \<longrightarrow> (scheduled (cs_claimQueue s') k \<longleftrightarrow> scheduled (cs_claimQueue s) k)) \<and>
    (k \<noteq> key \<longrightarrow> rl_NumRequeues (cs_limiter s') k = rl_NumRequeues (cs_limiter s) k) \<and>
    (map_of (cs_claimsInProgress s') k \<noteq> None \<longrightarrow> scheduled (cs_claimQueue s') k)"
  proof (cases rule: claim_work_cases)
    case (panic m)
    then show ?thesis using assms(4) by blast
  next
    case (forget st s1)
    then show ?thesis using inv wq_inv_Done [OF _ assms(2)] prog [OF forget(1), of k]
      by (auto simp: scheduled_Done NumRequeues_Forget)
  next
    case (retry st e s1 d)
    have "scheduled (cs_claimQueue s) key" using assms(2) by (simp add: scheduled_def)
    then show ?thesis using inv re retry prog [OF retry(1), of k]
      by (cases "k = key") (auto simp: NumRequeues_When)
  next
    case (give_up st e s1)
    then show ?thesis using inv wq_inv_Done [OF _ assms(2)] prog [OF give_up(1), of k]
      by (auto simp: scheduled_Done)
  qed
  then show "wq_inv (cs_claimQueue s')" "\<not> wq_shuttingDown (cs_claimQueue s')"
    "k \<noteq> key \<Longrightarrow> scheduled (cs_claimQueue s') k \<longleftrightarrow> scheduled (cs_claimQueue s) k"
    "k \<noteq> key \<Longrightarrow> rl_NumRequeues (cs_limiter s') k = rl_NumRequeues (cs_limiter s) k"
    "map_of (cs_claimsInProgress s') k \<noteq> None \<Longrightarrow> scheduled (cs_claimQueue s') k" by blast+
qed

lemma ctrl_step_inv:
  assumes "ctrl_step c vk s s'" "ctrl_inv s"
  shows "ctrl_inv s'"
  using assms
proof cases
  case (claim_event obj)
  then show ?thesis using assms(2) wq_inv_Add
    by (auto simp: ctrl_inv_def enqueueClaim_def scheduled_Add split: sum.splits)
next
  case (claim_get key q)
  then show ?thesis using assms(2) wq_inv_Get [of "cs_claimQueue s"] wq_Get_shuttingDown [of "cs_claimQueue s"]
    by (auto simp: ctrl_inv_def scheduled_Get)
next
  case (claim_done key r)
  then show ?thesis using claim_done_queue [OF assms(2) claim_done] by (simp add: ctrl_inv_def)
next
  case (claim_timer key)
  then show ?thesis using assms(2) wq_inv_ready by (auto simp: ctrl_inv_def)
next
  case (volume_done key r)
  then show ?thesis using assms(2) volume_work_frame [OF volume_done(2)] by (simp add: ctrl_inv_def)
qed (auto simp: ctrl_inv_def enqueueVolume_def forgetVolume_def split: option.splits)

lemma ctrl_step_bounded:
  assumes "ctrl_step c vk s s'" "requeues_bounded c s"
    and "pc_failedProvisionThreshold c > 0" "pc_failedDeleteThreshold c > 0"
  shows "requeues_bounded c s'"
proof -
  have forget: "int (rl_NumRequeues (rl_Forget (cs_limiter s) key) k) \<le> max (pc_failedProvisionThreshold c) (pc_failedDeleteThreshold c)" for key k
    using assms(2-4) by (auto simp: requeues_bounded_def NumRequeues_Forget)
  show ?thesis
    using assms(1)
  proof cases
    case (volume_deleted vobj)
    then show ?thesis using assms(2) forget by (auto simp: requeues_bounded_def forgetVolume_def split: option.splits)
  next
    case (claim_done key r)
    from claim_done(2) show ?thesis
    proof (cases rule: claim_work_cases)
      case (retry st e s1 d)
      then have "int (rl_NumRequeues (cs_limiter s) key) < pc_failedProvisionThreshold c" using assms(3) by simp
      then show ?thesis using assms(2) retry by (auto simp: requeues_bounded_def NumRequeues_When)
    qed (use claim_done assms(2) forget in \<open>auto simp: requeues_bounded_def\<close>)
  next
    case (volume_done key r)
    have "int (rl_NumRequeues (cs_limiter s') k) \<le> max (pc_failedProvisionThreshold c) (pc_failedDeleteThreshold c)" for k
    proof (cases "k = key")
      case True
      have "int (rl_NumRequeues (cs_limiter s) key) \<le> max (pc_failedProvisionThreshold c) (pc_failedDeleteThreshold c)"
        using assms(2) by (simp add: requeues_bounded_def)
      then show ?thesis using volume_work_frame(4) [OF volume_done(2)] True assms(4) by auto
    next
      case False
      then show ?thesis using volume_work_frame(3) [OF volume_done(2)] assms(2) by (simp add: requeues_bounded_def)
    qed
    then show ?thesis by (simp add: requeues_bounded_def)
  qed (use assms(2) in \<open>auto simp: requeues_bounded_def enqueueClaim_def enqueueVolume_def split: sum.splits option.splits\<close>)
qed

lemma ctrl_step_given_up:
  assumes "ctrl_step c vk s s'" "ctrl_inv s" "given_up key s" "\<not> vk key"
  shows "given_up key s'"
  using assms(1)
proof cases
  case (claim_event obj)
  then show ?thesis using assms(2,3)
    by (auto simp: given_up_def ctrl_inv_def enqueueClaim_def scheduled_Add split: sum.splits)
next
  case (claim_get k q)
  then show ?thesis using assms(2,3) by (auto simp: given_up_def ctrl_inv_def scheduled_Get)
next
  case (claim_done k r)
  then have "key \<noteq> k" using assms(3) by (auto simp: given_up_def scheduled_def)
  then show ?thesis using claim_done_queue(3,4) [OF assms(2) claim_done] assms(3) by (simp add: given_up_def)
next
  case (volume_done k r)
  then have "key \<noteq> k" using assms(4) by auto
  then show ?thesis using volume_work_frame [OF volume_done(2)] assms(3) by (simp add: given_up_def)
qed (use assms(3,4) in \<open>auto simp: given_up_def enqueueVolume_def forgetVolume_def NumRequeues_Forget split: option.splits\<close>)

end
