(* ===== verification/Retry_Properties.thy ===== *)
theory Retry_Properties
  imports Controller_Steps Volume_Properties
begin

text \<open>
  What the provision controller promises about its queues: the work queue refines the
  specification, the claims in progress have an entry in the queue in every reachable state, a
  failing claim is retried a bounded number of times, and two ways in which the bookkeeping goes
  wrong (a claim that was given up is never looked at again, and a deleted volume can be handed to
  two workers).
\<close>

section \<open>The work queue as a trace refinement\<close>

datatype 'a queue_op = OpAdd 'a | OpGet | OpDone 'a

datatype 'a queue_event = Added 'a | Handed 'a | Waited | Released 'a

fun queue_apply :: "'a queue_op \<Rightarrow> 'a work_queue \<Rightarrow> 'a queue_event \<times> 'a work_queue" where
  "queue_apply (OpAdd x) q = (Added x, wq_Add x q)"
| "queue_apply OpGet q = (case wq_Get q of (Item x, q') \<Rightarrow> (Handed x, q') | (_, q') \<Rightarrow> (Waited, q'))"
| "queue_apply (OpDone x) q = (Released x, wq_Done x q)"

fun queue_run :: "'a queue_op list \<Rightarrow> 'a work_queue \<Rightarrow> 'a queue_event list \<times> 'a work_queue" where
  "queue_run [] q = ([], q)"
| "queue_run (x # xs) q =
     (let (e, q1) = queue_apply x q; (es, q2) = queue_run xs q1 in (e # es, q2))"

fun done_by_holder :: "'a queue_op list \<Rightarrow> 'a work_queue \<Rightarrow> bool" where
  \<comment> \<open>only a worker that holds the item calls \<open>Done\<close>\<close>
  "done_by_holder [] q = True"
| "done_by_holder (x # xs) q \<longleftrightarrow>
     (case x of OpDone y \<Rightarrow> y \<in> wq_processing q | _ \<Rightarrow> True) \<and> done_by_holder xs (snd (queue_apply x q))"

fun spec_event :: "'a queue_event \<Rightarrow> 'a queue_spec \<Rightarrow> 'a queue_spec option" where
  \<comment> \<open>\<open>None\<close> where the specification forbids the event\<close>
  "spec_event (Added x) s = Some (spec_add x s)"
| "spec_event (Handed x) s = (if x \<in> qs_pending s \<and> x \<notin> qs_held s then Some (spec_get x s) else None)"
| "spec_event Waited s = (if qs_pending s \<subseteq> qs_held s then Some s else None)"
| "spec_event (Released x) s = (if x \<in> qs_held s then Some (spec_done x s) else None)"

fun spec_run :: "'a queue_event list \<Rightarrow> 'a queue_spec \<Rightarrow> 'a queue_spec option" where
  "spec_run [] s = Some s"
| "spec_run (e # es) s = (case spec_event e s of None \<Rightarrow> None | Some s' \<Rightarrow> spec_run es s')"

lemma queue_apply_refines:
  assumes "wq_inv q" "\<not> wq_shuttingDown q" "case x of OpDone y \<Rightarrow> y \<in> wq_processing q | _ \<Rightarrow> True"
    and "queue_apply x q = (e, q')"
  shows "spec_event e (wq_abs q) = Some (wq_abs q') \<and> wq_inv q' \<and> \<not> wq_shuttingDown q'"
proof (cases x)
  case (OpAdd y)
  then show ?thesis using assms typed.add_abs [OF assms(1,2)] wq_inv_Add [OF assms(1)] by auto
next
  case OpGet
  obtain g p where get: "wq_Get q = (g, p)" by fastforce
  note sd = wq_Get_shuttingDown [OF get] and inv = wq_inv_Get [OF assms(1)]
  show ?thesis
  proof (cases g)
    case (Item y)
    then show ?thesis using OpGet assms(2,4) get sd inv typed.get_abs [OF assms(1), of y p] by auto
  qed (use OpGet assms(2,4) get sd inv typed.get_none [OF assms(1)] in auto)
next
  case (OpDone y)
  then have "y \<in> qs_held (wq_abs q)" using assms(3) by (simp add: wq_abs_def)
  then show ?thesis using OpDone assms typed.fin_abs [OF assms(1)] wq_inv_Done [OF assms(1)] by auto
qed

lemma queue_run_refines:
  assumes "wq_inv q" "\<not> wq_shuttingDown q" "done_by_holder xs q"
  shows "spec_run (fst (queue_run xs q)) (wq_abs q) = Some (wq_abs (snd (queue_run xs q)))"
  using assms
proof (induction xs arbitrary: q)
  case (Cons x xs)
  obtain e q' where step: "queue_apply x q = (e, q')" by fastforce
  have "spec_event e (wq_abs q) = Some (wq_abs q')" "wq_inv q'" "\<not> wq_shuttingDown q'"
    using queue_apply_refines [OF Cons.prems(1,2) _ step] Cons.prems(3) by auto
  then show ?case using Cons.IH [of q'] Cons.prems(3) step by (cases "queue_run xs q'") simp
qed simp

text \<open>C30: Whatever additions, requests for work and releases happen on a fresh work queue, as long as
  only the holder of an item releases it: a worker only ever gets an item that was added since it was
  last handed out and that no other worker holds, a worker waits only when every item that needs work
  is held by another worker, and an item that is added while a worker holds it needs work again
  afterwards.\<close>
theorem work_queue_refines:
  assumes "done_by_holder ops (newQueue :: 'a work_queue)"
  shows "spec_run (fst (queue_run ops newQueue)) \<lparr>qs_pending = {}, qs_held = {}\<rparr> =
    Some (wq_abs (snd (queue_run ops newQueue)))"
  using queue_run_refines [OF wq_inv_new _ assms] by (simp add: newQueue_def wq_abs_def)

theorem work_queue_refines_witness:
  "spec_run (fst (queue_run [OpAdd True, OpAdd False, OpGet, OpAdd True, OpGet, OpGet, OpDone True, OpGet] newQueue))
     \<lparr>qs_pending = {}, qs_held = {}\<rparr> =
   Some (wq_abs (snd (queue_run [OpAdd True, OpAdd False, OpGet, OpAdd True, OpGet, OpGet, OpDone True, OpGet] newQueue)))"
  by (rule work_queue_refines) (simp add: newQueue_def wq_Add_def wq_Get_def wq_Done_def)

section \<open>The reachable states of the controller\<close>

text \<open>A small cluster: one claim of the class \<open>fast\<close>, and a provisioner that works in the background.\<close>

definition demo_claim :: PersistentVolumeClaim where
  "demo_claim = \<lparr>pvc_Kind = [], pvc_APIVersion = [], pvc_Name = ''data'', pvc_Namespace = ''ns'', pvc_UID = ''u1'',
     pvc_ResourceVersion = ''7'', pvc_Annotations = [(ctrl_annStorageProvisioner, ''prov'')], pvc_VolumeName = [],
     pvc_StorageClassName = Some ''fast'', pvc_VolumeMode = None, pvc_Requests = []\<rparr>"

definition demo_class :: "string \<Rightarrow> StorageClass" where
  "demo_class prov = \<lparr>sc_Name = ''fast'', sc_Provisioner = prov, sc_Parameters = [], sc_ReclaimPolicy = Some ReclaimDelete,
     sc_MountOptions = [], sc_AllowVolumeExpansion = None, sc_VolumeBindingMode = Some VolumeBindingWaitForFirstConsumer,
     sc_AllowedTopologies = []\<rparr>"

definition demo_world :: "PersistentVolumeClaim \<Rightarrow> world" where
  "demo_world claim = \<lparr>w_os = demo_os [([''a''], Directory)], w_pvs = Map.empty, w_nodes = [''n1'' \<mapsto> ''n1''], w_claims = (\<lambda>_. claim),
     w_events = [], w_faults = []\<rparr>"

definition slow_provisioner :: provisioner where
  "slow_provisioner = \<lparr>pr_Provision = (\<lambda>_ w. (Err (ErrorString ''not used''), w)), pr_Delete = (\<lambda>_ w. (Ok (), w)),
     pr_ShouldProvision = None, pr_ShouldDelete = None, pr_SupportsBlock = None,
     pr_ProvisionExt = Some (\<lambda>_ w. ((Err (ErrorString ''still copying''), ProvisioningInBackground), w))\<rparr>"

definition demo_new :: "(ProvisionController \<times> ctrl_state) outcome" where
  "demo_new = NewProvisionController tracker_client ''prov'' slow_provisioner (semantic [1, 20, 0])
     (Inr (''PersistentVolumeClaim'', ''v1'')) (Inr ''host'') ''id'' ''ns''
     [FailedProvisionThreshold 1] (demo_world demo_claim)"

definition demo_c :: ProvisionController where
  "demo_c = (default_controller tracker_client ''prov'' slow_provisioner (semantic [1, 20, 0])
     (Inr (''PersistentVolumeClaim'', ''v1'')) ''host_id'' ''ns'')\<lparr>pc_failedProvisionThreshold := 1\<rparr>"

definition demo_s0 :: ctrl_state where
  "demo_s0 = \<lparr>cs_limiter = exponential_limiter (seconds 15) (seconds 1000), cs_claimQueue = newQueue, cs_volumeQueue = newQueue,
     cs_claims = [], cs_volumes = [], cs_classes = [], cs_claimsInProgress = [], cs_store = volume_store demo_c,
     cs_bindingModewarned = False, cs_world = demo_world demo_claim\<rparr>"

lemma demo_new_eq: "demo_new = Ok (demo_c, demo_s0)"
  by (simp add: demo_new_def NewProvisionController_def demo_c_def demo_s0_def FailedProvisionThreshold_def HasRun_def
      queue_limiter_def default_controller_def DefaultExponentialBackOffOnError_def)

lemma new_controller_inv:
  assumes "NewProvisionController k n p v sch h u ns opts w = Ok (c, s)"
  shows "ctrl_inv s" "cs_limiter s = queue_limiter c"
  using assms
  by (auto simp: NewProvisionController_def ctrl_inv_def newQueue_def [THEN arg_cong [of _ _ wq_shuttingDown]]
      split: sum.splits outcome.splits)

lemma steps_inv: "ctrl_steps c vk s t \<Longrightarrow> ctrl_inv s \<Longrightarrow> ctrl_inv t"
  by (erule steps_invariant) (auto intro: ctrl_step_inv)

lemma steps_bounded:
  assumes "ctrl_steps c vk s t" "requeues_bounded c s" "pc_failedProvisionThreshold c > 0" "pc_failedDeleteThreshold c > 0"
  shows "requeues_bounded c t"
  using assms(1,2) by (rule steps_invariant) (rule ctrl_step_bounded [OF _ _ assms(3,4)])

lemma queue_limiter_fresh: "pc_rateLimiter c = None \<Longrightarrow> rl_NumRequeues (queue_limiter c) key = 0"
  by (simp add: queue_limiter_def exponential_limiter_def rl_NumRequeues_def gomap_get_def)

text \<open>C29: In every state that the controller can reach, whatever the informers, the workers, the timers
  and the rest of the cluster do in whatever order: no claim is queued twice, no queued claim is being
  processed, every claim in progress has an entry in the claim queue, a running worker or a timer (so
  that it will be processed although its deletion is ignored), and with the default rate limiter and
  positive thresholds no key is requeued more often than the larger threshold.\<close>
theorem controller_invariant:
  assumes "NewProvisionController k n p v sch h u ns opts w = Ok (c, s0)" "ctrl_steps c vk s0 s"
  shows "distinct (wq_queue (cs_claimQueue s)) \<and>
    (\<forall>key \<in> set (wq_queue (cs_claimQueue s)). key \<notin> wq_processing (cs_claimQueue s)) \<and>
    (\<forall>key. map_of (cs_claimsInProgress s) key \<noteq> None \<longrightarrow> scheduled (cs_claimQueue s) key) \<and>
    (pc_rateLimiter c = None \<and> 0 < pc_failedProvisionThreshold c \<and> 0 < pc_failedDeleteThreshold c \<longrightarrow>
      (\<forall>key. int (rl_NumRequeues (cs_limiter s) key) \<le> max (pc_failedProvisionThreshold c) (pc_failedDeleteThreshold c)))"
proof -
  have inv: "ctrl_inv s" by (rule steps_inv [OF assms(2) new_controller_inv(1) [OF assms(1)]])
  have "requeues_bounded c s"
    if "pc_rateLimiter c = None" "0 < pc_failedProvisionThreshold c" "0 < pc_failedDeleteThreshold c"
    using steps_bounded [OF assms(2) _ that(2,3)] new_controller_inv(2) [OF assms(1)] queue_limiter_fresh [OF that(1)] that(2)
    by (simp add: requeues_bounded_def)
  then show ?thesis using inv by (simp add: ctrl_inv_def wq_inv_def requeues_bounded_def)
qed

definition demo_held :: "(string, class_object) gomap \<Rightarrow> ctrl_state" where
  \<comment> \<open>the claim has been added and a worker has taken it\<close>
  "demo_held classes = demo_s0\<lparr>cs_claims := [ClaimObject 0], cs_classes := classes,
     cs_claimQueue := newQueue\<lparr>wq_processing := {''u1''}\<rparr>\<rparr>"

lemma demo_held_reach: "ctrl_steps demo_c vk demo_s0 (demo_held classes)"
proof -
  let ?s1 = "demo_s0\<lparr>cs_claims := [ClaimObject 0], cs_volumes := [], cs_classes := classes, cs_world := cs_world demo_s0\<rparr>"
  have "ctrl_step demo_c vk demo_s0 ?s1" by (rule environment)
  then have 1: "ctrl_steps demo_c vk demo_s0 ?s1" using steps_refl steps_step by blast
  have 2: "ctrl_steps demo_c vk demo_s0 (enqueueClaim (MetaObject ''u1'') ?s1)"
    using 1 by (rule steps_step) (rule claim_event)
  have "wq_Get (cs_claimQueue (enqueueClaim (MetaObject ''u1'') ?s1)) = (Item ''u1'', newQueue\<lparr>wq_processing := {''u1''}\<rparr>)"
    by (simp add: enqueueClaim_def getObjectUID_def demo_s0_def exponential_limiter_def rl_NumRequeues_def gomap_get_def
        wq_Add_def wq_Get_def newQueue_def)
  from steps_step [OF 2 claim_get [OF this]] show ?thesis
    by (simp add: demo_held_def demo_s0_def enqueueClaim_def getObjectUID_def exponential_limiter_def rl_NumRequeues_def gomap_get_def)
qed

definition demo_classes :: "(string, class_object) gomap" where
  "demo_classes = [(''fast'', ClassV1 (demo_class ''prov''))]"

lemmas demo_defs = demo_held_def demo_s0_def demo_c_def demo_world_def demo_claim_def demo_class_def demo_classes_def slow_provisioner_def
  default_controller_def exponential_limiter_def newQueue_def

lemmas claim_defs = claim_work_def syncClaimHandler_def syncClaim_def shouldProvision_def provisionClaimOperation_def
  claim_object_UID_def getStorageClass_def GetPersistentVolumeClaimClass_def AtLeast_def compareInternal_def semantic_def
  knownProvisioner_def getProvisionedVolumeNameForClaim_def GetReference_def canProvision_def CheckPersistentVolumeClaimModeBlock_def
  selected_node_def provision_and_store_def call_provision_def tracker_client_def tracker_Get_def retry_claim_def AddRateLimited_def
  rl_When_def exponential_delay_def rl_NumRequeues_def gomap_get_def wq_AddAfter_def wq_Done_def wq_Add_def

lemma demo_background:
  "\<exists>e s'. claim_work demo_c ''u1'' (demo_held demo_classes) = (Err e, s') \<and> cs_claimsInProgress s' = [(''u1'', ClaimObject 0)]"
  by (simp add: demo_defs claim_defs Let_def ctrl_annStorageProvisioner_def ctrl_annSelectedNode_def warn_def BetaStorageClassAnnotation_def)

theorem controller_invariant_witness:
  "\<exists>s :: ctrl_state. map_of (cs_claimsInProgress s) ''u1'' \<noteq> None \<and> scheduled (cs_claimQueue s) ''u1'' \<and>
     (\<forall>key. rl_NumRequeues (cs_limiter s) key \<le> 15)"
proof -
  obtain e s' where w: "claim_work demo_c ''u1'' (demo_held demo_classes) = (Err e, s')"
    and p: "cs_claimsInProgress s' = [(''u1'', ClaimObject 0)]" using demo_background by blast
  have "ctrl_steps demo_c (\<lambda>_. True) demo_s0 s'"
    by (rule steps_step [OF demo_held_reach claim_done [OF _ w]]) (simp_all add: demo_held_def)
  from controller_invariant [OF demo_new_eq [unfolded demo_new_def] this]
  have "map_of (cs_claimsInProgress s') ''u1'' \<noteq> None \<longrightarrow> scheduled (cs_claimQueue s') ''u1''"
    and "\<forall>key. rl_NumRequeues (cs_limiter s') key \<le> 15"
    by (blast, simp add: demo_c_def default_controller_def DefaultFailedDeleteThreshold_def)
  then show ?thesis using p by - (rule exI [of _ s'], simp)
qed

section \<open>Claims that are given up\<close>

lemma given_up_stays:
  assumes "ctrl_steps c vk s t" "ctrl_inv s" "given_up key s" "\<not> vk key"
  shows "given_up key t"
proof -
  have "ctrl_inv t \<and> given_up key t"
    using assms(1) conjI [OF assms(2,3)]
    by (rule steps_invariant) (use ctrl_step_inv ctrl_step_given_up assms(4) in blast)
  then show ?thesis by blast
qed

lemma gives_up:
  assumes "claim_work c key s = (Err e, s1)" "0 < pc_failedProvisionThreshold c"
    "pc_failedProvisionThreshold c \<le> int (rl_NumRequeues (cs_limiter s) key)"
    "key \<notin> wq_dirty (cs_claimQueue s)" "key \<notin> wq_waiting (cs_claimQueue s)"
  shows "given_up key s1"
  using assms(1)
proof (cases rule: claim_work_cases)
  case (give_up st e s1)
  then show ?thesis using assms(2-5) by (auto simp: given_up_def scheduled_Done)
qed (use assms in auto)

text \<open>C34: A claim that fails once more than the threshold allows is dropped, and nothing that happens
  afterwards makes the controller look at it again: not an update of the claim, not its deletion, not
  the storage class it waited for, as long as no volume happens to have the UID of the claim as its
  key (the failures of volumes and claims are counted together).\<close>
theorem given_up_claim_ignored:
  assumes "NewProvisionController k n p v sch h u ns opts w = Ok (c, s0)" "ctrl_steps c vk s0 s"
    and "key \<in> wq_processing (cs_claimQueue s)" "key \<notin> wq_dirty (cs_claimQueue s)" "key \<notin> wq_waiting (cs_claimQueue s)"
    and "claim_work c key s = (Err e, s1)" "0 < pc_failedProvisionThreshold c"
    and "pc_failedProvisionThreshold c \<le> int (rl_NumRequeues (cs_limiter s) key)"
    and "ctrl_steps c vk s1 t" "\<not> vk key"
  shows "\<not> scheduled (cs_claimQueue t) key \<and> enqueueClaim (MetaObject key) t = t \<and>
    enqueueClaim (Tombstone (Some key)) t = t"
proof -
  have "ctrl_step c vk s s1" using assms(3,6) by (intro claim_done) auto
  then have "ctrl_inv s1" using steps_inv [OF steps_step [OF assms(2)] new_controller_inv(1) [OF assms(1)]] by blast
  then have "given_up key t" using given_up_stays [OF assms(9)] gives_up [OF assms(6-8,4,5)] assms(10) by blast
  then show ?thesis by (simp add: given_up_def enqueueClaim_def getObjectUID_def)
qed

definition demo_failed :: ctrl_state where
  \<comment> \<open>the class is missing, the claim has failed once and a worker has taken it again\<close>
  "demo_failed = (demo_held [])\<lparr>cs_limiter := (exponential_limiter (seconds 15) (seconds 1000))\<lparr>rl_failures := [(''u1'', 1)]\<rparr>\<rparr>"

lemma demo_failed_reach: "ctrl_steps demo_c vk demo_s0 demo_failed"
proof -
  let ?q = "newQueue\<lparr>wq_processing := {''u1''}\<rparr>"
  let ?s1 = "demo_failed\<lparr>cs_claimQueue := newQueue\<lparr>wq_waiting := {''u1''}\<rparr>\<rparr>"
  let ?s2 = "?s1\<lparr>cs_claimQueue := wq_ready ''u1'' (cs_claimQueue ?s1)\<rparr>"
  have "\<exists>e. claim_work demo_c ''u1'' (demo_held []) = (Err e, ?s1)"
    by (simp add: demo_failed_def demo_defs claim_defs Let_def ctrl_annStorageProvisioner_def BetaStorageClassAnnotation_def seconds_def gomap_del_def)
  then obtain e where w: "claim_work demo_c ''u1'' (demo_held []) = (Err e, ?s1)" by blast
  have "ctrl_steps demo_c vk demo_s0 ?s1"
    by (rule steps_step [OF demo_held_reach claim_done [OF _ w]]) (simp_all add: demo_held_def)
  then have 2: "ctrl_steps demo_c vk demo_s0 ?s2" by (rule steps_step) (rule claim_timer)
  have "wq_Get (cs_claimQueue ?s2) = (Item ''u1'', ?q)"
    by (simp add: wq_Get_def wq_ready_def wq_Add_def newQueue_def)
  from steps_step [OF 2 claim_get [OF this]] show ?thesis by (simp add: demo_failed_def demo_held_def demo_s0_def)
qed

theorem given_up_claim_ignored_witness:
  "\<exists>t. cs_classes t = demo_classes \<and> cs_claims t = [ClaimObject 0] \<and>
     \<not> scheduled (cs_claimQueue t) ''u1'' \<and> enqueueClaim (MetaObject ''u1'') t = t"
proof -
  obtain e s1 where w: "claim_work demo_c ''u1'' demo_failed = (Err e, s1)" "cs_claims s1 = [ClaimObject 0]"
    by (simp add: demo_failed_def demo_defs claim_defs Let_def ctrl_annStorageProvisioner_def BetaStorageClassAnnotation_def)
  let ?t = "s1\<lparr>cs_claims := cs_claims s1, cs_volumes := [], cs_classes := demo_classes, cs_world := cs_world s1\<rparr>"
  have "ctrl_steps demo_c (\<lambda>_. False) s1 ?t" by (rule steps_step [OF steps_refl environment])
  from given_up_claim_ignored [OF demo_new_eq [unfolded demo_new_def] demo_failed_reach _ _ _ w(1) _ _ this]
  have "\<not> scheduled (cs_claimQueue ?t) ''u1'' \<and> enqueueClaim (MetaObject ''u1'') ?t = ?t"
    by (simp add: demo_failed_def demo_defs rl_NumRequeues_def gomap_get_def)
  then show ?thesis using w(2) by - (rule exI [of _ ?t], simp)
qed

section \<open>Bounded retries\<close>

fun serve_claim :: "nat \<Rightarrow> ProvisionController \<Rightarrow> string \<Rightarrow> ctrl_state \<Rightarrow> (nat \<times> ctrl_state) option" where
  \<comment> \<open>one worker that serves the claim: its timer fires, the next item is processed, until the worker
      blocks; the number of items processed, and \<open>None\<close> when the fuel runs out\<close>
  "serve_claim 0 c key s = None"
| "serve_claim (Suc fuel) c key s =
     (let s1 = s\<lparr>cs_claimQueue := wq_ready key (cs_claimQueue s)\<rparr>
      in case processNextClaimWorkItem c s1 of
           Some (Ok True, s2) \<Rightarrow> (case serve_claim fuel c key s2 of None \<Rightarrow> None | Some (n, t) \<Rightarrow> Some (Suc n, t))
         | Some (_, s2) \<Rightarrow> Some (0, s2)
         | None \<Rightarrow> Some (0, s1))"

lemma serve_claim_step:
  "processNextClaimWorkItem c (s\<lparr>cs_claimQueue := wq_ready key (cs_claimQueue s)\<rparr>) = Some (Ok True, s2) \<Longrightarrow>
   serve_claim fuel c key s2 = Some (n, t) \<Longrightarrow> serve_claim (Suc fuel) c key s = Some (Suc n, t)"
  by simp

declare serve_claim.simps(2) [simp del]

definition class_missing :: "string \<Rightarrow> ctrl_state \<Rightarrow> bool" where
  "class_missing key s \<longleftrightarrow>
     (case filter (\<lambda>obj. claim_object_UID (cs_world s) obj = key) (cs_claims s) of
        ClaimObject ref # _ \<Rightarrow> pvc_VolumeName (w_claims (cs_world s) ref) = [] \<and>
          map_of (cs_classes s) (GetPersistentVolumeClaimClass (w_claims (cs_world s) ref)) = None
      | _ \<Rightarrow> False)"

lemma class_missing_cong:
  assumes "cs_world s' = cs_world s" "cs_claims s' = cs_claims s" "cs_classes s' = cs_classes s"
  shows "class_missing key s' \<longleftrightarrow> class_missing key s"
  unfolding class_missing_def assms by (rule refl)

lemma class_missing_fails:
  assumes "class_missing key s"
  obtains e where "syncClaimHandler c key s = ((ProvisioningFinished, Err e), s\<lparr>cs_claimsInProgress := gomap_del (cs_claimsInProgress s) key\<rparr>)"
  using assms
  by (auto simp: class_missing_def syncClaimHandler_def syncClaim_def shouldProvision_def getStorageClass_def Let_def
      split: list.splits claim_object.splits)

definition lone_claim :: "string \<Rightarrow> string work_queue \<Rightarrow> bool" where
  \<comment> \<open>the queue has the claim, or a timer for it, and nothing else\<close>
  "lone_claim key q \<longleftrightarrow> wq_ready key q = newQueue\<lparr>wq_queue := [key], wq_dirty := {key}\<rparr>"

lemma lone_claim_retried:
  "lone_claim key (wq_Done key (wq_AddAfter key d (newQueue\<lparr>wq_processing := {key}\<rparr>)))"
  by (simp add: lone_claim_def wq_AddAfter_def wq_Done_def wq_ready_def wq_Add_def newQueue_def)

lemma serve_missing_class:
  assumes "class_missing key s" "lone_claim key (cs_claimQueue s)" "0 < pc_failedProvisionThreshold c"
    and "int (rl_NumRequeues (cs_limiter s) key) + int m = pc_failedProvisionThreshold c"
  shows "\<exists>t. serve_claim (m + 2) c key s = Some (Suc m, t) \<and> given_up key t"
  using assms
proof (induction m arbitrary: s)
  case (Suc m)
  let ?s1 = "s\<lparr>cs_claimQueue := newQueue\<lparr>wq_processing := {key}\<rparr>\<rparr>"
  obtain d lim where wh: "rl_When (cs_limiter s) key = (d, lim)" by fastforce
  have num: "rl_NumRequeues lim key = Suc (rl_NumRequeues (cs_limiter s) key)"
    using NumRequeues_When [of "cs_limiter s" key key] wh by simp
  let ?t = "?s1\<lparr>cs_claimsInProgress := gomap_del (cs_claimsInProgress s) key, cs_limiter := lim,
    cs_claimQueue := wq_Done key (wq_AddAfter key d (newQueue\<lparr>wq_processing := {key}\<rparr>))\<rparr>"
  have "class_missing key ?s1" using Suc.prems(1) by (subst class_missing_cong [of _ s]) simp_all
  then obtain e where sync: "syncClaimHandler c key ?s1 =
    ((ProvisioningFinished, Err e), ?s1\<lparr>cs_claimsInProgress := gomap_del (cs_claimsInProgress ?s1) key\<rparr>)"
    by (rule class_missing_fails)
  have "processNextClaimWorkItem c (s\<lparr>cs_claimQueue := wq_ready key (cs_claimQueue s)\<rparr>) = Some (Ok True, ?t)"
    using Suc.prems(2,4) sync wh
    by (simp add: lone_claim_def processNextClaimWorkItem_def wq_Get_def newQueue_def claim_work_def retry_claim_def AddRateLimited_def)
  moreover have "\<exists>t. serve_claim (m + 2) c key ?t = Some (Suc m, t) \<and> given_up key t"
  proof (rule Suc.IH)
    show "class_missing key ?t" using Suc.prems(1) by (subst class_missing_cong [of _ s]) simp_all
    show "lone_claim key (cs_claimQueue ?t)" using lone_claim_retried by simp
  qed (use Suc.prems(3,4) num in simp_all)
  ultimately show ?case using serve_claim_step [of c key s ?t "m + 2"] by auto
next
  case 0
  let ?s1 = "s\<lparr>cs_claimQueue := newQueue\<lparr>wq_processing := {key}\<rparr>\<rparr>"
  let ?t = "s\<lparr>cs_claimsInProgress := gomap_del (gomap_del (cs_claimsInProgress s) key) key, cs_claimQueue := newQueue\<rparr>"
  have "class_missing key ?s1" using 0(1) by (subst class_missing_cong [of _ s]) simp_all
  then obtain e where sync: "syncClaimHandler c key ?s1 =
    ((ProvisioningFinished, Err e), ?s1\<lparr>cs_claimsInProgress := gomap_del (cs_claimsInProgress ?s1) key\<rparr>)"
    by (rule class_missing_fails)
  have "processNextClaimWorkItem c (s\<lparr>cs_claimQueue := wq_ready key (cs_claimQueue s)\<rparr>) = Some (Ok True, ?t)"
    using 0 sync
    by (simp add: lone_claim_def processNextClaimWorkItem_def wq_Get_def newQueue_def claim_work_def wq_Done_def)
  moreover have "serve_claim (Suc 0) c key ?t = Some (0, ?t)"
    by (simp add: serve_claim.simps processNextClaimWorkItem_def wq_Get_def newQueue_def wq_ready_def)
  moreover have "given_up key ?t" using 0 by (auto simp: given_up_def scheduled_def newQueue_def)
  ultimately show ?case using serve_claim_step [of c key s ?t "Suc 0"] by (auto simp: numeral_2_eq_2)
qed

text \<open>C33: The retries of a failing claim end. A worker that serves a claim whose storage class does not
  exist processes it exactly once more than the threshold says, then the worker blocks, the claim is
  out of the queue, and further updates of the claim are ignored.\<close>
theorem failing_claim_terminates:
  assumes "class_missing key s" "lone_claim key (cs_claimQueue s)" "rl_NumRequeues (cs_limiter s) key = 0"
    and "pc_failedProvisionThreshold c = int n" "0 < n"
  shows "\<exists>t. serve_claim (n + 2) c key s = Some (n + 1, t) \<and> \<not> scheduled (cs_claimQueue t) key \<and>
    enqueueClaim (MetaObject key) t = t"
  using serve_missing_class [OF assms(1,2), of c n] assms(3-5)
  by (auto simp: given_up_def enqueueClaim_def getObjectUID_def)

theorem failing_claim_terminates_witness:
  "\<exists>t. serve_claim 3 demo_c ''u1''
      (demo_s0\<lparr>cs_claims := [ClaimObject 0], cs_claimQueue := wq_Add ''u1'' newQueue\<rparr>) = Some (2, t) \<and>
     \<not> scheduled (cs_claimQueue t) ''u1''"
  using failing_claim_terminates [of "''u1''" "demo_s0\<lparr>cs_claims := [ClaimObject 0], cs_claimQueue := wq_Add ''u1'' newQueue\<rparr>" demo_c 1]
  by (auto simp: demo_defs class_missing_def claim_object_UID_def lone_claim_def wq_Add_def wq_ready_def rl_NumRequeues_def
      gomap_get_def numeral_3_eq_3 numeral_2_eq_2)

section \<open>Volumes that are deleted while they are queued\<close>

lemma count_list_distinct: "distinct xs \<Longrightarrow> x \<in> set xs \<Longrightarrow> count_list xs x = 1"
  by (induction xs) (auto simp: count_list_0_iff)

text \<open>C36: When a volume disappears from the cluster while its key waits in the volume queue, the handler
  of the deletion releases a key that no worker holds. The key is then in the queue twice, and two
  workers get it, one after the other and without the first being done.\<close>
theorem forgotten_volume_queued_twice:
  assumes "wq_inv (cs_volumeQueue s)" "key \<in> set (wq_queue (cs_volumeQueue s))" "object_key obj = Some key"
  shows "count_list (wq_queue (cs_volumeQueue (forgetVolume obj s))) key = 2 \<and>
    (wq_queue (cs_volumeQueue s) = [key] \<longrightarrow>
      (\<exists>q1 q2. wq_Get (cs_volumeQueue (forgetVolume obj s)) = (Item key, q1) \<and> wq_Get q1 = (Item key, q2)))"
proof -
  let ?q = "cs_volumeQueue s"
  have d: "distinct (wq_queue ?q)" "key \<in> wq_dirty ?q" using assms(1,2) by (auto simp: wq_inv_def)
  then have "wq_queue (cs_volumeQueue (forgetVolume obj s)) = wq_queue ?q @ [key]"
    using assms(3) by (simp add: forgetVolume_def wq_Done_def)
  then show ?thesis using count_list_distinct [OF d(1) assms(2)] by (simp add: wq_Get_def)
qed

theorem forgotten_volume_queued_twice_witness:
  "\<exists>q1 q2. wq_Get (cs_volumeQueue (forgetVolume (Keyed [] ''pv1'') (enqueueVolume (Keyed [] ''pv1'') demo_s0))) = (Item ''pv1'', q1) \<and>
     wq_Get q1 = (Item ''pv1'', q2)"
proof -
  let ?s = "enqueueVolume (Keyed [] ''pv1'') demo_s0"
  have q: "cs_volumeQueue ?s = newQueue\<lparr>wq_queue := [''pv1''], wq_dirty := {''pv1''}\<rparr>"
    by (simp add: enqueueVolume_def object_key_def demo_s0_def exponential_limiter_def rl_NumRequeues_def gomap_get_def wq_Add_def newQueue_def)
  show ?thesis
    using forgotten_volume_queued_twice [of ?s "''pv1''" "Keyed [] ''pv1''"] unfolding q
    by (simp add: wq_inv_def newQueue_def object_key_def)
qed

end
