(* ===== verification/Hostpath_Provisioner.thy ===== *)
theory Hostpath_Provisioner
  imports Provisioner_Interface Hostpath_Utils
begin

text \<open>
  \<open>cmd/provisioner/hostpath-provisioner.go\<close>: the provisioner that creates a directory on the node
  for a claim and a volume object that points to it. It acts only for claims that are assigned to
  its node and deletes only what carries its identity and its node.
\<close>

section \<open>Definitions\<close>

definition defaultProvisionerName :: string where
  "defaultProvisionerName = ''kubevirt.io/hostpath-provisioner''"

definition annStorageProvisioner :: string where
  "annStorageProvisioner = ''volume.beta.kubernetes.io/storage-provisioner''"

definition annProvisionOnNode :: string where
  "annProvisionOnNode = ''kubevirt.io/provisionOnNode''"

definition annSelectedNode :: string where
  "annSelectedNode = ''volume.kubernetes.io/selected-node''"

definition annIdentity :: string where
  "annIdentity = ''hostPathProvisionerIdentity''"

definition KiB :: int64 where "KiB = 1024"
definition MiB :: int64 where "MiB = 1024 * KiB"
definition GiB :: int64 where "GiB = 1024 * MiB"

record hostPathProvisioner =
  hp_pvDir :: string
  hp_identity :: string
  hp_nodeName :: string
  hp_useNamingPrefix :: bool

definition NewHostPathProvisioner :: "(string \<Rightarrow> string) \<Rightarrow> hostPathProvisioner outcome" where
  \<comment> \<open>\<open>getenv\<close> is the environment; \<open>glog.Fatal\<close> ends the process\<close>
  "NewHostPathProvisioner getenv =
     (let nodeName = getenv ''NODE_NAME''; pvDir = getenv ''PV_DIR''
      in if nodeName = []
         then Panic ''env variable NODE_NAME must be set so that this provisioner can identify itself''
         else if pvDir = []
         then Panic ''env variable PV_DIR must be set so that this provisioner knows where to place its data''
         else Ok \<lparr>hp_pvDir = pvDir, hp_identity = defaultProvisionerName, hp_nodeName = nodeName,
                  hp_useNamingPrefix = (ToLower (getenv ''USE_NAMING_PREFIX'') = ''true'')\<rparr>)"

definition isCorrectNode :: "annotations \<Rightarrow> string \<Rightarrow> string \<Rightarrow> bool" where
  "isCorrectNode annotations nodeName annotationName =
     (case map_of annotations annotationName of
        Some val \<Rightarrow> val = nodeName
      | None \<Rightarrow> False)"

definition isCorrectNodeByBindingMode ::
    "annotations \<Rightarrow> string \<Rightarrow> VolumeBindingMode \<Rightarrow> bool \<times> annotations" where
  \<comment> \<open>the map of annotations is written in place\<close>
  "isCorrectNodeByBindingMode annotations nodeName bindingMode =
     (if map_of annotations annProvisionOnNode \<noteq> None then
        (if isCorrectNode annotations nodeName annProvisionOnNode
         then (True, gomap_put annotations annStorageProvisioner defaultProvisionerName)
         else (False, annotations))
      else if bindingMode = VolumeBindingWaitForFirstConsumer
      then (isCorrectNode annotations nodeName annSelectedNode, annotations)
      else (False, annotations))"

fun provisioner_round :: "int64 \<Rightarrow> int64 list \<Rightarrow> int64" where
  "provisioner_round capacityBytes [] = capacityBytes"
| "provisioner_round capacityBytes (u # us) =
     (let size = int64_quot capacityBytes u
      in if sint size \<ge> 10 then size * u else provisioner_round capacityBytes us)"

definition provisioner_roundDownCapacityPretty :: "int64 \<Rightarrow> int64" where
  "provisioner_roundDownCapacityPretty capacityBytes = provisioner_round capacityBytes [GiB, MiB]"

definition calculatePvCapacity :: "string \<Rightarrow> os \<Rightarrow> go_error + Quantity" where
  "calculatePvCapacity path w =
     (case unix_Statfs path w of
        Inl e \<Rightarrow> Inl (ErrorString (strerror e))
      | Inr statfs \<Rightarrow>
          Inr (NewQuantity (sint (provisioner_roundDownCapacityPretty (Blocks statfs * Bsize statfs)))))"

definition ShouldProvision ::
    "hostPathProvisioner \<Rightarrow> nat \<Rightarrow> VolumeBindingMode option \<Rightarrow> world \<Rightarrow> bool outcome \<times> world" where
  "ShouldProvision p ref bindingMode w =
     (case bindingMode of
        None \<Rightarrow> (Panic nil_deref, w)
      | Some mode \<Rightarrow>
          (let pvc = w_claims w ref;
               (correct, anns) = isCorrectNodeByBindingMode (pvc_Annotations pvc) (hp_nodeName p) mode;
               w' = w\<lparr>w_claims := (w_claims w)(ref := pvc\<lparr>pvc_Annotations := anns\<rparr>)\<rparr>
           in if correct
              then (case calculatePvCapacity (hp_pvDir p) (w_os w) of
                      Inl err \<Rightarrow> (Ok False, w')
                    | Inr pvCapacity \<Rightarrow>
                        (Ok (\<not> pvCapacity < gomap_get 0 (pvc_Requests pvc) ResourceStorage), w'))
              else (Ok False, w')))"

definition Provision :: "hostPathProvisioner \<Rightarrow> ProvisionOptions \<Rightarrow> world \<Rightarrow> PersistentVolume outcome \<times> world" where
  "Provision p options w =
     (let vPath = (if hp_useNamingPrefix p
                   then Join [hp_pvDir p, pvc_Name (po_PVC options) @ ''-'' @ po_PVName options]
                   else Join [hp_pvDir p, po_PVName options])
      in case calculatePvCapacity (hp_pvDir p) (w_os w) of
           Inl err \<Rightarrow> (Err err, w)
         | Inr pvCapacity \<Rightarrow>
             (case os_MkdirAll vPath (w_os w) of
                (Some err, os') \<Rightarrow> (Err err, w\<lparr>w_os := os'\<rparr>)
              | (None, os') \<Rightarrow>
                  (Ok \<lparr>vol_Name = po_PVName options,
                       vol_Annotations = [(annIdentity, hp_identity p), (annProvisionOnNode, hp_nodeName p)],
                       vol_Finalizers = [], vol_DeletionTimestamp = None, vol_Phase = VolumePending,
                       vol_ReclaimPolicy = ReclaimDelete, vol_AccessModes = [ReadWriteOnce],
                       vol_Capacity = [(ResourceStorage, pvCapacity)], vol_HostPath = Some vPath,
                       vol_NodeAffinity =
                         [[\<lparr>nsr_Key = ''kubernetes.io/hostname'', nsr_OpIn = True, nsr_Values = [hp_nodeName p]\<rparr>]],
                       vol_ClaimRef = None, vol_StorageClassName = []\<rparr>,
                   w\<lparr>w_os := os'\<rparr>)))"

definition Delete :: "hostPathProvisioner \<Rightarrow> PersistentVolume \<Rightarrow> world \<Rightarrow> unit outcome \<times> world" where
  "Delete p volume w =
     (case map_of (vol_Annotations volume) annIdentity of
        None \<Rightarrow> (Err (ErrorString ''identity annotation not found on PV''), w)
      | Some ann \<Rightarrow>
          if ann \<noteq> hp_identity p
          then (Err (IgnoredError ''identity annotation on PV does not match ours''), w)
          else if \<not> isCorrectNode (vol_Annotations volume) (hp_nodeName p) annProvisionOnNode
          then (Err (IgnoredError ''identity annotation on pvc does not match ours, not deleting PV''), w)
          else (case vol_HostPath volume of
                  None \<Rightarrow> (Panic nil_deref, w)
                | Some path \<Rightarrow>
                    (case os_RemoveAll path (w_os w) of
                       (Some err, os') \<Rightarrow> (Err err, w\<lparr>w_os := os'\<rparr>)
                     | (None, os') \<Rightarrow> (Ok (), w\<lparr>w_os := os'\<rparr>))))"

definition hostpath_provisioner :: "hostPathProvisioner \<Rightarrow> provisioner" where
  \<comment> \<open>the interfaces that the type implements\<close>
  "hostpath_provisioner p =
     \<lparr>pr_Provision = Provision p, pr_Delete = Delete p, pr_ShouldProvision = Some (ShouldProvision p),
      pr_ShouldDelete = None, pr_SupportsBlock = None, pr_ProvisionExt = None\<rparr>"

section \<open>Facts\<close>

definition backing_directory :: "PersistentVolume \<Rightarrow> world \<Rightarrow> bool" where
  "backing_directory volume w \<longleftrightarrow>
     (\<exists>path. vol_HostPath volume = Some path \<and> path \<noteq> [] \<and> lookup (w_os w) (path_key path) \<noteq> None)"

lemma Join_nonempty: "d \<noteq> [] \<Longrightarrow> Join [d, n] \<noteq> []"
  by (simp add: Join2 Clean_nonempty)

lemma removed_target:
  assumes "os_RemoveAll s w = (None, w')" "lookup w' (path_key s) = Some n"
  shows "s = []"
  using os_RemoveAll_ok [OF assms(1) _ prefix_order.refl] assms(2) by (cases "s = []") simp_all

lemma Provision_Ok:
  assumes "Provision p opts w = (Ok pv, w')"
  obtains path os' where "vol_HostPath pv = Some path" and "os_MkdirAll path (w_os w) = (None, os')"
    and "w' = w\<lparr>w_os := os'\<rparr>" and "hp_pvDir p \<noteq> []" and "path \<noteq> []"
    and "path = Join [hp_pvDir p, (if hp_useNamingPrefix p then pvc_Name (po_PVC opts) @ ''-'' else []) @ po_PVName opts]"
proof -
  have "hp_pvDir p \<noteq> []"
    using assms by (auto simp: Provision_def calculatePvCapacity_def unix_Statfs_def split: sum.splits if_splits)
  then show ?thesis
    using assms that Join_nonempty
    by (auto simp: Provision_def Let_def split: sum.splits prod.splits option.splits if_splits)
qed

interpretation hostpath: asset_provisioner "hostpath_provisioner p" backing_directory for p
proof
  show "w' = w\<lparr>w_os := w_os w'\<rparr>" if "pr_Provision (hostpath_provisioner p) opts w = (r, w')" for opts w r w'
    using that by (auto simp: hostpath_provisioner_def Provision_def Let_def split: sum.splits prod.splits option.splits)
  show "vol_Name pv = po_PVName opts \<and> backing_directory pv w'"
    if "pr_Provision (hostpath_provisioner p) opts w = (Ok pv, w')" for opts w pv w'
  proof -
    have run: "Provision p opts w = (Ok pv, w')" using that by (simp add: hostpath_provisioner_def)
    then have "vol_Name pv = po_PVName opts"
      by (auto simp: Provision_def Let_def split: sum.splits prod.splits option.splits)
    moreover obtain path os' where "vol_HostPath pv = Some path" "os_MkdirAll path (w_os w) = (None, os')"
      "w' = w\<lparr>w_os := os'\<rparr>" "path \<noteq> []" by (rule Provision_Ok [OF run])
    ultimately show ?thesis using os_MkdirAll_ok by (auto simp: backing_directory_def)
  qed
  show "w' = w\<lparr>w_os := w_os w'\<rparr>" if "pr_Delete (hostpath_provisioner p) pv w = (d, w')" for pv w d w'
    using that by (auto simp: hostpath_provisioner_def Delete_def split: option.splits prod.splits if_splits)
  show "\<not> backing_directory pv w'" if "pr_Delete (hostpath_provisioner p) pv w = (Ok (), w')" for pv w w'
    using that
    by (auto simp: hostpath_provisioner_def Delete_def backing_directory_def
        dest: removed_target split: option.splits prod.splits if_splits)
  show "w' = w" if "pr_Delete (hostpath_provisioner p) pv w = (Err (IgnoredError reason), w')" for pv w reason w'
    using that
    by (auto simp: hostpath_provisioner_def Delete_def os_RemoveAll_def Let_def
        split: option.splits prod.splits if_splits list.splits)
  show "backing_directory pv w = backing_directory pv w'" if "w_os w = w_os w'" for pv w w'
    using that by (simp add: backing_directory_def)
  show "backing_directory pv w = backing_directory pv' w" if "vol_HostPath pv = vol_HostPath pv'" for pv pv' w
    using that by (simp add: backing_directory_def)
qed

end
