(* ===== verification/Provision_Properties.thy ===== *)
theory Provision_Properties
  imports Retry_Properties Hostpath_Provisioner
begin

text \<open>
  What the provision controller does to the cluster: provisioning creates at most the volume of the
  claim and never touches another one, deletion acts on released volumes of this provisioner only,
  and the two volume stores keep what they promise. The properties hold for every API server and
  every provisioner that keep the contracts of their interfaces; the last ones compose the
  controller with the hostpath provisioner.
\<close>

section \<open>The store with backoff\<close>

definition stored_only :: "kube_client \<Rightarrow> PersistentVolume \<Rightarrow> world \<Rightarrow> world \<Rightarrow> bool" where
  "stored_only k v w w' \<longleftrightarrow> w_pvs w' = w_pvs w \<or>
     w_pvs w (vol_Name v) = None \<and> w_pvs w' = (w_pvs w)(vol_Name v \<mapsto> admitted k v)"

lemma stored_only_eq: "w_pvs w' = w_pvs w \<Longrightarrow> stored_only k v w w'"
  by (simp add: stored_only_def)

lemma stored_only_trans: "stored_only k v u w \<Longrightarrow> stored_only k v w x \<Longrightarrow> stored_only k v u x"
  by (auto simp: stored_only_def)

context kube_api
begin

lemma create_stored_only:
  assumes "k_CreatePV k v w = (e, w')"
  shows "stored_only k v w w'"
proof (cases e)
  case None
  then show ?thesis using create_ok [of v w w'] assms by (auto simp: stored_only_def)
next
  case (Some err)
  then show ?thesis using create_fails [of v w err w'] assms by (auto simp: stored_only_def)
qed

lemma save_loop_stored:
  assumes "ExponentialBackoff b (save_attempt k v) (l0, w) = (r, l, w')"
  shows "stored_only k v w w'"
proof -
  let ?I = "\<lambda>(l :: go_error option, u). stored_only k v w u"
  have step: "stored_only k v u u'" if "save_attempt k v (l, u) = (x, l', u')" for l u x l' u'
    using that by (cases rule: save_attempt_cases) (use create_stored_only in blast)+
  have inv: "\<forall>s s1. ?I s \<longrightarrow> save_attempt k v s = (Ok False, s1) \<longrightarrow> ?I s1"
    using step stored_only_trans by fastforce
  have "?I (l0, w)" by (simp add: stored_only_eq)
  from ExponentialBackoff_rule [OF assms, of ?I, OF this inv] show ?thesis
    using step stored_only_trans by fastforce
qed

lemma quiet_kube_api: "quiet_client k"
proof -
  have "quiet w w'" if "w' = w\<lparr>w_faults := f\<rparr>" for w w' :: world and f using that by (simp add: quiet_def)
  then show ?thesis unfolding quiet_client_def using get_frame node_frame by (metis prod.collapse)
qed

end

lemma backoff_StoreVolume_stored:
  assumes "kube_api (bs_client b)" "asset_provisioner (bs_provisioner b) asset"
    and "backoff_StoreVolume claim v b w = (r, b', w')"
  shows "stored_only (bs_client b) v w w'" and "r = Ok () \<Longrightarrow> bo_Steps (bs_backoff b) > 0 \<Longrightarrow> w_os w' = w_os w"
proof -
  obtain x l u where loop: "ExponentialBackoff (bs_backoff b) (save_attempt (bs_client b) v) (None, w) = (x, l, u)"
    by (cases "ExponentialBackoff (bs_backoff b) (save_attempt (bs_client b) v) (None, w)") auto
  note save = kube_api.save_loop [OF assms(1) loop] and only = kube_api.save_loop_stored [OF assms(1) loop]
  let ?fail = "record_event (claimToClaimKey claim) EventTypeWarning ''ProvisioningFailed''
    (''Error creating provisioned PV object for claim '' @ claimToClaimKey claim @ '': '' @ error_verb l @ ''. Deleting the volume.'') u"
  obtain y u2 where clean: "clean_asset b claim v ?fail = (y, u2)" by fastforce
  have "stored_only (bs_client b) v w u2"
    using stored_only_trans [OF only stored_only_eq] asset_provisioner.clean_asset_facts(1) [OF assms(2) clean refl] by simp
  then show "stored_only (bs_client b) v w w'"
    using assms(3) loop save(3) only clean stored_only_trans [OF only stored_only_eq]
    by (auto simp: backoff_StoreVolume_def Let_def split: outcome.splits option.splits)
  show "w_os w' = w_os w" if "r = Ok ()" "bo_Steps (bs_backoff b) > 0"
    using assms(3) loop save(2,3) that clean by (auto simp: backoff_StoreVolume_def Let_def split: outcome.splits option.splits)
qed

fun after_attempts :: "kube_client \<Rightarrow> PersistentVolume \<Rightarrow> nat \<Rightarrow> world \<Rightarrow> world" where
  "after_attempts k v 0 w = w"
| "after_attempts k v (Suc n) w = after_attempts k v n (snd (k_CreatePV k v w))"

lemma backoff_succeeds:
  assumes "int n < bo_Steps b" "bo_Cap b \<le> 0" "fst (k_CreatePV k v (after_attempts k v n w)) = None"
  shows "fst (ExponentialBackoff b (save_attempt k v) (l, w)) = Ok ()"
  using assms
proof (induction n arbitrary: b l w)
  case 0
  then show ?case by (subst ExponentialBackoff.simps) (auto simp: save_attempt_def split: prod.splits option.splits)
next
  case (Suc n)
  obtain x l' w' where a: "save_attempt k v (l, w) = (x, l', w')" by (metis surj_pair)
  have w': "w' = snd (k_CreatePV k v w)" and x: "x = Ok True \<or> x = Ok False"
    using a by (auto simp: save_attempt_def split: prod.splits option.splits if_splits)
  show ?case
  proof (cases "x = Ok True")
    case True
    then show ?thesis using a Suc.prems(1) by (subst ExponentialBackoff.simps) simp
  next
    case False
    have "bo_Steps (Backoff_Step b) = bo_Steps b - 1" "bo_Cap (Backoff_Step b) = bo_Cap b"
      using Suc.prems(1,2) by (auto simp: Backoff_Step_def split: option.splits)
    then have "fst (ExponentialBackoff (Backoff_Step b) (save_attempt k v) (l', w')) = Ok ()"
      using Suc.prems w' by (intro Suc.IH) simp_all
    then show ?thesis using a x False Suc.prems(1) by (subst ExponentialBackoff.simps) simp
  qed
qed

text \<open>C32: The blocking store tries as often as it is configured. If one of the attempts is accepted it
  returns without an error, and whenever it returns without an error the volume is in the API server
  and nothing else changed; when it returns an error, its storage asset is gone or an event asks for
  it to be deleted by hand. It never overwrites or removes a volume.\<close>
theorem backoff_store_outcome:
  assumes "kube_api (bs_client b)" "asset_provisioner (bs_provisioner b) asset" "0 < bo_Steps (bs_backoff b)"
    and "backoff_StoreVolume claim v b w = (r, b', w')"
  shows "b' = b \<and> stored_only (bs_client b) v w w' \<and>
    (r = Ok () \<longrightarrow> w_pvs w' (vol_Name v) \<noteq> None \<and> w_os w' = w_os w) \<and>
    (\<forall>e. r = Err e \<longrightarrow> \<not> asset v w' \<or> (\<exists>ev \<in> set (w_events w'). ev_reason ev = ''ProvisioningCleanupFailed'')) \<and>
    (bo_Cap (bs_backoff b) \<le> 0 \<longrightarrow>
      (\<forall>n. int n < bo_Steps (bs_backoff b) \<and>
           fst (k_CreatePV (bs_client b) v (after_attempts (bs_client b) v n w)) = None \<longrightarrow> r = Ok ()))"
proof -
  note facts = backoff_StoreVolume_facts [OF assms(1,2,4)] and stored = backoff_StoreVolume_stored [OF assms(1,2,4)]
  have "r = Ok ()" if "fst (ExponentialBackoff (bs_backoff b) (save_attempt (bs_client b) v) (None, w)) = Ok ()"
    using assms(4) that
    by (cases "ExponentialBackoff (bs_backoff b) (save_attempt (bs_client b) v) (None, w)") (auto simp: backoff_StoreVolume_def)
  then show ?thesis using facts stored assms(3) backoff_succeeds [of _ "bs_backoff b" "bs_client b" v w None] by auto
qed

definition flaky_client :: kube_client where
  \<comment> \<open>the object tracker behind a connection with faults\<close>
  "flaky_client = tracker_client\<lparr>k_CreatePV := (\<lambda>pv w.
     case w_faults w of
       Some e # fs \<Rightarrow> (Some (ErrorString (error_msg e)), w\<lparr>w_faults := fs\<rparr>)
     | _ \<Rightarrow> tracker_add pv False w)\<rparr>"

lemma flaky_api: "kube_api flaky_client"
  by unfold_locales
     (auto simp: flaky_client_def tracker_client_def tracker_Get_def tracker_add_def tracker_Delete_def
       apierrs_IsAlreadyExists_def admitted_def split: option.splits if_splits list.splits)

definition demo_hp :: hostPathProvisioner where
  "demo_hp = \<lparr>hp_pvDir = ''/a'', hp_identity = defaultProvisionerName, hp_nodeName = ''n1'', hp_useNamingPrefix = False\<rparr>"

definition demo_pv :: PersistentVolume where
  "demo_pv = \<lparr>vol_Name = ''pvc-u1'', vol_Annotations = [], vol_Finalizers = [], vol_DeletionTimestamp = None,
     vol_Phase = VolumePending, vol_ReclaimPolicy = ReclaimDelete, vol_AccessModes = [], vol_Capacity = [],
     vol_HostPath = Some ''/a/pvc-u1'', vol_NodeAffinity = [], vol_ClaimRef = None, vol_StorageClassName = []\<rparr>"

definition demo_backoff :: backoffStore where
  "demo_backoff = NewBackoffStore flaky_client \<lparr>bo_Duration = 1, bo_Factor = Some (\<lambda>d. d), bo_Steps = 2, bo_Cap = 0\<rparr>
     (hostpath_provisioner demo_hp)"

theorem backoff_store_outcome_witness:
  "\<exists>w'. backoff_StoreVolume demo_claim demo_pv demo_backoff ((demo_world demo_claim)\<lparr>w_faults := [Some ErrWaitTimeout]\<rparr>)
     = (Ok (), demo_backoff, w') \<and> w_pvs w' ''pvc-u1'' \<noteq> None"
proof -
  let ?w = "(demo_world demo_claim)\<lparr>w_faults := [Some ErrWaitTimeout]\<rparr>"
  obtain r b' w' where run: "backoff_StoreVolume demo_claim demo_pv demo_backoff ?w = (r, b', w')" by (metis surj_pair)
  have api: "kube_api (bs_client demo_backoff)"
    "asset_provisioner (bs_provisioner demo_backoff) backing_directory" "0 < bo_Steps (bs_backoff demo_backoff)"
    using flaky_api hostpath.asset_provisioner_axioms by (simp_all add: demo_backoff_def NewBackoffStore_def)
  have "fst (k_CreatePV (bs_client demo_backoff) demo_pv (after_attempts (bs_client demo_backoff) demo_pv 1 ?w)) = None"
    by (simp add: demo_backoff_def NewBackoffStore_def flaky_client_def tracker_client_def tracker_add_def demo_world_def)
  moreover have "int 1 < bo_Steps (bs_backoff demo_backoff)" "bo_Cap (bs_backoff demo_backoff) \<le> 0"
    by (simp_all add: demo_backoff_def NewBackoffStore_def)
  ultimately have "r = Ok ()" using backoff_store_outcome [OF api run] by blast
  moreover from this have "b' = demo_backoff" "w_pvs w' (vol_Name demo_pv) \<noteq> None"
    using backoff_store_outcome [OF api run] by blast+
  ultimately show ?thesis using run by (simp add: demo_pv_def)
qed

text \<open>With a count that is not positive there is no attempt: the store says that all is well, but neither
  saves the volume nor deletes its asset.\<close>

lemma backoff_store_no_steps:
  assumes "bo_Steps (bs_backoff b) \<le> 0"
  obtains w' where "backoff_StoreVolume claim v b w = (Ok (), b, w')" "w_pvs w' = w_pvs w" "w_os w' = w_os w"
  using assms by (simp add: backoff_StoreVolume_def clean_asset_def ExponentialBackoff.simps)

section \<open>The store with a queue\<close>

datatype store_op = StoreOp PersistentVolumeClaim PersistentVolume | WorkOp | TimerOp string

fun store_apply :: "store_op \<Rightarrow> queueStore \<times> world \<Rightarrow> queueStore \<times> world" where
  "store_apply (StoreOp claim v) (q, w) = snd (queue_StoreVolume claim v q w)"
| "store_apply WorkOp (q, w) = (case store_processNextWorkItem q w of None \<Rightarrow> (q, w) | Some (_, s) \<Rightarrow> s)"
| "store_apply (TimerOp n) (q, w) = (q\<lparr>st_queue := wq_ready n (st_queue q)\<rparr>, w)"

definition saved_or_pending :: "string \<Rightarrow> queueStore \<times> world \<Rightarrow> bool" where
  "saved_or_pending n s \<longleftrightarrow> w_pvs (snd s) n \<noteq> None \<or> map_of (st_volumes (fst s)) n \<noteq> None"

lemma store_apply_inv:
  assumes "queue_inv q" "store_apply op (q, w) = (q', w')"
  shows "queue_inv q' \<and> volumes_kept w w' \<and> (\<forall>n. saved_or_pending n (q, w) \<longrightarrow> saved_or_pending n (q', w')) \<and>
    (\<forall>claim v. op = StoreOp claim v \<longrightarrow> saved_or_pending (vol_Name v) (q', w')) \<and> st_client q' = st_client q"
proof (cases op)
  case (StoreOp claim v)
  then obtain r where run: "queue_StoreVolume claim v q w = (r, q', w')" using assms(2) by (metis eq_snd_iff store_apply.simps(1))
  have vols: "st_volumes q' = st_volumes q \<or> st_volumes q' = gomap_put (st_volumes q) (vol_Name v) v" "st_client q' = st_client q"
    using run by (auto simp: queue_StoreVolume_def split: prod.splits option.splits)
  have "saved_or_pending n (q', w')" if "saved_or_pending n (q, w)" for n
    using that vols queue_StoreVolume_facts(2) [OF assms(1) run]
    by (auto simp: saved_or_pending_def volumes_kept_def split: if_splits)
  then show ?thesis using queue_StoreVolume_facts [OF assms(1) run] StoreOp vols(2) by (auto simp: saved_or_pending_def)
next
  case WorkOp
  show ?thesis
  proof (cases "\<exists>n g. wq_Get (st_queue q) = (Item n, g)")
    case True
    then obtain n g where get: "wq_Get (st_queue q) = (Item n, g)" by blast
    let ?q = "q\<lparr>st_queue := g\<rparr>"
    have run: "save_item n ?q w = (q', w')" using WorkOp assms(2) get by (auto simp: store_processNextWorkItem_def split: prod.splits)
    have wq: "wq_inv (st_queue q)" using assms(1) by (simp add: queue_inv_def)
    have inv: "queue_inv ?q" "n \<in> wq_processing (st_queue ?q)"
      using assms(1) wq_inv_Get [OF wq] wq_Get_shuttingDown [OF get] wq_Get_Item [OF wq get] scheduled_Get [OF wq get] get
      by (simp_all add: queue_inv_def)
    note f = save_item_facts [OF inv run]
    have "saved_or_pending m (q', w')" if "saved_or_pending m (q, w)" for m
      using that f(2) f(3) [of m] by (auto simp: saved_or_pending_def volumes_kept_def)
    moreover have "st_client q' = st_client q"
      using run by (auto simp: save_item_def Let_def split: option.splits prod.splits)
    ultimately show ?thesis using f(1,2) WorkOp by simp
  next
    case False
    then have "q' = q" "w' = w" using WorkOp assms(2)
      by (cases "wq_Get (st_queue q)"; cases "fst (wq_Get (st_queue q))"; simp add: store_processNextWorkItem_def)+
    then show ?thesis using assms(1) WorkOp by simp
  qed
next
  case (TimerOp n)
  then show ?thesis using assms wq_inv_ready by (auto simp: queue_inv_def saved_or_pending_def)
qed

lemma store_run_inv:
  assumes "queue_inv q" "fold store_apply ops (q, w) = (q', w')"
  shows "queue_inv q' \<and> volumes_kept w w' \<and> (\<forall>n. saved_or_pending n (q, w) \<longrightarrow> saved_or_pending n (q', w')) \<and>
    (\<forall>claim v. StoreOp claim v \<in> set ops \<longrightarrow> saved_or_pending (vol_Name v) (q', w')) \<and> st_client q' = st_client q"
  using assms
proof (induction ops arbitrary: q w)
  case (Cons op ops)
  obtain q1 w1 where step: "store_apply op (q, w) = (q1, w1)" by fastforce
  note one = store_apply_inv [OF Cons.prems(1) step]
  have "fold store_apply ops (q1, w1) = (q', w')" using Cons.prems(2) step by simp
  with Cons.IH one have "queue_inv q' \<and> volumes_kept w1 w' \<and> (\<forall>n. saved_or_pending n (q1, w1) \<longrightarrow> saved_or_pending n (q', w')) \<and>
    (\<forall>claim v. StoreOp claim v \<in> set ops \<longrightarrow> saved_or_pending (vol_Name v) (q', w')) \<and> st_client q' = st_client q1" by blast
  then show ?case using one volumes_kept_trans by auto
qed simp

lemma new_queue_inv: "kube_api client \<Longrightarrow> queue_inv (NewVolumeStoreQueue client limiter)"
  by (simp add: queue_inv_def NewVolumeStoreQueue_def newQueue_def wq_inv_def)

text \<open>C31: The background store never loses a volume. After any sequence of stored volumes, worker steps
  and timers, every volume that was handed to it is in the API server or kept with an entry in the
  queue, a running worker or a timer; volumes that were saved stay as they are. When the API server
  accepts the volume at the head of the queue, the next worker step saves it and forgets it.\<close>
theorem queue_store_keeps_volumes:
  assumes "kube_api client" "fold store_apply ops (NewVolumeStoreQueue client limiter, w) = (q, w')"
  shows "(\<forall>claim v. StoreOp claim v \<in> set ops \<longrightarrow>
      w_pvs w' (vol_Name v) \<noteq> None \<or> map_of (st_volumes q) (vol_Name v) \<noteq> None \<and> scheduled (st_queue q) (vol_Name v)) \<and>
    (\<forall>n x. w_pvs w n = Some x \<longrightarrow> w_pvs w' n = Some x) \<and>
    (\<forall>n rest v. wq_queue (st_queue q) = n # rest \<and> map_of (st_volumes q) n = Some v \<and> fst (k_CreatePV client v w') = None \<longrightarrow>
      (\<exists>q2 w2. store_processNextWorkItem q w' = Some (True, q2, w2) \<and> w_pvs w2 n \<noteq> None \<and> map_of (st_volumes q2) n = None))"
proof -
  have run: "queue_inv q" "volumes_kept w w'" "st_client q = client"
    "\<And>claim v. StoreOp claim v \<in> set ops \<Longrightarrow> saved_or_pending (vol_Name v) (q, w')"
    using store_run_inv [OF new_queue_inv [OF assms(1)] assms(2)] by (simp_all add: NewVolumeStoreQueue_def)
  have "\<exists>q2 w2. store_processNextWorkItem q w' = Some (True, q2, w2) \<and> w_pvs w2 n \<noteq> None \<and> map_of (st_volumes q2) n = None"
    if head: "wq_queue (st_queue q) = n # rest" and v: "map_of (st_volumes q) n = Some v"
      and ok: "fst (k_CreatePV client v w') = None" for n rest v
  proof -
    obtain g where get: "wq_Get (st_queue q) = (Item n, g)" using head by (simp add: wq_Get_def)
    let ?q = "q\<lparr>st_queue := g\<rparr>"
    have wq: "wq_inv (st_queue q)" using run(1) by (simp add: queue_inv_def)
    have inv: "queue_inv ?q" "n \<in> wq_processing (st_queue ?q)"
      using run(1) wq_inv_Get [OF wq] wq_Get_shuttingDown [OF get] wq_Get_Item [OF wq get] scheduled_Get [OF wq get] get
      by (simp_all add: queue_inv_def)
    obtain q2 w2 where item: "save_item n ?q w' = (q2, w2)" by fastforce
    then have "w_pvs w2 n \<noteq> None \<and> map_of (st_volumes q2) n = None"
      using save_item_facts(4) [OF inv item] v ok run(3) by simp
    then show ?thesis using get item by (simp add: store_processNextWorkItem_def)
  qed
  moreover have "w_pvs w' (vol_Name v) \<noteq> None \<or> map_of (st_volumes q) (vol_Name v) \<noteq> None \<and> scheduled (st_queue q) (vol_Name v)"
    if "StoreOp claim v \<in> set ops" for claim v
    using run(4) [OF that] run(1) by (auto simp: saved_or_pending_def queue_inv_def)
  ultimately show ?thesis using run(2) unfolding volumes_kept_def by blast
qed

theorem queue_store_keeps_volumes_witness:
  "\<exists>q w'. fold store_apply [StoreOp demo_claim demo_pv] (NewVolumeStoreQueue flaky_client (exponential_limiter 1 10),
       (demo_world demo_claim)\<lparr>w_faults := [Some ErrWaitTimeout]\<rparr>) = (q, w') \<and>
     w_pvs w' ''pvc-u1'' = None \<and> map_of (st_volumes q) ''pvc-u1'' \<noteq> None \<and>
     (\<exists>q2 w2. store_processNextWorkItem q w' = Some (True, q2, w2) \<and> w_pvs w2 ''pvc-u1'' \<noteq> None)"
proof -
  let ?q = "(NewVolumeStoreQueue flaky_client (exponential_limiter 1 10))\<lparr>st_volumes := [(''pvc-u1'', demo_pv)],
    st_queue := newQueue\<lparr>wq_queue := [''pvc-u1''], wq_dirty := {''pvc-u1''}\<rparr>\<rparr>"
  let ?s = "(NewVolumeStoreQueue flaky_client (exponential_limiter 1 10), (demo_world demo_claim)\<lparr>w_faults := [Some ErrWaitTimeout]\<rparr>)"
  have run: "fold store_apply [StoreOp demo_claim demo_pv] ?s = (?q, demo_world demo_claim)"
    by (simp add: queue_StoreVolume_def doSaveVolume_def flaky_client_def NewVolumeStoreQueue_def demo_world_def demo_pv_def
        apierrs_IsAlreadyExists_def wq_Add_def newQueue_def)
  have "\<exists>q2 w2. store_processNextWorkItem ?q (demo_world demo_claim) = Some (True, q2, w2) \<and> w_pvs w2 ''pvc-u1'' \<noteq> None"
    using queue_store_keeps_volumes [OF flaky_api run]
    by (simp add: flaky_client_def tracker_client_def tracker_add_def demo_world_def demo_pv_def) blast
  then show ?thesis using run by (simp add: demo_world_def demo_pv_def)
qed

section \<open>Provisioning a claim\<close>

lemma finish_volume_facts:
  defines "v' \<equiv> \<lambda>v c cls cr. finish_volume c cls cr v"
  shows "vol_Name (v' v c cls cr) = vol_Name v" "vol_HostPath (v' v c cls cr) = vol_HostPath v"
    "vol_ClaimRef (v' v c cls cr) = Some cr" "vol_ReclaimPolicy (v' v c cls cr) = vol_ReclaimPolicy v"
    "map_of (vol_Annotations (v' v c cls cr)) annDynamicallyProvisioned = Some (pc_provisionerName c)"
    "AtLeast (pc_kubeVersion c) (semantic [1, 6, 0]) \<Longrightarrow> vol_StorageClassName (v' v c cls cr) = cls"
    "pc_addFinalizer c \<Longrightarrow> finalizerPV \<in> set (vol_Finalizers (v' v c cls cr))"
  by (auto simp: v'_def finish_volume_def Let_def SetMetaDataAnnotation_def annDynamicallyProvisioned_def annClass_def
      checkFinalizer_def list_ex_iff)

definition blocking_store :: "ProvisionController \<Rightarrow> Backoff \<Rightarrow> VolumeStore" where
  "blocking_store c b = BackoffStore \<lparr>bs_client = pc_client c, bs_backoff = b, bs_provisioner = pc_provisioner c\<rparr>"

lemma provision_and_store_facts:
  assumes "kube_api (pc_client c)" "asset_provisioner (pc_provisioner c) asset" "pr_ProvisionExt (pc_provisioner c) = None"
    and "cs_store s = blocking_store c b" "0 < bo_Steps b"
    and "provision_and_store c claim cr opts s = ((st, r), s')"
  obtains "w_pvs (cs_world s') = w_pvs (cs_world s)"
  | v w0 w1 where "vol_Name v = po_PVName opts" "stored_only (pc_client c) (finish_volume c (GetPersistentVolumeClaimClass claim) cr v) (cs_world s) (cs_world s')"
      "r = Ok () \<longrightarrow> asset (finish_volume c (GetPersistentVolumeClaimClass claim) cr v) (cs_world s')"
      "pr_Provision (pc_provisioner c) opts w0 = (Ok v, w1)" "w_os w0 = w_os (cs_world s)" "r = Ok () \<longrightarrow> w_os (cs_world s') = w_os w1"
proof -
  let ?w = "record_event (claimToClaimKey claim) EventTypeNormal ''Provisioning''
    (''External provisioner is provisioning volume for claim '' @ quote (claimToClaimKey claim)) (cs_world s)"
  obtain q w1 where prov: "pr_Provision (pc_provisioner c) opts ?w = (q, w1)" by fastforce
  have w1: "w_pvs w1 = w_pvs (cs_world s)" using asset_provisioner.provision_keeps_volumes [OF assms(2) prov] by simp
  note run = assms(6) [unfolded provision_and_store_def Let_def call_provision_def assms(3) option.case prov prod.case]
  show thesis
  proof (cases q)
    case (Ok v)
    let ?v = "finish_volume c (GetPersistentVolumeClaimClass claim) cr v"
    let ?b = "\<lparr>bs_client = pc_client c, bs_backoff = b, bs_provisioner = pc_provisioner c\<rparr>"
    obtain r' b' w2 where store: "backoff_StoreVolume claim ?v ?b w1 = (r', b', w2)" by (metis surj_pair)
    have r': "r = r'" "cs_world s' = w2"
      using run Ok store assms(4) by (auto simp: store_result_def StoreVolume_def blocking_store_def)
    have ok: "vol_Name v = po_PVName opts" "asset v w1"
      using asset_provisioner.provision_ok [OF assms(2)] prov Ok by blast+
    have "stored_only (pc_client c) ?v (cs_world s) w2"
      using stored_only_trans [OF stored_only_eq backoff_StoreVolume_stored(1) [OF _ _ store]] w1 assms(1,2) by simp
    moreover have "asset ?v w2" if "r = Ok ()"
      using backoff_StoreVolume_stored(2) [OF _ _ store] assms(1,2,5) that r'(1) ok(2)
        asset_provisioner.asset_os [OF assms(2), of w2 w1] asset_provisioner.asset_source [OF assms(2), of ?v v] finish_volume_facts(2)
      by simp
    moreover have "r = Ok () \<longrightarrow> w_os (cs_world s') = w_os w1"
      using backoff_StoreVolume_stored(2) [OF _ _ store] assms(1,2,5) r' by simp
    ultimately show thesis using that(2) [of v ?w w1] ok(1) r'(2) prov Ok by simp
  next
    case (Err e)
    then have "w_pvs (cs_world s') = w_pvs w1" using run by (auto simp: warn_def split: go_error.splits)
    then show thesis using that(1) w1 by simp
  next
    case (Panic m)
    then have "w_pvs (cs_world s') = w_pvs w1" using run by auto
    then show thesis using that(1) w1 by simp
  qed
qed

text \<open>C27: Provisioning a claim, for any API server and any provisioner that keep their contracts: no
  volume but the one named after the UID of the claim is created, and none is changed or removed; a
  volume that is created refers to the claim, carries the name of this provisioner, the class of the
  claim and, if configured, the finalizer, and the class exists and belongs to this provisioner; when
  no error is returned the storage asset of the new volume exists.\<close>
theorem provision_claim_correct:
  assumes "kube_api (pc_client c)" "asset_provisioner (pc_provisioner c) asset" "pr_ProvisionExt (pc_provisioner c) = None"
    and "cs_store s = blocking_store c b" "0 < bo_Steps b"
    and "provisionClaimOperation c ref s = ((st, r), s')"
    and "claim = w_claims (cs_world s) ref" "n = getProvisionedVolumeNameForClaim claim"
  shows "(\<forall>m. m \<noteq> n \<or> w_pvs (cs_world s) m \<noteq> None \<longrightarrow> w_pvs (cs_world s') m = w_pvs (cs_world s) m) \<and>
    (\<forall>v. w_pvs (cs_world s) n = None \<and> w_pvs (cs_world s') n = Some v \<longrightarrow>
      (\<exists>cr. GetReference (pc_scheme c) claim = Inr cr \<and> vol_ClaimRef v = Some cr) \<and>
      map_of (vol_Annotations v) annDynamicallyProvisioned = Some (pc_provisionerName c) \<and>
      (AtLeast (pc_kubeVersion c) (semantic [1, 6, 0]) \<longrightarrow> vol_StorageClassName v = GetPersistentVolumeClaimClass claim) \<and>
      (pc_addFinalizer c \<longrightarrow> finalizerPV \<in> set (vol_Finalizers v)) \<and>
      (\<exists>cls. getStorageClass s (GetPersistentVolumeClaimClass claim) = Inr cls \<and> knownProvisioner c (sc_Provisioner cls)) \<and>
      (r = Ok () \<longrightarrow> asset v (cs_world s')))"
  using assms(6)
proof (cases rule: provisionClaimOperation_cases)
  case early
  then have "w_pvs (cs_world s') = w_pvs (cs_world s)"
    using kube_api.quiet_kube_api [OF assms(1)] by (simp add: untouched_def quiet_def)
  then show ?thesis by auto
next
  case (go e w1 cr cls node s2)
  have s2: "w_pvs (cs_world s2) = w_pvs (cs_world s)" "cs_store s2 = blocking_store c b"
    using go(6) kube_api.quiet_kube_api [OF assms(1)] assms(4) by (auto simp: untouched_def quiet_def)
  note cls = go(2,4,5) [folded assms(7)]
  show ?thesis
  proof (rule provision_and_store_facts [OF assms(1-3) s2(2) assms(5) go(7)], goal_cases same new)
    case same
    then show ?case using s2(1) by auto
  next
    case (new v)
    let ?v = "finish_volume c (GetPersistentVolumeClaimClass claim) cr v"
    have name: "vol_Name ?v = n" using new(1) finish_volume_facts(1) assms(7,8) by simp
    have only: "w_pvs (cs_world s') = w_pvs (cs_world s) \<or>
        w_pvs (cs_world s) n = None \<and> w_pvs (cs_world s') = (w_pvs (cs_world s))(n \<mapsto> admitted (pc_client c) ?v)"
      using new(2) name s2(1) assms(7) by (simp add: stored_only_def)
    have "r = Ok () \<longrightarrow> asset (admitted (pc_client c) ?v) (cs_world s')"
      using new(3) assms(7) asset_provisioner.asset_source [OF assms(2), of "admitted (pc_client c) ?v" ?v] by simp
    moreover have "pc_addFinalizer c \<longrightarrow> finalizerPV \<in> set (vol_Finalizers (admitted (pc_client c) ?v))"
      using finish_volume_facts(7) [of c "GetPersistentVolumeClaimClass claim" cr v]
        kube_api.admission_keeps [OF assms(1), of "vol_Finalizers ?v"] by auto
    ultimately show ?case using only cls finish_volume_facts(3,5,6) [where c = c and v = v] by auto
  qed
qed

text \<open>The deployed controller on a node with one volume directory.\<close>

definition hp_c :: ProvisionController where
  "hp_c = default_controller tracker_client defaultProvisionerName (hostpath_provisioner demo_hp) (semantic [1, 20, 0])
     (Inr (''PersistentVolumeClaim'', ''v1'')) ''host_id'' ''ns''"

definition hp_claim :: PersistentVolumeClaim where
  "hp_claim = demo_claim\<lparr>pvc_Annotations := [(ctrl_annStorageProvisioner, defaultProvisionerName), (ctrl_annSelectedNode, ''n1'')]\<rparr>"

definition hp_s :: ctrl_state where
  "hp_s = \<lparr>cs_limiter = queue_limiter hp_c, cs_claimQueue = newQueue, cs_volumeQueue = newQueue, cs_claims = [ClaimObject 0],
     cs_volumes = [], cs_classes = [(''fast'', ClassV1 (demo_class defaultProvisionerName))], cs_claimsInProgress = [],
     cs_store = volume_store hp_c, cs_bindingModewarned = False, cs_world = demo_world hp_claim\<rparr>"

lemma hp_api:
  "kube_api (pc_client hp_c)" "asset_provisioner (pc_provisioner hp_c) backing_directory" "pr_ProvisionExt (pc_provisioner hp_c) = None"
  using tracker.kube_api_axioms hostpath.asset_provisioner_axioms
  by (simp_all add: hp_c_def default_controller_def hostpath_provisioner_def)

lemma hp_store:
  obtains b where "cs_store hp_s = blocking_store hp_c b" "0 < bo_Steps b" "bo_Cap b \<le> 0"
  by (simp add: hp_s_def volume_store_def hp_c_def default_controller_def blocking_store_def NewBackoffStore_def
      DefaultCreateProvisionedPVRetryCount_def)

lemma hp_provisioned:
  obtains s' v where "provisionClaimOperation hp_c 0 hp_s = ((ProvisioningFinished, Ok ()), s')" "w_pvs (cs_world s') ''pvc-u1'' = Some v"
proof -
  have "case provisionClaimOperation hp_c 0 hp_s of ((ProvisioningFinished, Ok _), s') \<Rightarrow> \<not> Option.is_none (w_pvs (cs_world s') ''pvc-u1'')
    | _ \<Rightarrow> False" by code_simp
  then show thesis using that by (auto split: prod.splits outcome.splits ProvisioningState.splits simp: Option.is_none_def)
qed

theorem provision_claim_correct_witness:
  "\<exists>s' v. provisionClaimOperation hp_c 0 hp_s = ((ProvisioningFinished, Ok ()), s') \<and> w_pvs (cs_world s') ''pvc-u1'' = Some v \<and>
     map_of (vol_Annotations v) annDynamicallyProvisioned = Some defaultProvisionerName \<and> backing_directory v (cs_world s')"
proof -
  obtain s' v where run: "provisionClaimOperation hp_c 0 hp_s = ((ProvisioningFinished, Ok ()), s')"
    and v: "w_pvs (cs_world s') ''pvc-u1'' = Some v" by (rule hp_provisioned)
  obtain b where b: "cs_store hp_s = blocking_store hp_c b" "0 < bo_Steps b" by (rule hp_store)
  have n: "getProvisionedVolumeNameForClaim (w_claims (cs_world hp_s) 0) = ''pvc-u1''" "w_pvs (cs_world hp_s) ''pvc-u1'' = None"
    by (simp_all add: hp_s_def demo_world_def getProvisionedVolumeNameForClaim_def hp_claim_def demo_claim_def)
  have "pc_provisionerName hp_c = defaultProvisionerName" by (simp add: hp_c_def default_controller_def)
  then show ?thesis using provision_claim_correct [OF hp_api b run refl refl] run v n by simp
qed

section \<open>Deleting a volume\<close>

definition pvs_named :: "world \<Rightarrow> bool" where
  "pvs_named w \<longleftrightarrow> (\<forall>n v. w_pvs w n = Some v \<longrightarrow> vol_Name v = n)"

lemma shouldDelete_facts:
  assumes "shouldDelete c v w"
  shows "vol_ReclaimPolicy v = ReclaimDelete" "map_of (vol_Annotations v) annDynamicallyProvisioned = Some (pc_provisionerName c)"
    "AtLeast (pc_kubeVersion c) (semantic [1, 5, 0]) \<Longrightarrow> vol_Phase v = VolumeReleased"
    "AtLeast (pc_kubeVersion c) (semantic [1, 9, 0]) \<Longrightarrow> vol_DeletionTimestamp v = None"
  using assms by (auto simp: shouldDelete_def split: if_splits option.splits)

context kube_api
begin

lemma get_quiet: "k_GetPV k n w = (r, w') \<Longrightarrow> quiet w w'"
  using quiet_getPV [OF quiet_kube_api] .

lemma update_os: "k_UpdatePV k v w = (e, w') \<Longrightarrow> w_os w' = w_os w"
  by (drule update_frame) (metis world.ext_inject world.surjective world.update_convs(2,6))

lemma delete_os: "k_DeletePV k n w = (e, w') \<Longrightarrow> w_os w' = w_os w"
  by (drule delete_frame) (metis world.ext_inject world.surjective world.update_convs(2,6))

lemma remove_finalizer_frame:
  assumes "pc_client c = k" "remove_finalizer c v n s = (r, s')"
    and "\<And>x. w_pvs (cs_world s) n = Some x \<Longrightarrow> vol_Name x = n"
  shows "w_os (cs_world s') = w_os (cs_world s)" "m \<noteq> n \<Longrightarrow> w_pvs (cs_world s') m = w_pvs (cs_world s) m"
proof -
  obtain g w1 where get: "k_GetPV k n (cs_world s) = (g, w1)" by fastforce
  have q: "quiet (cs_world s) w1" by (rule get_quiet [OF get])
  have named: "vol_Name x = n" if "g = Inr x" for x using get_found [of n "cs_world s" x w1] get that assms(3) by simp
  have up: "w_os w2 = w_os w1 \<and> (m \<noteq> n \<longrightarrow> w_pvs w2 m = w_pvs w1 m)" if "k_UpdatePV k v w1 = (e, w2)" "vol_Name v = n" for v e w2
    using update_os [OF that(1)] update_other [OF that(1)] that(2) by simp
  have "w_os (cs_world s') = w_os (cs_world s) \<and> (m \<noteq> n \<longrightarrow> w_pvs (cs_world s') m = w_pvs (cs_world s) m)"
  proof (cases g)
    case (Inl e)
    then show ?thesis using assms(1,2) get q by (auto simp: remove_finalizer_def quiet_def split: if_splits)
  next
    case (Inr x)
    let ?x = "x\<lparr>vol_Finalizers := filter (\<lambda>f. f \<noteq> finalizerPV) (vol_Finalizers x)\<rparr>"
    obtain e w2 where upd: "k_UpdatePV k ?x w1 = (e, w2)" by fastforce
    have "w_os w2 = w_os w1 \<and> (m \<noteq> n \<longrightarrow> w_pvs w2 m = w_pvs w1 m)" using up [OF upd] named [OF Inr] by simp
    then show ?thesis using assms(1,2) get q Inr upd
      by (auto simp: remove_finalizer_def quiet_def Let_def split: if_splits option.splits)
  qed
  then show "w_os (cs_world s') = w_os (cs_world s)" "m \<noteq> n \<Longrightarrow> w_pvs (cs_world s') m = w_pvs (cs_world s) m" by blast+
qed

end

text \<open>The outcomes of a deletion: nothing is done, the provisioner fails or ignores it, or the asset is
  deleted first and then the object.\<close>

lemma deleteVolumeOperation_cases:
  assumes "kube_api (pc_client c)" "asset_provisioner (pc_provisioner c) asset" "pvs_named (cs_world s)"
    and "deleteVolumeOperation c vol s = (r, s')"
  obtains (skip) "quiet (cs_world s) (cs_world s')" "r = Ok ()"
  | (failed) fresh w where "w_pvs (cs_world s) (vol_Name vol) = Some fresh" "shouldDelete c fresh w" "quiet (cs_world s) w"
      "w_pvs (cs_world s') = w_pvs (cs_world s)" "fst (pr_Delete (pc_provisioner c) vol w) \<noteq> Ok ()"
  | (deleted) fresh w w2 e w3 where "w_pvs (cs_world s) (vol_Name vol) = Some fresh" "shouldDelete c fresh w" "quiet (cs_world s) w"
      "pr_Delete (pc_provisioner c) vol w = (Ok (), w2)" "w_os (cs_world s') = w_os w2" "\<not> asset vol (cs_world s')"
      "k_DeletePV (pc_client c) (vol_Name vol) w2 = (e, w3)" "w_pvs w2 = w_pvs (cs_world s)"
      "\<forall>m. m \<noteq> vol_Name vol \<longrightarrow> w_pvs (cs_world s') m = w_pvs (cs_world s) m"
      "e = None \<longrightarrow> remove_finalizer c fresh (vol_Name vol) (s\<lparr>cs_world := w3\<rparr>) = (r, s')"
      "\<forall>x. e = Some x \<longrightarrow> r = Err x \<and> cs_world s' = w3"
proof -
  let ?n = "vol_Name vol"
  obtain g w where get: "k_GetPV (pc_client c) ?n (cs_world s) = (g, w)" by fastforce
  have q: "quiet (cs_world s) w" by (rule kube_api.get_quiet [OF assms(1) get])
  note run = assms(4) [unfolded deleteVolumeOperation_def get prod.case]
  show thesis
  proof (cases "\<exists>fresh. g = Inr fresh \<and> shouldDelete c fresh w")
    case False
    then show thesis using run q skip by (cases g) auto
  next
    case True
    then obtain fresh where g: "g = Inr fresh" and should: "shouldDelete c fresh w" by blast
    have fresh: "w_pvs (cs_world s) ?n = Some fresh" using kube_api.get_found [OF assms(1)] get g by blast
    obtain d w2 where del: "pr_Delete (pc_provisioner c) vol w = (d, w2)" by fastforce
    have w2: "w_pvs w2 = w_pvs (cs_world s)"
      using asset_provisioner.delete_keeps_volumes [OF assms(2) del] q by (simp add: quiet_def)
    note run' = run [unfolded g sum.case if_not_P del prod.case]
    show thesis
    proof (cases "d = Ok ()")
      case False
      then have "w_pvs (cs_world s') = w_pvs w2"
        using run' should by (auto split: outcome.splits go_error.splits)
      then show thesis using failed [OF fresh should q] w2 del False by simp
    next
      case True
      obtain e w3 where api: "k_DeletePV (pc_client c) ?n w2 = (e, w3)" by fastforce
      have os3: "w_os w3 = w_os w2" by (rule kube_api.delete_os [OF assms(1) api])
      have other: "w_pvs w3 m = w_pvs (cs_world s) m" if "m \<noteq> ?n" for m
        using kube_api.delete_other [OF assms(1) api that] w2 by simp
      have gone: "\<not> asset vol w2" using asset_provisioner.delete_ok [OF assms(2)] del True by simp
      have asset: "\<not> asset vol u" if "w_os u = w_os w2" for u
        using asset_provisioner.asset_os [OF assms(2) that, of vol] gone by simp
      have del': "pr_Delete (pc_provisioner c) vol w = (Ok (), w2)" using del True by simp
      show thesis
      proof (cases e)
        case (Some x)
        then have r: "r = Err x" "cs_world s' = w3" using run' should True api by auto
        show thesis
          by (rule deleted [OF fresh should q del' _ _ api w2]) (use r os3 asset other Some in simp_all)
      next
        case None
        have named: "vol_Name x = ?n" if "w_pvs (cs_world (s\<lparr>cs_world := w3\<rparr>)) ?n = Some x" for x
          using kube_api.delete_ok [OF assms(1), of ?n w2 w3] api None that w2 assms(3) by (auto simp: pvs_named_def)
        have fin: "remove_finalizer c fresh ?n (s\<lparr>cs_world := w3\<rparr>) = (r, s')" using run' should True api None by auto
        note frame = kube_api.remove_finalizer_frame [OF assms(1) refl fin named]
        have os: "w_os (cs_world s') = w_os w2" using frame(1) os3 by simp
        have "\<forall>m. m \<noteq> ?n \<longrightarrow> w_pvs (cs_world s') m = w_pvs (cs_world s) m" using frame(2) other by simp
        then show thesis
          by (rule deleted [OF fresh should q del' os asset [OF os] api w2]) (use fin None in simp_all)
      qed
    qed
  qed
qed

lemma syncVolumeHandler_cases:
  assumes "map_of (cs_volumes s) key = Some (VolumeObject vol)" "syncVolumeHandler c key s = (r, s')"
  obtains "s' = s" "r = Ok ()" | "deleteVolumeOperation c vol s = (r, s')"
proof (cases "shouldDelete c vol (cs_world s)")
  case True
  then show thesis using assms by (intro that(2)) (simp add: syncVolumeHandler_def syncVolume_def)
next
  case False
  then show thesis using assms by (intro that(1)) (simp_all add: syncVolumeHandler_def syncVolume_def)
qed

text \<open>C28: Synchronising a volume, for any API server and any provisioner that keep their contracts:
  nothing is done to the cluster or the node unless the volume in the API server (not only the cached
  one) is released, has the reclaim policy \<open>Delete\<close>, was provisioned by this provisioner and is not being
  deleted already; only the object of that volume changes, and it changes only after its storage asset
  is gone.\<close>
theorem delete_volume_guarded:
  assumes "kube_api (pc_client c)" "asset_provisioner (pc_provisioner c) asset" "pvs_named (cs_world s)"
    and "map_of (cs_volumes s) key = Some (VolumeObject vol)" "syncVolumeHandler c key s = (r, s')"
  shows "(\<forall>m. m \<noteq> vol_Name vol \<longrightarrow> w_pvs (cs_world s') m = w_pvs (cs_world s) m) \<and>
    (w_pvs (cs_world s') \<noteq> w_pvs (cs_world s) \<longrightarrow> \<not> asset vol (cs_world s')) \<and>
    (w_pvs (cs_world s') \<noteq> w_pvs (cs_world s) \<or> w_os (cs_world s') \<noteq> w_os (cs_world s) \<longrightarrow>
      (\<exists>fresh. w_pvs (cs_world s) (vol_Name vol) = Some fresh \<and> vol_ReclaimPolicy fresh = ReclaimDelete \<and>
        map_of (vol_Annotations fresh) annDynamicallyProvisioned = Some (pc_provisionerName c) \<and>
        (AtLeast (pc_kubeVersion c) (semantic [1, 5, 0]) \<longrightarrow> vol_Phase fresh = VolumeReleased) \<and>
        (AtLeast (pc_kubeVersion c) (semantic [1, 9, 0]) \<longrightarrow> vol_DeletionTimestamp fresh = None)))"
  using assms(4,5)
proof (cases rule: syncVolumeHandler_cases)
  case 1
  then show ?thesis by simp
next
  case 2
  from assms(1-3) 2 show ?thesis
  proof (cases rule: deleteVolumeOperation_cases)
    case skip
    then show ?thesis by (simp add: quiet_def)
  next
    case (failed fresh w)
    then show ?thesis using shouldDelete_facts [OF failed(2)] by simp
  next
    case (deleted fresh w w2 e w3)
    then show ?thesis using shouldDelete_facts [OF deleted(2)] by simp
  qed
qed

definition released_pv :: PersistentVolume where
  "released_pv = demo_pv\<lparr>vol_Annotations := [(annIdentity, defaultProvisionerName), (annProvisionOnNode, ''n1''),
     (annDynamicallyProvisioned, defaultProvisionerName)], vol_Phase := VolumeReleased\<rparr>"

definition released_s :: "PersistentVolume \<Rightarrow> ctrl_state" where
  "released_s pv = hp_s\<lparr>cs_volumes := [(''pvc-u1'', VolumeObject released_pv)],
     cs_world := (demo_world hp_claim)\<lparr>w_pvs := [''pvc-u1'' \<mapsto> pv],
       w_os := demo_os [([''a''], Directory), ([''a'', ''pvc-u1''], Directory), ([''a'', ''pvc-u1'', ''f''], RegularFile ''x'')]\<rparr>\<rparr>"

theorem delete_volume_guarded_witness:
  "\<exists>s'. syncVolumeHandler hp_c ''pvc-u1'' (released_s released_pv) = (Ok (), s') \<and> w_pvs (cs_world s') ''pvc-u1'' = None \<and>
     \<not> backing_directory released_pv (cs_world s')"
proof -
  let ?s = "released_s released_pv"
  have "case syncVolumeHandler hp_c ''pvc-u1'' ?s of (Ok _, s') \<Rightarrow> Option.is_none (w_pvs (cs_world s') ''pvc-u1'') | _ \<Rightarrow> False" by code_simp
  then obtain s' where run: "syncVolumeHandler hp_c ''pvc-u1'' ?s = (Ok (), s')" and gone: "w_pvs (cs_world s') ''pvc-u1'' = None"
    by (auto simp: Option.is_none_def split: prod.splits outcome.splits)
  have named: "pvs_named (cs_world ?s)" and vol: "map_of (cs_volumes ?s) ''pvc-u1'' = Some (VolumeObject released_pv)"
    and there: "w_pvs (cs_world ?s) ''pvc-u1'' \<noteq> None"
    by (simp_all add: pvs_named_def released_s_def released_pv_def demo_pv_def)
  have "w_pvs (cs_world s') \<noteq> w_pvs (cs_world ?s)" using gone there by metis
  then show ?thesis using delete_volume_guarded [OF hp_api(1,2) named vol run] run gone by blast
qed

text \<open>C35: A volume that is being deleted (it has a deletion timestamp) is never touched again by the
  controller from Kubernetes 1.9 on, whether or not it still has the finalizer of the provisioner: a
  finalizer that could not be removed stays, and so does the volume, and a volume that a user deletes
  before it is released keeps its storage asset.\<close>
theorem terminating_volume_ignored:
  assumes "kube_api (pc_client c)" "AtLeast (pc_kubeVersion c) (semantic [1, 9, 0])"
    and "map_of (cs_volumes s) key = Some (VolumeObject vol)"
    and "w_pvs (cs_world s) (vol_Name vol) = Some fresh" "vol_DeletionTimestamp fresh \<noteq> None"
    and "syncVolumeHandler c key s = (r, s')"
  shows "r = Ok () \<and> w_pvs (cs_world s') = w_pvs (cs_world s) \<and> w_os (cs_world s') = w_os (cs_world s)"
  using assms(3,6)
proof (cases rule: syncVolumeHandler_cases)
  case 2
  obtain g w where get: "k_GetPV (pc_client c) (vol_Name vol) (cs_world s) = (g, w)" by fastforce
  have "g = Inr fresh" if "g = Inr x" for x
    using kube_api.get_found [OF assms(1)] get that assms(4) by fastforce
  moreover have "\<not> shouldDelete c fresh w" using shouldDelete_facts(4) [of c fresh w] assms(2,5) by blast
  moreover have "quiet (cs_world s) w" by (rule kube_api.get_quiet [OF assms(1) get])
  ultimately show ?thesis using 2 get by (cases g) (auto simp: deleteVolumeOperation_def quiet_def)
qed simp

theorem terminating_volume_ignored_witness:
  "\<exists>s'. syncVolumeHandler hp_c ''pvc-u1'' (released_s (released_pv\<lparr>vol_DeletionTimestamp := Some 5, vol_Finalizers := [finalizerPV]\<rparr>))
      = (Ok (), s') \<and> w_pvs (cs_world s') ''pvc-u1'' \<noteq> None"
proof -
  let ?pv = "released_pv\<lparr>vol_DeletionTimestamp := Some 5, vol_Finalizers := [finalizerPV]\<rparr>"
  obtain r s' where run: "syncVolumeHandler hp_c ''pvc-u1'' (released_s ?pv) = (r, s')" by fastforce
  have v: "AtLeast (pc_kubeVersion hp_c) (semantic [1, 9, 0])" by code_simp
  have vol: "map_of (cs_volumes (released_s ?pv)) ''pvc-u1'' = Some (VolumeObject released_pv)"
    and there: "w_pvs (cs_world (released_s ?pv)) (vol_Name released_pv) = Some ?pv"
    by (simp_all add: released_s_def released_pv_def demo_pv_def)
  have "vol_Name released_pv = ''pvc-u1''" by (simp add: released_pv_def demo_pv_def)
  then show ?thesis using terminating_volume_ignored [OF hp_api(1) v vol there _ run] run there by simp
qed

end
