(* ===== verification/Provisioner_Main.thy ===== *)
theory Provisioner_Main
  imports Provision_Controller Hostpath_Provisioner
begin

text \<open>
  Starting the provision controller: \<open>Run\<close> of \<open>controller/controller.go\<close> and of the volume stores, as
  the control loops they start, and \<open>main\<close> of \<open>cmd/provisioner/hostpath-provisioner.go\<close>. The cluster
  configuration and the answer of the API server to the version request are parameters.
\<close>

section \<open>Control loops\<close>

datatype control_loop = RunInformer string | ClaimWorker | VolumeWorker | SaveWorker

datatype loop_end = Serving | Stopped | FatalExit string | Electing string

definition resourcelock_New :: "string \<Rightarrow> go_error option" where
  \<comment> \<open>the error for the lock type; a lock of type \<open>leases\<close> is made\<close>
  "resourcelock_New lockType =
     (if lockType = ''endpoints'' then Some (ErrorString ''endpoints lock is removed, migrate to leases'')
      else if lockType = ''configmaps'' then Some (ErrorString ''configmaps lock is removed, migrate to leases'')
      else if lockType = ''leases'' then None
      else if lockType = ''endpointsleases'' then Some (ErrorString ''endpointsleases lock is removed, migrate to leases'')
      else if lockType = ''configmapsleases'' then Some (ErrorString ''configmapsleases lock is removed, migrated to leases'')
      else Some (ErrorString (''Invalid lock-type '' @ lockType)))"

definition store_Run :: "VolumeStore \<Rightarrow> int \<Rightarrow> control_loop list" where
  "store_Run store threadiness =
     (case store of QueueStore _ \<Rightarrow> replicate (nat threadiness) SaveWorker | BackoffStore _ \<Rightarrow> [])"

definition run_loops ::
    "ProvisionController \<Rightarrow> bool \<Rightarrow> ctrl_state \<Rightarrow> control_loop list \<times> loop_end \<times> ProvisionController \<times> ctrl_state" where
  \<comment> \<open>the function \<open>run\<close> in \<open>Run\<close>; \<open>synced\<close> is the result of \<open>cache.WaitForCacheSync\<close>\<close>
  "run_loops c synced s =
     (let informers = (if pc_customClaimInformer c then [] else [RunInformer ''claims''])
            @ (if pc_customVolumeInformer c then [] else [RunInformer ''volumes''])
            @ (if pc_customClassInformer c then [] else [RunInformer ''classes'']);
          c' = c\<lparr>pc_hasRun := True\<rparr>
      in if \<not> synced
         then (informers, Stopped, c', s\<lparr>cs_claimQueue := wq_ShutDown (cs_claimQueue s), cs_volumeQueue := wq_ShutDown (cs_volumeQueue s)\<rparr>)
         else (informers @ concat (replicate (nat (pc_threadiness c)) [ClaimWorker, VolumeWorker]), Serving, c', s))"

definition ctrl_Run ::
    "ProvisionController \<Rightarrow> bool \<Rightarrow> ctrl_state \<Rightarrow> control_loop list \<times> loop_end \<times> ProvisionController \<times> ctrl_state" where
  "ctrl_Run c synced s =
     (let saving = store_Run (cs_store s) DefaultThreadiness
      in if pc_leaderElection c
         then (case resourcelock_New ''endpoints'' of
                 Some err \<Rightarrow> (saving, FatalExit (''Error creating lock: '' @ error_msg err), c, s)
               | None \<Rightarrow> (saving, Electing (ReplaceAll CHR ''/'' CHR ''-'' (pc_provisionerName c)), c, s))
         else (let (loops, fin, c', s') = run_loops c synced s in (saving @ loops, fin, c', s')))"

section \<open>The main function\<close>

definition provisioner_controller ::
    "go_error + unit \<Rightarrow> go_error + kube_client \<Rightarrow> go_error + Version \<Rightarrow> (string \<Rightarrow> string) \<Rightarrow> string option \<Rightarrow>
     go_error + string \<times> string \<Rightarrow> go_error + string \<Rightarrow> string \<Rightarrow> world \<Rightarrow> (ProvisionController \<times> ctrl_state) outcome" where
  \<comment> \<open>\<open>main\<close> up to the construction of the controller\<close>
  "provisioner_controller config clientset serverVersion getenv nsfile scheme hostname uuid w =
     (case config of
        Inl err \<Rightarrow> Panic (''Failed to create config: '' @ error_msg err)
      | Inr _ \<Rightarrow>
     (case clientset of
        Inl err \<Rightarrow> Panic (''Failed to create client: '' @ error_msg err)
      | Inr client \<Rightarrow>
     (case serverVersion of
        Inl err \<Rightarrow> Panic (''Error getting server version: '' @ error_msg err)
      | Inr version \<Rightarrow>
     (case NewHostPathProvisioner getenv of
        Ok p \<Rightarrow> NewProvisionController client defaultProvisionerName (hostpath_provisioner p) version scheme hostname uuid
                  (getInClusterNamespace getenv nsfile) [] w
      | Err err \<Rightarrow> Err err
      | Panic m \<Rightarrow> Panic m))))"

definition provisioner_main ::
    "go_error + unit \<Rightarrow> go_error + kube_client \<Rightarrow> go_error + Version \<Rightarrow> (string \<Rightarrow> string) \<Rightarrow> string option \<Rightarrow>
     go_error + string \<times> string \<Rightarrow> go_error + string \<Rightarrow> string \<Rightarrow> bool \<Rightarrow> world \<Rightarrow> (control_loop list \<times> loop_end) outcome" where
  "provisioner_main config clientset serverVersion getenv nsfile scheme hostname uuid synced w =
     (case provisioner_controller config clientset serverVersion getenv nsfile scheme hostname uuid w of
        Ok (c, s) \<Rightarrow> (case ctrl_Run c synced s of (loops, fin, _) \<Rightarrow> Ok (loops, fin))
      | Err err \<Rightarrow> Err err
      | Panic m \<Rightarrow> Panic m)"

section \<open>Facts\<close>

lemma provisioner_controller_facts:
  assumes "provisioner_controller config (Inr k) serverVersion getenv nsfile scheme hostname uuid w = Ok (c, s)"
  obtains p where "pc_client c = k" "pc_provisioner c = hostpath_provisioner p" "hp_pvDir p = getenv ''PV_DIR''"
    and "hp_nodeName p = getenv ''NODE_NAME''" "pc_provisionerName c = defaultProvisionerName" "\<not> pc_addFinalizer c" "\<not> pc_leaderElection c"
    and "hp_identity p = defaultProvisionerName" "hp_useNamingPrefix p \<longleftrightarrow> ToLower (getenv ''USE_NAMING_PREFIX'') = ''true''"
    and "cs_store s = BackoffStore \<lparr>bs_client = k, bs_backoff = \<lparr>bo_Duration = DefaultCreateProvisionedPVInterval,
           bo_Factor = Some (\<lambda>d. d), bo_Steps = DefaultCreateProvisionedPVRetryCount, bo_Cap = 0\<rparr>, bs_provisioner = hostpath_provisioner p\<rparr>"
  using assms
  by (auto simp: provisioner_controller_def NewProvisionController_def NewHostPathProvisioner_def default_controller_def
      volume_store_def NewBackoffStore_def DefaultAddFinalizer_def Let_def split: sum.splits outcome.splits if_splits)

text \<open>With leader election the controller cannot run: the kind of lock it asks for was removed.\<close>

lemma leader_election_exits: "pc_leaderElection c \<Longrightarrow> \<exists>m. fst (snd (ctrl_Run c synced s)) = FatalExit m"
  by (simp add: ctrl_Run_def resourcelock_New_def)

lemma ctrl_Run_workers:
  assumes "\<not> pc_leaderElection c" "ctrl_Run c True s = (loops, fin, c', s')"
  shows "fin = Serving" "HasRun c'" "s' = s" "count_list loops ClaimWorker = nat (pc_threadiness c)"
    "count_list loops VolumeWorker = nat (pc_threadiness c)"
proof -
  have w: "count_list (concat (replicate n [ClaimWorker, VolumeWorker])) x = (if x = ClaimWorker \<or> x = VolumeWorker then n else 0)" for n x
    by (induction n) auto
  have r: "count_list (replicate n SaveWorker) x = (if x = SaveWorker then n else 0)" for n x by (induction n) auto
  have st: "count_list (store_Run q t) x = 0" if "x \<noteq> SaveWorker" for q t x
    using r that by (simp add: store_Run_def split: VolumeStore.splits)
  show "fin = Serving" "HasRun c'" "s' = s" "count_list loops ClaimWorker = nat (pc_threadiness c)"
    "count_list loops VolumeWorker = nat (pc_threadiness c)"
    using assms w st by (auto simp: ctrl_Run_def run_loops_def HasRun_def Let_def split: if_splits)
qed

end
