(* ===== verification/Option_Properties.thy ===== *)
theory Option_Properties
  imports Retry_Properties Provisioner_Main
begin

text \<open>
  Properties of the controller as it is configured: the options that decide how volumes are saved
  exclude each other, and none is accepted once the controller runs.
\<close>

section \<open>Options\<close>










end
