(* ===== verification/Lifecycle_Properties.thy ===== *)
theory Lifecycle_Properties
  imports Provision_Properties Option_Properties
begin

text \<open>
  The deployed provisioner from the claim to the deletion of its volume: the life of a claim on a node
  leaves nothing behind.
\<close>

section \<open>The life of a claim\<close>

definition volume_dir :: "(string \<Rightarrow> string) \<Rightarrow> PersistentVolumeClaim \<Rightarrow> string" where
  \<comment> \<open>the name of the directory of the claim\<close>
  "volume_dir getenv claim =
     (if ToLower (getenv ''USE_NAMING_PREFIX'') = ''true'' then pvc_Name claim @ ''-'' else [])
       @ getProvisionedVolumeNameForClaim claim"

lemma Provision_volume:
  assumes "Provision p opts w = (Ok v, w')"
  shows "map_of (vol_Annotations v) annIdentity = Some (hp_identity p)" "map_of (vol_Annotations v) annProvisionOnNode = Some (hp_nodeName p)"
    "vol_Finalizers v = []" "vol_DeletionTimestamp v = None" "vol_ReclaimPolicy v = ReclaimDelete"
  using assms
  by (auto simp: Provision_def Let_def annIdentity_def annProvisionOnNode_def split: sum.splits prod.splits option.splits)

lemma finish_volume_keeps:
  assumes "\<not> pc_addFinalizer c" "a \<noteq> annDynamicallyProvisioned" "a \<noteq> annClass"
  shows "map_of (vol_Annotations (finish_volume c cls cr v)) a = map_of (vol_Annotations v) a"
    "vol_Finalizers (finish_volume c cls cr v) = vol_Finalizers v"
    "vol_DeletionTimestamp (finish_volume c cls cr v) = vol_DeletionTimestamp v"
  using assms by (auto simp: finish_volume_def Let_def SetMetaDataAnnotation_def)

text \<open>What the deployed controller makes of a claim that is provisioned: a directory and a volume object.\<close>

lemma deployed_provisioned:
  assumes c: "pc_client c = k" "kube_api k" "pc_provisioner c = hostpath_provisioner p" "\<not> pc_addFinalizer c"
    and store: "cs_store s = blocking_store c b" "0 < bo_Steps b"
    and new: "w_pvs (cs_world s) n = None" "n = getProvisionedVolumeNameForClaim claim" "claim = w_claims (cs_world s) ref"
    and run: "provisionClaimOperation c ref s = ((st, Ok ()), s1)" "w_pvs (cs_world s1) n = Some v"
  obtains path where "vol_HostPath v = Some path" "os_MkdirAll path (w_os (cs_world s)) = (None, w_os (cs_world s1))"
    and "path = Join [hp_pvDir p, (if hp_useNamingPrefix p then pvc_Name claim @ ''-'' else []) @ n]" "path \<noteq> []"
    and "map_of (vol_Annotations v) annIdentity = Some (hp_identity p)" "map_of (vol_Annotations v) annProvisionOnNode = Some (hp_nodeName p)"
    and "map_of (vol_Annotations v) annDynamicallyProvisioned = Some (pc_provisionerName c)" "vol_Name v = n"
    and "vol_DeletionTimestamp v = None" "vol_ReclaimPolicy v = ReclaimDelete"
proof -
  have ax: "kube_api (pc_client c)" "asset_provisioner (pc_provisioner c) backing_directory" "pr_ProvisionExt (pc_provisioner c) = None"
    using c hostpath.asset_provisioner_axioms by (simp_all add: hostpath_provisioner_def)
  from run(1) show thesis
  proof (cases rule: provisionClaimOperation_cases)
    case early
    then have "w_pvs (cs_world s1) = w_pvs (cs_world s)" using kube_api.quiet_kube_api [OF ax(1)] by (simp add: untouched_def quiet_def)
    then show thesis using new(1) run(2) by simp
  next
    case (go e w1 cr cls node s2)
    have s2: "w_pvs (cs_world s2) = w_pvs (cs_world s)" "w_os (cs_world s2) = w_os (cs_world s)" "cs_store s2 = blocking_store c b"
      using go(6) kube_api.quiet_kube_api [OF ax(1)] store(1) by (auto simp: untouched_def quiet_def)
    show thesis
    proof (rule provision_and_store_facts [OF ax s2(3) store(2) go(7)], goal_cases same stored)
      case same
      then show thesis using s2(1) new(1) run(2) by simp
    next
      case (stored u w0 w1)
      let ?u = "finish_volume c (GetPersistentVolumeClaimClass claim) cr u"
      let ?opts = "\<lparr>po_StorageClass = cls, po_PVName = n, po_PVC = claim, po_SelectedNode = node\<rparr>"
      have prov: "Provision p ?opts w0 = (Ok u, w1)"
        using stored(4) c(3) new(2,3) by (simp add: hostpath_provisioner_def)
      have name: "vol_Name ?u = n" using stored(1) new(2,3) finish_volume_facts(1) by simp
      have v: "v = admitted (pc_client c) ?u" using stored(2) s2(1) new run(2) name by (auto simp: stored_only_def)
      have ann: "annIdentity \<noteq> annDynamicallyProvisioned" "annIdentity \<noteq> annClass" "annProvisionOnNode \<noteq> annDynamicallyProvisioned"
        "annProvisionOnNode \<noteq> annClass" by code_simp+
      note kept = finish_volume_keeps [OF c(4)]
      obtain path os' where "vol_HostPath u = Some path" "os_MkdirAll path (w_os w0) = (None, os')" "w1 = w0\<lparr>w_os := os'\<rparr>" "path \<noteq> []"
        and "path = Join [hp_pvDir p, (if hp_useNamingPrefix p then pvc_Name claim @ ''-'' else []) @ n]"
        by (rule Provision_Ok [OF prov, unfolded ProvisionOptions.select_convs])
      then show thesis
        using that [of path] stored(5,6) s2(2) v name kept [OF ann(1,2)] kept [OF ann(3,4)] Provision_volume [OF prov]
          finish_volume_facts(2,4,5)
        by simp
    qed
  qed
qed

lemma deployed_deleted:
  assumes c: "pc_client c = k" "kube_api k" "pc_provisioner c = hostpath_provisioner p" "\<not> pc_addFinalizer c"
    and pv: "map_of (cs_volumes s) n = Some (VolumeObject pv)" "w_pvs (cs_world s) n = Some pv" "vol_Name pv = n"
    and ann: "map_of (vol_Annotations pv) annIdentity = Some (hp_identity p)" "map_of (vol_Annotations pv) annProvisionOnNode = Some (hp_nodeName p)"
      "map_of (vol_Annotations pv) annDynamicallyProvisioned = Some (pc_provisionerName c)"
    and fields: "vol_Phase pv = VolumeReleased" "vol_ReclaimPolicy pv = ReclaimDelete" "vol_DeletionTimestamp pv = None"
      "vol_HostPath pv = Some path"
    and run: "fst (k_GetPV k n (cs_world s)) = Inr pv" "syncVolumeHandler c n s = (Ok (), s')"
  shows "w_pvs (cs_world s') n = None \<or> vol_Finalizers pv \<noteq> [] \<and> (\<exists>t. w_pvs (cs_world s') n = Some (pv\<lparr>vol_DeletionTimestamp := Some t\<rparr>))"
    "m \<noteq> n \<Longrightarrow> w_pvs (cs_world s') m = w_pvs (cs_world s) m"
    and "\<exists>w'. os_RemoveAll path (w_os (cs_world s)) = (None, w') \<and> w_os (cs_world s') = w'"
proof -
  have ax: "kube_api (pc_client c)" "asset_provisioner (pc_provisioner c) backing_directory"
    using c hostpath.asset_provisioner_axioms by simp_all
  have should: "shouldDelete c pv w" for w
    using ann(3) fields(1-3) c(3) by (simp add: shouldDelete_def hostpath_provisioner_def)
  have del: "deleteVolumeOperation c pv s = (Ok (), s')"
    using run(2) pv(1) should by (simp add: syncVolumeHandler_def syncVolume_def)
  obtain w1 where get: "k_GetPV (pc_client c) n (cs_world s) = (Inr pv, w1)" using run(1) c(1) by (metis prod.collapse)
  have q: "quiet (cs_world s) w1" by (rule kube_api.get_quiet [OF ax(1) get])
  obtain r w2 where rem: "os_RemoveAll path (w_os w1) = (r, w2)" by fastforce
  have prov: "pr_Delete (pc_provisioner c) pv w1 = (case r of None \<Rightarrow> Ok () | Some e \<Rightarrow> Err e, w1\<lparr>w_os := w2\<rparr>)"
    using ann(1,2) fields(4) rem c(3) by (simp add: hostpath_provisioner_def Delete_def isCorrectNode_def split: option.splits)
  have noerr: "r \<noteq> Some (IgnoredError m)" for m
    using rem by (auto simp: os_RemoveAll_def Let_def split: if_splits list.splits)
  obtain e w3 where api: "k_DeletePV (pc_client c) n (w1\<lparr>w_os := w2\<rparr>) = (e, w3)" by fastforce
  note run' = del [unfolded deleteVolumeOperation_def pv(3) get prod.case sum.case prov]
  have r: "r = None" using run' should noerr by (auto split: option.splits go_error.splits)
  have e: "e = None" "cs_world s' = w3"
    using run' should r api c(4) by (auto simp: remove_finalizer_def split: option.splits)
  have "w_pvs (w1\<lparr>w_os := w2\<rparr>) n = Some pv" using q pv(2) by (simp add: quiet_def)
  then show "w_pvs (cs_world s') n = None \<or> vol_Finalizers pv \<noteq> [] \<and> (\<exists>t. w_pvs (cs_world s') n = Some (pv\<lparr>vol_DeletionTimestamp := Some t\<rparr>))"
    using kube_api.delete_ok [OF ax(1) api [unfolded e(1)]] e(2) by auto
  show "w_pvs (cs_world s') m = w_pvs (cs_world s) m" if "m \<noteq> n"
    using kube_api.delete_other [OF ax(1) api that] e q by (simp add: quiet_def)
  have "w_os w3 = w2" using kube_api.delete_os [OF ax(1) api] by simp
  then show "\<exists>w'. os_RemoveAll path (w_os (cs_world s)) = (None, w') \<and> w_os (cs_world s') = w'"
    using rem r q e by (simp add: quiet_def)
qed

text \<open>C37: The life of a claim with the deployed provisioner. A claim is provisioned on a node whose volume
  directory exists and has no entry for it (a plain name), no volume object of its name being there;
  pods write whatever they like into the directory of the
  volume, the volume is released, whatever finalizers the cluster has given it by then, and the
  controller, which finds it in its cache and in the API server, deletes it without an error. Then the file tree of the node is exactly the one before the
  claim and no other object was touched by the deletion. The object of the volume is gone; only if it
  has finalizers, as with PV protection from Kubernetes 1.9 on, it may still be there as it was but for
  a deletion timestamp, until the cluster removes them.\<close>
theorem claim_lifecycle_restores:
  assumes main: "provisioner_controller config (Inr k) serverVersion getenv nsfile sch host uuid w0 = Ok (c, s0)" "kube_api k"
    and start: "cs_store s = cs_store s0" "os_ok (w_os (cs_world s))" "claim = w_claims (cs_world s) ref"
      "n = getProvisionedVolumeNameForClaim claim" "w_pvs (cs_world s) n = None" "simple_name (volume_dir getenv claim)"
      "lookup (w_os (cs_world s)) (path_key (getenv ''PV_DIR'')) = Some Directory"
      "lookup (w_os (cs_world s)) (path_key (getenv ''PV_DIR'') @ [volume_dir getenv claim]) = None"
    and provision: "provisionClaimOperation c ref s = ((st, Ok ()), s1)" "w_pvs (cs_world s1) n = Some v"
    and used: "\<forall>q. \<not> prefix (path_key (getenv ''PV_DIR'') @ [volume_dir getenv claim]) q \<longrightarrow>
        lookup (w_os (cs_world s2)) q = lookup (w_os (cs_world s1)) q"
    and released: "map_of (cs_volumes s2) n = Some (VolumeObject (v\<lparr>vol_Phase := VolumeReleased, vol_Finalizers := fs\<rparr>))"
      "w_pvs (cs_world s2) n = Some (v\<lparr>vol_Phase := VolumeReleased, vol_Finalizers := fs\<rparr>)"
      "fst (k_GetPV k n (cs_world s2)) = Inr (v\<lparr>vol_Phase := VolumeReleased, vol_Finalizers := fs\<rparr>)"
    and delete: "syncVolumeHandler c n s2 = (Ok (), s3)"
  shows "lookup (w_os (cs_world s3)) = lookup (w_os (cs_world s)) \<and>
    (w_pvs (cs_world s3) n = None \<or>
      fs \<noteq> [] \<and> (\<exists>t. w_pvs (cs_world s3) n = Some (v\<lparr>vol_Phase := VolumeReleased, vol_Finalizers := fs\<rparr>\<lparr>vol_DeletionTimestamp := Some t\<rparr>))) \<and>
    (\<forall>m. m \<noteq> n \<longrightarrow> w_pvs (cs_world s3) m = w_pvs (cs_world s2) m)"
proof -
  let ?k = "path_key (getenv ''PV_DIR'') @ [volume_dir getenv claim]" and ?w = "w_os (cs_world s)" and ?v = "v\<lparr>vol_Phase := VolumeReleased, vol_Finalizers := fs\<rparr>"
  obtain p where c: "pc_client c = k" "pc_provisioner c = hostpath_provisioner p" "hp_pvDir p = getenv ''PV_DIR''" "\<not> pc_addFinalizer c"
    and pre: "hp_useNamingPrefix p \<longleftrightarrow> ToLower (getenv ''USE_NAMING_PREFIX'') = ''true''"
    and st: "cs_store s0 = BackoffStore \<lparr>bs_client = k, bs_backoff = \<lparr>bo_Duration = DefaultCreateProvisionedPVInterval,
           bo_Factor = Some (\<lambda>d. d), bo_Steps = DefaultCreateProvisionedPVRetryCount, bo_Cap = 0\<rparr>, bs_provisioner = hostpath_provisioner p\<rparr>"
    using main(1) by (rule provisioner_controller_facts)
  let ?b = "\<lparr>bo_Duration = DefaultCreateProvisionedPVInterval, bo_Factor = Some (\<lambda>d. d), bo_Steps = DefaultCreateProvisionedPVRetryCount, bo_Cap = 0\<rparr>"
  have store: "cs_store s = blocking_store c ?b" "0 < bo_Steps ?b"
    using st start(1) c(1,2) by (simp_all add: blocking_store_def DefaultCreateProvisionedPVRetryCount_def)
  obtain path where path: "vol_HostPath v = Some path" "os_MkdirAll path ?w = (None, w_os (cs_world s1))"
      "path = Join [hp_pvDir p, (if hp_useNamingPrefix p then pvc_Name claim @ ''-'' else []) @ n]" "path \<noteq> []"
    and ann: "map_of (vol_Annotations v) annIdentity = Some (hp_identity p)" "map_of (vol_Annotations v) annProvisionOnNode = Some (hp_nodeName p)"
      "map_of (vol_Annotations v) annDynamicallyProvisioned = Some (pc_provisionerName c)" "vol_Name v = n"
    and fields: "vol_DeletionTimestamp v = None" "vol_ReclaimPolicy v = ReclaimDelete"
    by (rule deployed_provisioned [OF c(1) main(2) c(2,4) store start(5,4,3) provision])
  have key: "path_key path = ?k" using path(3) c(3) pre start(4,6) by (simp add: volume_dir_def path_key_Join_simple)
  have v: "vol_Name ?v = n" "map_of (vol_Annotations ?v) annIdentity = Some (hp_identity p)"
    "map_of (vol_Annotations ?v) annProvisionOnNode = Some (hp_nodeName p)"
    "map_of (vol_Annotations ?v) annDynamicallyProvisioned = Some (pc_provisionerName c)" "vol_Phase ?v = VolumeReleased"
    "vol_ReclaimPolicy ?v = ReclaimDelete" "vol_DeletionTimestamp ?v = None" "vol_HostPath ?v = Some path"
    using ann fields path(1) by simp_all
  note d = deployed_deleted [OF c(1) main(2) c(2,4) released(1,2) v released(3) delete]
  from d(3)
  have rem: "os_RemoveAll path (w_os (cs_world s2)) = (None, w_os (cs_world s3))" by blast
  have wf: "fs_wf (os_fs ?w)" by (rule os_okD [OF start(2)])
  have "lookup (w_os (cs_world s3)) q = lookup ?w q" for q
  proof (cases "prefix ?k q")
    case True
    then show ?thesis using os_RemoveAll_ok [OF rem path(4), unfolded key] fs_absent_below [OF wf start(8)] by simp
  next
    case False
    have "lookup (w_os (cs_world s3)) q = lookup (w_os (cs_world s1)) q"
      using os_RemoveAll_outside [OF rem, unfolded key] used False by simp
    also have "\<dots> = lookup ?w q"
    proof (cases "lookup ?w q")
      case (Some x)
      then show ?thesis using os_MkdirAll_keeps [OF path(2)] by simp
    next
      case None
      have "\<not> prefix q ?k" if "lookup (w_os (cs_world s1)) q = Some x" for x
        using fs_dir_above [OF wf start(7)] None False by (auto simp: prefix_snoc)
      then show ?thesis using os_MkdirAll_new [OF path(2) None, unfolded key] None by (cases "lookup (w_os (cs_world s1)) q") auto
    qed
    finally show ?thesis .
  qed
  moreover have "vol_Finalizers ?v = fs" by simp
  ultimately show ?thesis using d(1,2) by auto
qed

definition life_env :: "string \<Rightarrow> string" where
  "life_env x = (if x = ''PV_DIR'' then ''/a'' else if x = ''NODE_NAME'' then ''n1'' else if x = ''POD_NAMESPACE'' then ''ns'' else [])"

definition life_c :: ProvisionController where
  "life_c = default_controller protecting_client defaultProvisionerName (hostpath_provisioner demo_hp) (semantic [1, 20, 0])
     (Inr (''PersistentVolumeClaim'', ''v1'')) ''host_id'' ''ns''"

definition life_s :: ctrl_state where
  "life_s = hp_s\<lparr>cs_limiter := queue_limiter life_c, cs_store := volume_store life_c\<rparr>"

definition life_s1 :: ctrl_state where
  "life_s1 = snd (provisionClaimOperation life_c 0 life_s)"

definition life_v :: PersistentVolume where
  "life_v = the (w_pvs (cs_world life_s1) ''pvc-u1'')"

definition life_s2 :: ctrl_state where
  \<comment> \<open>a pod wrote a file, the volume was released\<close>
  "life_s2 = (let v = life_v\<lparr>vol_Phase := VolumeReleased, vol_Finalizers := [pv_protection]\<rparr>; w = cs_world life_s1; o' = w_os w
     in life_s1\<lparr>cs_volumes := [(''pvc-u1'', VolumeObject v)],
          cs_world := w\<lparr>w_pvs := [''pvc-u1'' \<mapsto> v], w_os := o'\<lparr>os_fs := ([''a'', ''pvc-u1'', ''f''], RegularFile ''x'') # os_fs o'\<rparr>\<rparr>\<rparr>)"

lemma life_controller:
  "provisioner_controller (Inr ()) (Inr protecting_client) (Inr (semantic [1, 20, 0])) life_env None (Inr (''PersistentVolumeClaim'', ''v1''))
     (Inr ''host'') ''id'' w = Ok (life_c, life_s\<lparr>cs_claims := [], cs_classes := [], cs_world := w\<rparr>)"
  by (simp add: provisioner_controller_def NewProvisionController_def NewHostPathProvisioner_def life_env_def life_c_def life_s_def hp_s_def
      demo_hp_def default_controller_def getInClusterNamespace_def ToLower_def)

lemma life_provisioned:
  "provisionClaimOperation life_c 0 life_s = ((ProvisioningFinished, Ok ()), life_s1)" "w_pvs (cs_world life_s1) ''pvc-u1'' = Some life_v"
proof -
  have "case provisionClaimOperation life_c 0 life_s of ((ProvisioningFinished, Ok _), s') \<Rightarrow> \<not> Option.is_none (w_pvs (cs_world s') ''pvc-u1'')
    | _ \<Rightarrow> False" by code_simp
  then show "provisionClaimOperation life_c 0 life_s = ((ProvisioningFinished, Ok ()), life_s1)" "w_pvs (cs_world life_s1) ''pvc-u1'' = Some life_v"
    by (auto simp: life_s1_def life_v_def Option.is_none_def split: prod.splits outcome.splits ProvisioningState.splits)
qed

lemma life_deleted: "\<exists>s3. syncVolumeHandler life_c ''pvc-u1'' life_s2 = (Ok (), s3) \<and> w_pvs (cs_world s3) ''pvc-u1'' \<noteq> None"
proof -
  have "case syncVolumeHandler life_c ''pvc-u1'' life_s2 of (Ok _, s3) \<Rightarrow> \<not> Option.is_none (w_pvs (cs_world s3) ''pvc-u1'') | _ \<Rightarrow> False"
    by code_simp
  then show ?thesis by (auto simp: Option.is_none_def split: prod.splits outcome.splits)
qed

lemma life_start:
  "os_ok (w_os (cs_world life_s))" "w_claims (cs_world life_s) 0 = hp_claim" "w_pvs (cs_world life_s) ''pvc-u1'' = None"
  "getProvisionedVolumeNameForClaim hp_claim = ''pvc-u1''" "volume_dir life_env hp_claim = ''pvc-u1''"
  "path_key (life_env ''PV_DIR'') = [''a'']"
  by (simp_all add: life_s_def hp_s_def demo_world_def os_ok_def demo_os_def fs_wf_def simple_name_def getProvisionedVolumeNameForClaim_def
      hp_claim_def demo_claim_def volume_dir_def life_env_def ToLower_def) code_simp+

lemma life_files:
  "lookup (w_os (cs_world life_s)) [''a''] = Some Directory" "lookup (w_os (cs_world life_s)) [''a'', ''pvc-u1''] = None"
  by code_simp+

lemma life_used:
  "\<not> prefix [''a'', ''pvc-u1''] q \<Longrightarrow> lookup (w_os (cs_world life_s2)) q = lookup (w_os (cs_world life_s1)) q"
  by (auto simp: life_s2_def Let_def fs_lookup_def)

theorem claim_lifecycle_restores_witness:
  "\<exists>s3 v t. provisionClaimOperation life_c 0 life_s = ((ProvisioningFinished, Ok ()), life_s1) \<and>
     syncVolumeHandler life_c ''pvc-u1'' life_s2 = (Ok (), s3) \<and> lookup (w_os (cs_world s3)) = lookup (w_os (cs_world life_s)) \<and>
     w_pvs (cs_world s3) ''pvc-u1'' = Some (v\<lparr>vol_DeletionTimestamp := Some t\<rparr>)"
proof -
  let ?v = "life_v\<lparr>vol_Phase := VolumeReleased, vol_Finalizers := [pv_protection]\<rparr>"
  obtain s3 where run: "syncVolumeHandler life_c ''pvc-u1'' life_s2 = (Ok (), s3)" and there: "w_pvs (cs_world s3) ''pvc-u1'' \<noteq> None"
    using life_deleted by blast
  have s2: "map_of (cs_volumes life_s2) ''pvc-u1'' = Some (VolumeObject ?v)" "w_pvs (cs_world life_s2) ''pvc-u1'' = Some ?v"
    "fst (k_GetPV protecting_client ''pvc-u1'' (cs_world life_s2)) = Inr ?v"
    by (simp_all add: life_s2_def Let_def protecting_client_def tracker_client_def tracker_Get_def)
  have "lookup (w_os (cs_world s3)) = lookup (w_os (cs_world life_s)) \<and>
      (\<exists>t. w_pvs (cs_world s3) ''pvc-u1'' = Some (?v\<lparr>vol_DeletionTimestamp := Some t\<rparr>))"
    using claim_lifecycle_restores [OF life_controller protecting.kube_api_axioms, of life_s "demo_world hp_claim" hp_claim 0 "''pvc-u1''"
        ProvisioningFinished life_s1 life_v life_s2 "[pv_protection]" s3] life_start life_files life_provisioned life_used s2 run there
    by (simp add: simple_name_def)
  then show ?thesis using run life_provisioned(1) by blast
qed

end
