(* ===== verification/Spec2Isabelle.thy ===== *)
theory Spec2Isabelle
  imports Node_Properties Driver_Properties Lifecycle_Properties
begin

text \<open>
  A verification development of the hostpath provisioner.

  \<^bold>\<open>The program.\<close> The repository builds two programs that turn directories of a Kubernetes node into
  volumes. The CSI plugin (\<open>cmd/plugin\<close>, \<open>pkg/hostpath\<close>) is a gRPC server that the kubelet and the CSI
  sidecars call: the controller service creates, lists and deletes volumes and snapshots in storage
  pools, the node service bind-mounts a volume into a pod, the identity service names the plugin. The
  legacy provisioner (\<open>cmd/provisioner\<close>) implements the interfaces of \<open>controller/volume.go\<close> and is
  driven by the provision controller (\<open>controller/controller.go\<close>), which watches claims and volumes,
  keeps them in work queues, asks the provisioner for a volume and saves it through a volume store
  (\<open>controller/volume_store.go\<close>), and deletes released volumes.

  \<^bold>\<open>Conventions.\<close> A Go function is an Isabelle function on an explicit state. An error is a value of
  \<open>go_error\<close>; a handler gives an \<open>outcome\<close>, which is \<open>Ok\<close>, \<open>Err\<close> or \<open>Panic\<close> (a panic, or the end of the process
  by a fatal log call). A Go map is an association list in the order in which \<open>range\<close> visits it, so a
  theorem for all lists is one for all orders. \<open>int64\<close> is a 64-bit word wherever products and
  differences may wrap. An interface is a record of functions. The state of the node is the record
  \<open>os\<close> (file tree, mount table, failing system calls), the state of the cluster is the record
  \<open>world\<close> (\<open>os\<close>, volume objects, nodes, claims in memory, events), the state of the controller is
  \<open>ctrl_state\<close> (queues, rate limiter, caches, claims in progress, volume store, world).

  \<^bold>\<open>Theories and sources.\<close>

  \<^item> \<open>Go_Prelude\<close>, \<open>Go_Filepath\<close>, \<open>OS_Files\<close>: errors, outcomes, maps and strings of Go, \<open>path/filepath\<close>,
    and the operating system (\<open>MkdirAll\<close>, \<open>RemoveAll\<close>, \<open>ReadDir\<close>, \<open>Stat\<close>, \<open>statfs\<close>). Every system call
    may fail as \<open>os_fault\<close> says, and theorems hold for every choice. The contract is the locale
    \<open>directory_store\<close>.
  \<^item> \<open>Hostpath_Utils\<close> (\<open>utils.go\<close>), \<open>Healthcheck\<close> (\<open>healthcheck.go\<close>), \<open>Reflink\<close> (\<open>reflink.go\<close>, contract
    \<open>snapshot_store\<close>), \<open>Hostpath_Config\<close> (\<open>Config\<close>, the mount interface with its contract
    \<open>mount_service\<close>, the in-memory mounter), \<open>Controller_Server\<close> (\<open>controllerserver.go\<close>), \<open>Node_Server\<close>
    (\<open>nodeserver.go\<close>): the CSI services, one function for each handler.
  \<^item> \<open>Driver\<close>: \<open>identityserver.go\<close>, \<open>server.go\<close>, \<open>tls.go\<close>, the construction and \<open>Run\<close> of the driver in
    \<open>hostpath.go\<close>, the metric, and \<open>main\<close> of \<open>cmd/plugin/plugin.go\<close>.
  \<^item> \<open>Work_Queue\<close>: the work queue, the delayed additions and the rate limiter of client-go, with the
    specification \<open>work_service\<close>.
  \<^item> \<open>Kube_Objects\<close>: the API objects, versions, and the API client with its contract \<open>kube_api\<close>; the
    object tracker of client-go is an instance, and so is the tracker with PV protection, where
    admission adds a finalizer and deletion marks the object.
  \<^item> \<open>Provisioner_Interface\<close> (\<open>controller/volume.go\<close>, contract \<open>asset_provisioner\<close>),
    \<open>Hostpath_Provisioner\<close> (\<open>cmd/provisioner/hostpath-provisioner.go\<close>), \<open>Volume_Store\<close>
    (\<open>controller/volume_store.go\<close>, contract \<open>volume_saver\<close> with both stores as instances),
    \<open>Controller_Options\<close> and \<open>Provision_Controller\<close> (\<open>controller/controller.go\<close>), \<open>Provisioner_Main\<close> (\<open>Run\<close> and
    \<open>main\<close>).
  \<^item> \<open>Controller_Steps\<close>: the controller as the step relation \<open>ctrl_step\<close>. Informer events, workers that
    take a key and finish it, timers and a free environment interleave.

  \<^bold>\<open>What is shown.\<close>

  \<^item> \<open>Volume_Properties\<close>: a created volume has its directory and nothing else changes; deletion is confined
    to the entry with the given name; both can be repeated; creation and deletion cancel out; listing
    is complete and does not depend on the order of maps. Two theorems describe the paging errors,
    one the capacity that is reported as zero.
  \<^item> \<open>Snapshot_Properties\<close>: a snapshot that is restored gives back the files of its source; repeated
    requests, deletion, paging, and the ways in which a failed copy, a failed restore or the id \<open>..\<close> do harm.
  \<^item> \<open>Node_Properties\<close>: publishing and unpublishing for every mounter that keeps its contract, both round
    trips, the statistics within 63 bits, a persistent volume that is deleted by mistake, a nil
    dereference.
  \<^item> \<open>Driver_Properties\<close>: a driver that comes up is ready to serve; what becomes of its endpoint.
  \<^item> \<open>Retry_Properties\<close>: the work queue refines its specification; the invariant of the reachable states
    of the controller; a failing claim is processed a bounded number of times and then ignored for
    good; a forgotten volume can be queued twice.
  \<^item> \<open>Provision_Properties\<close>: what provisioning and deletion do to the cluster for every API server and
    provisioner that keep their contracts, and what the two volume stores promise.
  \<^item> \<open>Option_Properties\<close>, \<open>Lifecycle_Properties\<close>: the configuration of the controller excludes conflicting
    options; with the deployed provisioner the life of a claim restores the file tree of the node, with
    or without PV protection.

  \<^bold>\<open>Bounds and fuel.\<close> The handlers recurse over lists or over a number of steps that the code itself
  gives (the steps of a backoff). \<open>parse_ipv6_groups\<close> has 8 rounds, as the loop of the Go library fills
  two of 16 bytes in each. \<open>serve_claim\<close> of \<open>Retry_Properties\<close>, the workers run to the end, has fuel, and
  the theorem about it says that enough fuel gives the result. Nothing else is bounded.

  \<^bold>\<open>Parameters.\<close> The program \<open>cp\<close> (documented behaviour \<open>cp_spec\<close>, instance \<open>cp_rp\<close>), decoding of JSON,
  \<open>mount.New\<close>, the generation of keys and certificates, the cluster configuration, the host name, the
  UUID and the parsed version of the API server, and the API server itself (\<open>kube_api\<close>).

  \<^bold>\<open>Idealisations.\<close> \<open>mount_service\<close> records mounts as the in-memory mounter does (given options and source,
  no stacked mounts left after \<open>Unmount\<close>), not as \<open>/proc/mounts\<close> shows them. \<open>kube_api\<close> lets admission
  change the finalizers of a new volume and nothing else. The option \<open>RateLimiter\<close> takes any limiter in
  the code and a limiter of the default kind here.

  \<^bold>\<open>Not modelled.\<close> Symbolic links, permissions and the contents of sockets (the programs do not look
  at them); time, apart from the order of timers; the gRPC library and the informers, whose effect is
  that handlers are called and caches change. A handler of the CSI services is one atomic step, so the
  interleaving of two handlers inside their system calls is not covered (only those of snapshots hold
  a lock in the code). \<open>SetupMetrics\<close> and \<open>ListMetrics\<close> only call a registry,
  \<open>tools/metricsdocs\<close> and \<open>tools/prom-metrics-collector\<close> print what such a library gives, and the
  leader election of client-go is never reached, because the kind of lock that \<open>Run\<close> asks for no longer
  exists (\<open>leader_election_exits\<close>).
\<close>

end
